(* ===== verification/Go_Prelude.thy ===== *)
theory Go_Prelude
  imports Complex_Main "HOL-Library.AList" "HOL-Library.Sublist" "HOL-Library.Multiset" "HOL-Library.Word"
begin

text \<open>
  What the component theories share: the collections their proofs draw on, Go's
  fixed-width signed integers, Go's maps as association lists, and a few generic
  list lemmas.

  A Go map is an association list with distinct keys.  Reading it is
  \<^const>\<open>map_of\<close>, \<open>m[k] = v\<close> is \<^const>\<open>AList.update\<close>, \<open>delete(m, k)\<close> is
  \<^const>\<open>AList.delete\<close> and \<open>len(m)\<close> is \<^const>\<open>length\<close>.  A \<open>range\<close> loop visits the pairs in
  the order of the list; Go leaves that order open, and so do the theorems, which
  hold for every list with distinct keys.
\<close>

named_theorems go_simps "evaluation rules of the Go runtime model"
named_theorems inv_intros "introduction rules for the components' invariants"

type_synonym ('k, 'v) gomap = "('k \<times> 'v) list"

abbreviation gm_get :: "('k, 'v) gomap \<Rightarrow> 'k \<Rightarrow> 'v option" where
  "gm_get m k \<equiv> map_of m k"

abbreviation gm_set :: "'k \<Rightarrow> 'v \<Rightarrow> ('k, 'v) gomap \<Rightarrow> ('k, 'v) gomap" where
  "gm_set k v m \<equiv> AList.update k v m"

abbreviation gm_del :: "'k \<Rightarrow> ('k, 'v) gomap \<Rightarrow> ('k, 'v) gomap" where
  "gm_del k m \<equiv> AList.delete k m"

definition gm_wf :: "('k, 'v) gomap \<Rightarrow> bool" where
  "gm_wf m \<longleftrightarrow> distinct (map fst m)"

text \<open>An \<open>int64\<close> (or \<open>int\<close>, 64 bits on every supported platform) is an \<^typ>\<open>int\<close>;
  \<open>i64\<close> is the wrap-around of its arithmetic, \<open>i32\<close> that of an \<open>int32\<close>.\<close>

definition i64 :: "int \<Rightarrow> int" where
  "i64 x = (x + 9223372036854775808) mod 18446744073709551616 - 9223372036854775808"

definition i32 :: "int \<Rightarrow> int" where
  "i32 x = (x + 2147483648) mod 4294967296 - 2147483648"

definition is_i64 :: "int \<Rightarrow> bool" where
  "is_i64 x \<longleftrightarrow> - 9223372036854775808 \<le> x \<and> x < 9223372036854775808"

lemma i64_id [simp]: "is_i64 x \<Longrightarrow> i64 x = x"
  by (simp add: i64_def is_i64_def)

lemma is_i64_i64 [simp]: "is_i64 (i64 x)"
  using pos_mod_bound [of 18446744073709551616 "x + 9223372036854775808"]
    pos_mod_sign [of 18446744073709551616 "x + 9223372036854775808"]
  by (simp add: i64_def is_i64_def)

lemma is_i64_between: "\<lbrakk>is_i64 a; is_i64 b; a \<le> x; x \<le> b\<rbrakk> \<Longrightarrow> is_i64 x"
  by (simp add: is_i64_def)

lemma is_i64_0 [simp]: "is_i64 0"
  by (simp add: is_i64_def)

text \<open>Go's division truncates towards zero.\<close>

definition quot :: "int \<Rightarrow> int \<Rightarrow> int" where
  "quot a b = (if (0 \<le> a) = (0 < b) then \<bar>a\<bar> div \<bar>b\<bar> else - (\<bar>a\<bar> div \<bar>b\<bar>))"

lemma quot_nonneg: "0 \<le> a \<Longrightarrow> 0 < b \<Longrightarrow> quot a b = a div b"
  by (simp add: quot_def)

subsection \<open>Maps\<close>

lemma gm_wf_Nil [simp]: "gm_wf []"
  by (simp add: gm_wf_def)

lemma gm_wf_set [simp, inv_intros]: "gm_wf m \<Longrightarrow> gm_wf (gm_set k v m)"
  by (simp add: gm_wf_def distinct_update)

lemma gm_wf_del [simp, inv_intros]: "gm_wf m \<Longrightarrow> gm_wf (gm_del k m)"
  by (simp add: gm_wf_def distinct_delete)

lemma gm_get_set [simp]: "gm_get (gm_set k v m) k' = (if k' = k then Some v else gm_get m k')"
  by (simp add: update_conv')

lemma gm_get_del [simp]: "gm_get (gm_del k m) k' = (if k' = k then None else gm_get m k')"
  by (simp add: delete_conv')

lemma gm_get_in: "gm_wf m \<Longrightarrow> gm_get m k = Some v \<longleftrightarrow> (k, v) \<in> set m"
  by (simp add: gm_wf_def)

lemma gm_set_pairs: "gm_wf m \<Longrightarrow> set (gm_set k v m) = insert (k, v) {p \<in> set m. fst p \<noteq> k}"
proof (induction m)
  case Nil
  then show ?case by simp
next
  case (Cons p m)
  then have "gm_wf m" "fst p \<notin> fst ` set m"
    by (auto simp: gm_wf_def)
  with Cons show ?case
    by (cases p) (auto simp: image_iff)
qed

lemma gm_del_pairs: "set (gm_del k m) = {p \<in> set m. fst p \<noteq> k}"
  by (auto simp: AList.delete_eq)

lemma gm_set_new: "gm_get m k = None \<Longrightarrow> gm_set k v m = m @ [(k, v)]"
  by (induction m) (auto split: if_splits)

lemma gm_length_set:
  "length (gm_set k v m) = (if gm_get m k = None then Suc (length m) else length m)"
  by (induction m) auto

lemma gm_del_absent: "gm_get m k = None \<Longrightarrow> gm_del k m = m"
  by (simp add: delete_id map_of_eq_None_iff)

lemma gm_wf_filter [simp]: "gm_wf m \<Longrightarrow> gm_wf (filter P m)"
  by (simp add: gm_wf_def distinct_map_filter)

lemma gm_get_filter:
  "gm_wf m \<Longrightarrow> gm_get (filter P m) k =
    (case gm_get m k of None \<Rightarrow> None | Some v \<Rightarrow> if P (k, v) then Some v else None)"
  by (induction m) (auto simp: gm_wf_def map_of_eq_None_iff image_iff split: option.splits)

subsection \<open>Sums over maps and wrapped counters\<close>

definition gm_sum :: "('k, int) gomap \<Rightarrow> int" where
  "gm_sum m = sum_list (map snd m)"

definition get_or :: "'v \<Rightarrow> 'v option \<Rightarrow> 'v" where
  "get_or d x = (case x of None \<Rightarrow> d | Some v \<Rightarrow> v)"

lemma get_or_simps [simp]: "get_or d None = d" "get_or d (Some v) = v"
  by (simp_all add: get_or_def)

lemma gm_sum_Nil [simp]: "gm_sum [] = 0"
  by (simp add: gm_sum_def)

lemma gm_sum_set: "gm_sum (gm_set k v m) = gm_sum m - get_or 0 (gm_get m k) + v"
  by (induction m) (auto simp: gm_sum_def)

lemma gm_sum_del: "gm_wf m \<Longrightarrow> gm_sum (gm_del k m) = gm_sum m - get_or 0 (gm_get m k)"
proof (induction m)
  case (Cons p m)
  then have "gm_wf m" "gm_get m (fst p) = None"
    by (auto simp: gm_wf_def map_of_eq_None_iff)
  with Cons gm_del_absent [of m "fst p"] show ?case
    by (cases p) (auto simp: gm_sum_def)
qed simp

lemma gm_length_del:
  "gm_wf m \<Longrightarrow> int (length (gm_del k m)) = int (length m) - (if gm_get m k = None then 0 else 1)"
proof (induction m)
  case (Cons p m)
  then have "gm_wf m" "gm_get m (fst p) = None"
    by (auto simp: gm_wf_def map_of_eq_None_iff)
  with Cons gm_del_absent [of m "fst p"] show ?case
    by (cases p) auto
qed simp

lemma gm_sum_nonneg: "(\<And>k v. (k, v) \<in> set m \<Longrightarrow> 0 \<le> v) \<Longrightarrow> 0 \<le> gm_sum m"
  unfolding gm_sum_def by (rule sum_list_nonneg) auto

lemma i64_add_left [simp]: "i64 (i64 a + b) = i64 (a + b)"
proof -
  let ?c = "9223372036854775808 :: int" and ?M = "18446744073709551616 :: int"
  have "(a + ?c) mod ?M - ?c + b + ?c = (a + ?c) mod ?M + b" "a + b + ?c = (a + ?c) + b"
    by (simp_all only: algebra_simps)
  then show ?thesis
    unfolding i64_def by (simp only: mod_add_left_eq)
qed

lemma i64_add_right [simp]: "i64 (a + i64 b) = i64 (a + b)"
  using i64_add_left [of b a] by (simp add: add.commute)

lemma i64_diff_left [simp]: "i64 (i64 a - b) = i64 (a - b)"
  using i64_add_left [of a "- b"] by simp

lemma i64_idem [simp]: "i64 (i64 a) = i64 a"
  by simp

text \<open>Two maps with the same lookups have the same sum and size.\<close>

lemma gm_ext_mset: "\<lbrakk>gm_wf m; gm_wf m'; \<And>k. gm_get m k = gm_get m' k\<rbrakk> \<Longrightarrow> mset m = mset m'"
proof -
  assume wf: "gm_wf m" "gm_wf m'" and get: "\<And>k. gm_get m k = gm_get m' k"
  have "(k, v) \<in> set m \<longleftrightarrow> (k, v) \<in> set m'" for k v
    using wf get gm_get_in by metis
  then have "set m = set m'" by auto
  moreover have "distinct m" "distinct m'"
    using wf by (auto simp: gm_wf_def distinct_map)
  ultimately show ?thesis by (simp add: set_eq_iff_mset_eq_distinct)
qed

lemma gm_ext_sum: "\<lbrakk>gm_wf m; gm_wf m'; \<And>k. gm_get m k = gm_get m' k\<rbrakk> \<Longrightarrow> gm_sum m = gm_sum m' \<and> length m = length m'"
  using gm_ext_mset [of m m'] unfolding gm_sum_def by (metis mset_map size_mset sum_mset_sum_list)

text \<open>Keeping, and rewriting, some of the pairs.\<close>

definition gm_collect :: "('k \<Rightarrow> 'v \<Rightarrow> 'w option) \<Rightarrow> ('k, 'v) gomap \<Rightarrow> ('k, 'w) gomap" where
  "gm_collect f m = List.map_filter (\<lambda>(k, v). map_option (Pair k) (f k v)) m"

lemma gm_collect_simps [simp]:
  "gm_collect f [] = []"
  "gm_collect f ((k, v) # m) = (case f k v of None \<Rightarrow> gm_collect f m | Some w \<Rightarrow> (k, w) # gm_collect f m)"
  by (simp_all add: gm_collect_def List.map_filter_def split: option.splits)

lemma gm_collect_keys: "fst ` set (gm_collect f m) \<subseteq> fst ` set m"
  by (force simp: gm_collect_def List.map_filter_def)

lemma gm_collect_wf [simp]: "gm_wf m \<Longrightarrow> gm_wf (gm_collect f m)"
proof (induction m)
  case (Cons p m)
  then show ?case
    using gm_collect_keys [of f m] by (cases p) (auto simp: gm_wf_def split: option.splits)
qed simp

lemma gm_get_collect:
  "gm_wf m \<Longrightarrow> gm_get (gm_collect f m) k = (case gm_get m k of None \<Rightarrow> None | Some v \<Rightarrow> f k v)"
proof (induction m)
  case (Cons p m)
  have "gm_get m (fst p) = None"
    using Cons.prems by (auto simp: gm_wf_def map_of_eq_None_iff)
  then have "fst p \<notin> fst ` set m" by (simp add: map_of_eq_None_iff)
  then have "gm_get (gm_collect f m) (fst p) = None"
    using gm_collect_keys [of f m] by (auto simp: map_of_eq_None_iff)
  with Cons show ?case
    by (cases p) (auto simp: gm_wf_def split: option.splits)
qed simp

text \<open>Short runs of a step relation, for examples.\<close>

lemma two_steps: "\<lbrakk>R a b; R b c\<rbrakk> \<Longrightarrow> R\<^sup>*\<^sup>* a c"
  by (rule rtranclp.rtrancl_into_rtrancl [OF r_into_rtranclp])

lemma three_steps: "\<lbrakk>R a b; R b c; R c d\<rbrakk> \<Longrightarrow> R\<^sup>*\<^sup>* a d"
  by (rule rtranclp.rtrancl_into_rtrancl [OF two_steps])

end
