(* ===== verification/Go_Heap.thy ===== *)
theory Go_Heap
  imports Go_Prelude "HOL-Library.Multiset"
begin

text \<open>
  Go's \<open>container/heap\<close> on a slice, with elements ordered by a key: \<open>up\<close>, \<open>down\<close>,
  \<open>Push\<close>, \<open>Pop\<close> and \<open>Fix\<close> as the package defines them, on list indices.  The heap
  order is preserved by each, the elements are the same multiset, and \<open>Pop\<close> returns
  a least element.  The locale \<open>min_queue\<close> is the contract that a client of the
  package relies on; it is interpreted on the definitions below.
\<close>

section \<open>Operations\<close>

definition swap :: "nat \<Rightarrow> nat \<Rightarrow> 'a list \<Rightarrow> 'a list" where
  "swap i j xs = xs[i := xs ! j, j := xs ! i]"

definition parent :: "nat \<Rightarrow> nat" where
  "parent j = (j - 1) div 2"

lemma parent_less: "0 < j \<Longrightarrow> parent j < j"
  by (simp add: parent_def)

function heap_up :: "('a \<Rightarrow> 'b::linorder) \<Rightarrow> 'a list \<Rightarrow> nat \<Rightarrow> 'a list" where
  "heap_up key xs j =
    (let i = parent j in
     if i = j \<or> \<not> key (xs ! j) < key (xs ! i) then xs else heap_up key (swap i j xs) i)"
  by pat_completeness auto
termination
  by (relation "measure (\<lambda>(_, _, j). j)") (auto simp: parent_def)

function heap_down :: "('a \<Rightarrow> 'b::linorder) \<Rightarrow> 'a list \<Rightarrow> nat \<Rightarrow> nat \<Rightarrow> 'a list \<times> nat" where
  "heap_down key xs i n =
    (let j1 = 2 * i + 1 in
     if j1 \<ge> n then (xs, i)
     else
       (let j2 = j1 + 1; j = (if j2 < n \<and> key (xs ! j2) < key (xs ! j1) then j2 else j1) in
        if \<not> key (xs ! j) < key (xs ! i) then (xs, i) else heap_down key (swap i j xs) j n))"
  by pat_completeness auto
termination
  by (relation "measure (\<lambda>(_, _, i, n). n - i)") auto

declare heap_up.simps [simp del] heap_down.simps [simp del]

definition heap_push :: "('a \<Rightarrow> 'b::linorder) \<Rightarrow> 'a list \<Rightarrow> 'a \<Rightarrow> 'a list" where
  "heap_push key xs x = heap_up key (xs @ [x]) (length xs)"

definition heap_fix :: "('a \<Rightarrow> 'b::linorder) \<Rightarrow> 'a list \<Rightarrow> nat \<Rightarrow> 'a list" where
  "heap_fix key xs i = (let (ys, k) = heap_down key xs i (length xs) in
     if k > i then ys else heap_up key ys i)"

definition heap_pop :: "('a \<Rightarrow> 'b::linorder) \<Rightarrow> 'a list \<Rightarrow> 'a \<times> 'a list" where
  "heap_pop key xs = (let n = length xs - 1; ys = fst (heap_down key (swap 0 n xs) 0 n) in
     (ys ! n, take n ys))"

definition is_heap :: "('a \<Rightarrow> 'b::linorder) \<Rightarrow> 'a list \<Rightarrow> bool" where
  "is_heap key xs \<longleftrightarrow> (\<forall>k < length xs. 0 < k \<longrightarrow> key (xs ! parent k) \<le> key (xs ! k))"

section \<open>The elements are kept\<close>

lemma length_swap [simp]: "length (swap i j xs) = length xs"
  by (simp add: swap_def)

lemma mset_swap_go [simp]: "\<lbrakk>i < length xs; j < length xs\<rbrakk> \<Longrightarrow> mset (swap i j xs) = mset xs"
  by (simp add: swap_def mset_swap)

lemma nth_swap:
  "\<lbrakk>i < length xs; j < length xs; k < length xs\<rbrakk> \<Longrightarrow>
    swap i j xs ! k = (if k = j then xs ! i else if k = i then xs ! j else xs ! k)"
  by (simp add: swap_def nth_list_update)

lemma heap_up_mset: "j < length xs \<Longrightarrow> mset (heap_up key xs j) = mset xs"
proof (induction key xs j rule: heap_up.induct)
  case (1 key xs j)
  show ?case
  proof (cases "parent j = j \<or> \<not> key (xs ! j) < key (xs ! parent j)")
    case True
    then show ?thesis by (subst heap_up.simps) (auto simp: Let_def)
  next
    case False
    then have "parent j < j" by (cases j) (auto simp: parent_def)
    with 1 False show ?thesis
      by (subst heap_up.simps) (simp add: Let_def)
  qed
qed

lemma length_heap_up [simp]: "j < length xs \<Longrightarrow> length (heap_up key xs j) = length xs"
  by (metis heap_up_mset size_mset)

text \<open>The child that \<open>down\<close> compares with, and the two branches of its loop.\<close>

definition least_child :: "('a \<Rightarrow> 'b::linorder) \<Rightarrow> 'a list \<Rightarrow> nat \<Rightarrow> nat \<Rightarrow> nat" where
  "least_child key xs i n =
    (if 2 * i + 2 < n \<and> key (xs ! (2 * i + 2)) < key (xs ! (2 * i + 1)) then 2 * i + 2 else 2 * i + 1)"

lemma heap_down_unfold:
  "heap_down key xs i n =
    (if 2 * i + 1 \<ge> n \<or> \<not> key (xs ! least_child key xs i n) < key (xs ! i) then (xs, i)
     else heap_down key (swap i (least_child key xs i n) xs) (least_child key xs i n) n)"
  by (subst heap_down.simps) (simp add: least_child_def Let_def)

lemma least_child_bounds:
  "2 * i + 1 < n \<Longrightarrow> i < least_child key xs i n \<and> least_child key xs i n < n"
  by (simp add: least_child_def)

lemma heap_down_rule [case_names stop step, consumes 1]:
  assumes "i < n \<or> n = 0"
    and "\<And>xs i. \<lbrakk>i < n \<or> n = 0; 2 * i + 1 \<ge> n \<or> \<not> key (xs ! least_child key xs i n) < key (xs ! i)\<rbrakk> \<Longrightarrow> P xs i (xs, i)"
    and "\<And>xs i j r. \<lbrakk>j = least_child key xs i n; i < j; j < n; key (xs ! j) < key (xs ! i);
        P (swap i j xs) j r\<rbrakk> \<Longrightarrow> P xs i r"
  shows "P xs i (heap_down key xs i n)"
  using assms(1)
proof (induction "n - i" arbitrary: xs i rule: less_induct)
  case less
  let ?j = "least_child key xs i n"
  show ?case
  proof (cases "2 * i + 1 \<ge> n \<or> \<not> key (xs ! ?j) < key (xs ! i)")
    case True
    with assms(2) [OF less.prems] show ?thesis
      by (subst heap_down_unfold) auto
  next
    case False
    then have j: "i < ?j" "?j < n" using least_child_bounds [of i n key xs] by auto
    with less.hyps [of ?j "swap i ?j xs"] have "P (swap i ?j xs) ?j (heap_down key (swap i ?j xs) ?j n)"
      by simp
    with assms(3) [OF refl j] False show ?thesis
      by (subst heap_down_unfold) auto
  qed
qed

lemma heap_down_mset:
  assumes "i < n \<or> n = 0" "n \<le> length xs"
  shows "mset (fst (heap_down key xs i n)) = mset xs"
  using assms(1)
proof (rule heap_down_rule [where P = "\<lambda>xs i r. n \<le> length xs \<longrightarrow> mset (fst r) = mset xs", THEN mp])
  show "n \<le> length xs" by fact
qed auto

lemma length_heap_down [simp]:
  "\<lbrakk>i < n \<or> n = 0; n \<le> length xs\<rbrakk> \<Longrightarrow> length (fst (heap_down key xs i n)) = length xs"
  by (metis heap_down_mset size_mset)

section \<open>The heap order\<close>

text \<open>The order with a hole at \<open>j\<close>: everywhere but between \<open>j\<close> and its parent, and
  between the parent of \<open>j\<close> and its grandchildren through \<open>j\<close>.\<close>

definition heap_but_up :: "('a \<Rightarrow> 'b::linorder) \<Rightarrow> 'a list \<Rightarrow> nat \<Rightarrow> bool" where
  "heap_but_up key xs j \<longleftrightarrow>
    (\<forall>k < length xs. 0 < k \<longrightarrow> k \<noteq> j \<longrightarrow> key (xs ! parent k) \<le> key (xs ! k)) \<and>
    (\<forall>k < length xs. 0 < k \<longrightarrow> parent k = j \<longrightarrow> 0 < j \<longrightarrow> key (xs ! parent j) \<le> key (xs ! k))"

lemma heap_but_up_step:
  assumes inv: "heap_but_up key xs j" and j: "j < length xs" "0 < j"
    and less: "key (xs ! j) < key (xs ! parent j)"
  shows "heap_but_up key (swap (parent j) j xs) (parent j)"
proof -
  let ?i = "parent j" and ?ys = "swap (parent j) j xs"
  have i: "?i < j" "?i < length xs" using j parent_less [of j] by auto
  have nth: "?ys ! k = (if k = j then xs ! ?i else if k = ?i then xs ! j else xs ! k)"
    if "k < length xs" for k
    using that i j by (simp add: nth_swap)
  have up: "key (xs ! parent k) \<le> key (xs ! k)" if "k < length xs" "0 < k" "k \<noteq> j" for k
    using inv that by (simp add: heap_but_up_def)
  have over: "key (xs ! ?i) \<le> key (xs ! k)" if "k < length xs" "0 < k" "parent k = j" for k
    using inv that j by (simp add: heap_but_up_def)
  have "key (?ys ! parent k) \<le> key (?ys ! k)" if k: "k < length xs" "0 < k" "k \<noteq> ?i" for k
  proof -
    have pk: "parent k < k" "parent k < length xs" using k parent_less [of k] by auto
    consider "k = j" | "k \<noteq> j" "parent k = j" | "k \<noteq> j" "parent k = ?i" | "k \<noteq> j" "parent k \<noteq> j" "parent k \<noteq> ?i"
      by blast
    then show ?thesis
    proof cases
      case 1
      then show ?thesis using nth k pk less i by (simp add: less_imp_le)
    next
      case 2
      then show ?thesis using nth k pk over i by simp
    next
      case 3
      then have "key (xs ! ?i) \<le> key (xs ! k)" using up k by metis
      with 3 show ?thesis using nth k pk less i by auto
    next
      case 4
      then show ?thesis using nth k pk up by simp
    qed
  qed
  moreover have "key (?ys ! parent ?i) \<le> key (?ys ! k)"
    if k: "k < length xs" "0 < k" "parent k = ?i" "0 < ?i" for k
  proof -
    have pi: "parent ?i < ?i" using k parent_less by simp
    have "key (xs ! parent ?i) \<le> key (xs ! ?i)" using up [of ?i] i k by simp
    moreover have "key (xs ! ?i) \<le> key (xs ! k)" if "k \<noteq> j" using up [of k] k that by simp
    ultimately show ?thesis
      using nth [of k] nth [of "parent ?i"] k pi i parent_less [of k] by (cases "k = j") auto
  qed
  ultimately show ?thesis
    unfolding heap_but_up_def by simp
qed

lemma heap_up_is_heap:
  "\<lbrakk>heap_but_up key xs j; j < length xs\<rbrakk> \<Longrightarrow> is_heap key (heap_up key xs j)"
proof (induction key xs j rule: heap_up.induct)
  case (1 key xs j)
  show ?case
  proof (cases "parent j = j \<or> \<not> key (xs ! j) < key (xs ! parent j)")
    case True
    then have "is_heap key xs"
      using "1.prems" parent_less [of j] by (cases "j = 0") (auto simp: is_heap_def heap_but_up_def not_less)
    with True show ?thesis by (subst heap_up.simps) (simp add: Let_def)
  next
    case False
    then have "0 < j" by (cases j) (auto simp: parent_def)
    with False 1 heap_but_up_step [of key xs j] parent_less [of j] show ?thesis
      by (subst heap_up.simps) (simp add: Let_def)
  qed
qed

text \<open>The order on the first \<open>n\<close> elements with a hole below \<open>i\<close>.\<close>

definition heap_but_down :: "('a \<Rightarrow> 'b::linorder) \<Rightarrow> 'a list \<Rightarrow> nat \<Rightarrow> nat \<Rightarrow> bool" where
  "heap_but_down key xs i n \<longleftrightarrow>
    (\<forall>k < n. 0 < k \<longrightarrow> parent k \<noteq> i \<longrightarrow> key (xs ! parent k) \<le> key (xs ! k)) \<and>
    (\<forall>k < n. 0 < k \<longrightarrow> parent k = i \<longrightarrow> 0 < i \<longrightarrow> key (xs ! parent i) \<le> key (xs ! k))"

lemma parent_children: "0 < k \<Longrightarrow> parent k = i \<longleftrightarrow> k = 2 * i + 1 \<or> k = 2 * i + 2"
  by (auto simp: parent_def)

lemma heap_but_down_step:
  assumes inv: "heap_but_down key xs i n" and n: "n \<le> length xs" and j: "j < n" "parent j = i" "0 < j"
    and least: "\<And>k. \<lbrakk>k < n; 0 < k; parent k = i\<rbrakk> \<Longrightarrow> key (xs ! j) \<le> key (xs ! k)"
    and less: "key (xs ! j) < key (xs ! i)"
  shows "heap_but_down key (swap i j xs) j n"
proof -
  let ?ys = "swap i j xs"
  have i: "i < j" "i < n" using j parent_less [of j] by auto
  have nth: "?ys ! k = (if k = j then xs ! i else if k = i then xs ! j else xs ! k)"
    if "k < n" for k
    using that i j n by (simp add: nth_swap)
  have up: "key (xs ! parent k) \<le> key (xs ! k)" if "k < n" "0 < k" "parent k \<noteq> i" for k
    using inv that by (simp add: heap_but_down_def)
  have over: "key (xs ! parent i) \<le> key (xs ! k)" if "k < n" "0 < k" "parent k = i" "0 < i" for k
    using inv that by (simp add: heap_but_down_def)
  have "key (?ys ! parent k) \<le> key (?ys ! k)" if k: "k < n" "0 < k" "parent k \<noteq> j" for k
  proof -
    have pk: "parent k < k" using k parent_less by simp
    consider "k = i" | "k \<noteq> i" "k = j" | "k \<noteq> i" "k \<noteq> j" "parent k = i" | "k \<noteq> i" "k \<noteq> j" "parent k \<noteq> i"
      by blast
    then show ?thesis
    proof cases
      case 1
      then show ?thesis using nth [of k] nth [of "parent k"] k pk over [of j] i j by simp
    next
      case 2
      then show ?thesis using nth [of k] nth [of "parent k"] k pk less i j by simp
    next
      case 3
      then show ?thesis using nth [of k] nth [of "parent k"] k pk least [of k] i j by simp
    next
      case 4
      then show ?thesis using nth [of k] nth [of "parent k"] k pk up [of k] by simp
    qed
  qed
  moreover have "key (?ys ! parent j) \<le> key (?ys ! k)" if k: "k < n" "0 < k" "parent k = j" for k
  proof -
    have "j < k" using k parent_less [of k] by simp
    then show ?thesis
      using up [of k] nth [of k] nth [of i] k i j by simp
  qed
  ultimately show ?thesis
    unfolding heap_but_down_def by simp
qed

lemma least_child_least:
  "\<lbrakk>k < n; 0 < k; parent k = i\<rbrakk> \<Longrightarrow> key (xs ! least_child key xs i n) \<le> key (xs ! k)"
  by (auto simp: parent_children least_child_def)

lemma parent_least_child: "parent (least_child key xs i n) = i" "0 < least_child key xs i n"
  by (auto simp: parent_def least_child_def)

lemma heap_down_stop_is_heap:
  assumes inv: "heap_but_down key xs i n" and n: "n \<le> length xs"
    and stop: "2 * i + 1 \<ge> n \<or> \<not> key (xs ! least_child key xs i n) < key (xs ! i)"
  shows "is_heap key (take n xs)"
proof -
  have "key (xs ! parent k) \<le> key (xs ! k)" if k: "k < n" "0 < k" for k
  proof (cases "parent k = i")
    case True
    then have "2 * i + 1 < n" using k by (auto simp: parent_children)
    with stop have "key (xs ! i) \<le> key (xs ! least_child key xs i n)" by (simp add: not_less)
    with least_child_least [OF k True] True show ?thesis by (metis order_trans)
  next
    case False
    with inv k show ?thesis by (simp add: heap_but_down_def)
  qed
  moreover have "parent k < n" if "k < n" "0 < k" for k
    using that parent_less [of k] by simp
  ultimately show ?thesis
    using n by (simp add: is_heap_def)
qed

lemma heap_down_is_heap:
  assumes "heap_but_down key xs i n" "i < n \<or> n = 0" "n \<le> length xs"
  shows "is_heap key (take n (fst (heap_down key xs i n)))"
  using assms(2)
proof (rule heap_down_rule [where P = "\<lambda>xs i r. n \<le> length xs \<longrightarrow> heap_but_down key xs i n \<longrightarrow>
    is_heap key (take n (fst r))", THEN mp, THEN mp])
  fix xs i j r
  assume j: "j = least_child key xs i n" "i < j" "j < n" "key (xs ! j) < key (xs ! i)"
    and "n \<le> length (swap i j xs) \<longrightarrow> heap_but_down key (swap i j xs) j n \<longrightarrow> is_heap key (take n (fst r))"
  then show "n \<le> length xs \<longrightarrow> heap_but_down key xs i n \<longrightarrow> is_heap key (take n (fst r))"
    using heap_but_down_step [of key xs i n j] least_child_least [of _ n i key xs]
      parent_least_child [of key xs i n] by auto
qed (use assms heap_down_stop_is_heap in auto)

section \<open>Push, Pop and Fix\<close>

lemma is_heap_Nil [simp]: "is_heap key []"
  by (simp add: is_heap_def)

lemma is_heap_root:
  assumes "is_heap key xs" "k < length xs"
  shows "key (xs ! 0) \<le> key (xs ! k)"
  using assms(2)
proof (induction k rule: less_induct)
  case (less k)
  show ?case
  proof (cases "k = 0")
    case False
    with less assms(1) parent_less [of k] have "key (xs ! 0) \<le> key (xs ! parent k)" "key (xs ! parent k) \<le> key (xs ! k)"
      by (simp_all add: is_heap_def)
    then show ?thesis by (rule order_trans)
  qed simp
qed

lemma heap_push_mset [simp]: "mset (heap_push key xs x) = add_mset x (mset xs)"
  by (simp add: heap_push_def heap_up_mset)

lemma heap_push_is_heap [inv_intros]: "is_heap key xs \<Longrightarrow> is_heap key (heap_push key xs x)"
proof -
  assume heap: "is_heap key xs"
  have "parent k < length xs" if "k < Suc (length xs)" "0 < k" for k
    using that parent_less [of k] by simp
  moreover from this have "parent k \<noteq> length xs" if "k < Suc (length xs)" "0 < k" for k
    using that by (metis less_irrefl)
  ultimately have "heap_but_up key (xs @ [x]) (length xs)"
    using heap by (simp add: heap_but_up_def is_heap_def nth_append)
  then show ?thesis
    by (simp add: heap_push_def heap_up_is_heap)
qed

lemma heap_fix_root_mset: "xs \<noteq> [] \<Longrightarrow> mset (heap_fix key xs 0) = mset xs"
  using heap_down_mset [of 0 "length xs" xs key] heap_up_mset [of 0 "fst (heap_down key xs 0 (length xs))" key]
  by (auto simp: heap_fix_def split: prod.splits)

lemma heap_fix_root_is_heap:
  assumes "is_heap key xs" "xs \<noteq> []"
  shows "is_heap key (heap_fix key (xs[0 := x]) 0)"
proof -
  let ?xs = "xs[0 := x]"
  have "heap_but_down key ?xs 0 (length ?xs)"
    using assms by (auto simp: heap_but_down_def is_heap_def nth_list_update)
  then have heap: "is_heap key (fst (heap_down key ?xs 0 (length ?xs)))"
    using heap_down_is_heap [of key ?xs 0 "length ?xs"] assms(2) by simp
  moreover have "heap_up key ys 0 = ys" for ys
    by (subst heap_up.simps) (simp add: parent_def)
  ultimately show ?thesis
    by (auto simp: heap_fix_def Let_def split: prod.splits)
qed

lemma heap_down_above:
  assumes "i < n \<or> n = 0" "n \<le> m" "m < length xs"
  shows "fst (heap_down key xs i n) ! m = xs ! m"
  using assms(1)
  by (rule heap_down_rule [where P = "\<lambda>xs i r. m < length xs \<longrightarrow> fst r ! m = xs ! m", THEN mp])
    (use assms in \<open>auto simp: nth_swap\<close>)

lemma heap_pop_spec:
  assumes "is_heap key xs" "xs \<noteq> []" "heap_pop key xs = (x, ys)"
  shows "add_mset x (mset ys) = mset xs" "is_heap key ys" "\<forall>y\<in>set xs. key x \<le> key y"
proof -
  let ?n = "length xs - 1"
  let ?s = "swap 0 ?n xs"
  let ?d = "fst (heap_down key ?s 0 ?n)"
  have n: "?n < length xs" "0 < length xs" using assms(2) by simp_all
  have x: "x = ?d ! ?n" and ys: "ys = take ?n ?d"
    using assms(3) by (auto simp: heap_pop_def Let_def)
  have n0: "0 < ?n \<or> ?n = 0" "?n \<le> length ?s" by auto
  have len: "length ?d = length xs" and ms: "mset ?d = mset xs"
    using n heap_down_mset [OF n0, of key] length_heap_down [OF n0, of key] by auto
  have "?d = take ?n ?d @ [?d ! ?n]"
    using len n take_Suc_conv_app_nth [of ?n ?d] by simp
  then show "add_mset x (mset ys) = mset xs"
    by (metis x ys ms union_code mset.simps mset_append add_mset_add_single)
  have "x = xs ! 0"
    using x n heap_down_above [OF n0(1), of ?n ?s key] by (simp add: nth_swap)
  then show "\<forall>y\<in>set xs. key x \<le> key y"
    using is_heap_root [OF assms(1)] by (auto simp: in_set_conv_nth)
  have "?s ! k = xs ! k" if "0 < k" "k < ?n" for k
    using that n by (simp add: nth_swap)
  moreover have "parent k < ?n" if "k < ?n" "0 < k" for k
    using that parent_less [of k] by simp
  ultimately have "heap_but_down key ?s 0 ?n"
    using assms(1) by (simp add: heap_but_down_def is_heap_def)
  then show "is_heap key ys"
    using heap_down_is_heap [OF _ n0] ys by simp
qed

section \<open>The contract\<close>

text \<open>What a client of the package relies on: \<open>Pop\<close> on a non-empty queue removes a
  least element, and keeps the queue's own invariant.\<close>

locale min_queue =
  fixes key :: "'a \<Rightarrow> 'b::linorder"
    and inv :: "'q \<Rightarrow> bool"
    and elems :: "'q \<Rightarrow> 'a multiset"
    and pop :: "'q \<Rightarrow> 'a \<times> 'q"
  assumes pop_elems: "\<lbrakk>inv q; elems q \<noteq> {#}\<rbrakk> \<Longrightarrow> add_mset (fst (pop q)) (elems (snd (pop q))) = elems q"
    and pop_inv: "\<lbrakk>inv q; elems q \<noteq> {#}\<rbrakk> \<Longrightarrow> inv (snd (pop q))"
    and pop_least: "\<lbrakk>inv q; elems q \<noteq> {#}; x \<in># elems q\<rbrakk> \<Longrightarrow> key (fst (pop q)) \<le> key x"
begin

text \<open>Popping \<open>n\<close> times, \<open>n\<close> the size of the queue.\<close>

primrec drain_n :: "nat \<Rightarrow> 'q \<Rightarrow> 'a list" where
  "drain_n 0 q = []"
| "drain_n (Suc n) q = (let (x, q') = pop q in x # drain_n n q')"

lemma drain_n_mset: "\<lbrakk>inv q; size (elems q) = n\<rbrakk> \<Longrightarrow> mset (drain_n n q) = elems q"
proof (induction n arbitrary: q)
  case (Suc n)
  then have ne: "elems q \<noteq> {#}" by auto
  have "size (elems (snd (pop q))) = n"
    using pop_elems [OF Suc.prems(1) ne] Suc.prems(2) by (metis Suc_inject size_add_mset)
  with Suc.IH pop_inv [OF Suc.prems(1) ne] pop_elems [OF Suc.prems(1) ne] show ?case
    by (simp add: split_beta)
qed simp

lemma drain_n_sorted: "\<lbrakk>inv q; size (elems q) = n\<rbrakk> \<Longrightarrow> sorted (map key (drain_n n q))"
proof (induction n arbitrary: q)
  case (Suc n)
  then have ne: "elems q \<noteq> {#}" by auto
  let ?q = "snd (pop q)"
  have sz: "size (elems ?q) = n"
    using pop_elems [OF Suc.prems(1) ne] Suc.prems(2) by (metis Suc_inject size_add_mset)
  have inv: "inv ?q" using pop_inv [OF Suc.prems(1) ne] .
  have sub: "y \<in># elems q" if "y \<in> set (drain_n n ?q)" for y
  proof -
    have "y \<in># elems ?q" using that drain_n_mset [OF inv sz] by (metis set_mset_mset)
    then show ?thesis by (metis insert_noteq_member multi_member_split pop_elems [OF Suc.prems(1) ne] union_iff add_mset_add_single)
  qed
  show ?case
    using Suc.IH [OF inv sz] pop_least [OF Suc.prems(1) ne] sub by (auto simp: split_beta)
qed simp

end

interpretation goheap: min_queue key "is_heap key" mset "heap_pop key" for key :: "'a \<Rightarrow> 'b::linorder"
proof
  fix q :: "'a list" and x :: 'a
  assume q: "is_heap key q" "mset q \<noteq> {#}"
  then have "q \<noteq> []" by auto
  note spec = heap_pop_spec [OF q(1) this prod.collapse [symmetric]]
  show "add_mset (fst (heap_pop key q)) (mset (snd (heap_pop key q))) = mset q"
    and "is_heap key (snd (heap_pop key q))"
    by (rule spec)+
  show "key (fst (heap_pop key q)) \<le> key x" if "x \<in># mset q"
    using spec(3) that by simp
qed

end
