(* ===== verification/Go_Strings.thy ===== *)
theory Go_Strings
  imports Go_Prelude
begin

text \<open>
  The functions of Go's packages \<open>strings\<close>, \<open>strconv\<close> and \<open>fmt\<close> that the program
  calls, on byte strings (a \<^typ>\<open>char\<close> is a byte), with their laws: splitting and
  joining are inverse, trimming ends at a non-space, decimal printing and parsing
  are inverse on the \<open>int64\<close> range.
\<close>

section \<open>Package strings\<close>

text \<open>\<open>strings.HasPrefix\<close>, \<open>strings.HasSuffix\<close> and \<open>strings.Contains\<close> are
  \<^const>\<open>prefix\<close>, \<^const>\<open>suffix\<close> and \<^const>\<open>sublist\<close>.\<close>

definition trim_prefix :: "string \<Rightarrow> string \<Rightarrow> string" where
  "trim_prefix p s = (if prefix p s then drop (length p) s else s)"

definition trim_suffix :: "string \<Rightarrow> string \<Rightarrow> string" where
  "trim_suffix p s = (if suffix p s then take (length s - length p) s else s)"

text \<open>\<open>strings.Split\<close> and \<open>strings.Join\<close> with a separator of one byte.\<close>

fun split_on :: "char \<Rightarrow> string \<Rightarrow> string list" where
  "split_on c [] = [[]]"
| "split_on c (x # xs) = (if x = c then [] # split_on c xs
     else (case split_on c xs of [] \<Rightarrow> [[x]] | p # ps \<Rightarrow> (x # p) # ps))"

fun join_with :: "char \<Rightarrow> string list \<Rightarrow> string" where
  "join_with c [] = []"
| "join_with c [p] = p"
| "join_with c (p # q # ps) = p @ [c] @ join_with c (q # ps)"

text \<open>\<open>strings.IndexByte\<close> and \<open>strings.LastIndex\<close> (of one byte): the index, or \<open>-1\<close>.\<close>

fun index_byte :: "string \<Rightarrow> char \<Rightarrow> int" where
  "index_byte [] c = -1"
| "index_byte (x # xs) c = (if x = c then 0
     else (let i = index_byte xs c in if i < 0 then -1 else i + 1))"

definition last_index :: "string \<Rightarrow> char \<Rightarrow> int" where
  "last_index s c = (let i = index_byte (rev s) c in if i < 0 then -1 else int (length s) - 1 - i)"

text \<open>\<open>strings.LastIndex\<close> of a longer string.\<close>

fun last_index_from :: "nat \<Rightarrow> string \<Rightarrow> string \<Rightarrow> int" where
  "last_index_from 0 s sub = (if prefix sub s then 0 else - 1)"
| "last_index_from (Suc n) s sub =
    (if prefix sub (drop (Suc n) s) then int (Suc n) else last_index_from n s sub)"

definition last_index_str :: "string \<Rightarrow> string \<Rightarrow> int" where
  "last_index_str s sub = last_index_from (length s) s sub"

text \<open>\<open>strings.ReplaceAll\<close> of one byte by another.\<close>

definition replace_char :: "char \<Rightarrow> char \<Rightarrow> string \<Rightarrow> string" where
  "replace_char a b s = map (\<lambda>c. if c = a then b else c) s"

text \<open>\<open>strings.TrimSpace\<close>.  The code points with the property White_Space are listed
  in their UTF-8 encodings, so that the function is the one on bytes.\<close>

definition space_seqs :: "string list" where
  "space_seqs = [[CHR 0x09], [CHR 0x0A], [CHR 0x0B], [CHR 0x0C], [CHR 0x0D], [CHR 0x20],
     [CHR 0xC2, CHR 0x85], [CHR 0xC2, CHR 0xA0], [CHR 0xE1, CHR 0x9A, CHR 0x80],
     [CHR 0xE2, CHR 0x80, CHR 0x80], [CHR 0xE2, CHR 0x80, CHR 0x81], [CHR 0xE2, CHR 0x80, CHR 0x82],
     [CHR 0xE2, CHR 0x80, CHR 0x83], [CHR 0xE2, CHR 0x80, CHR 0x84], [CHR 0xE2, CHR 0x80, CHR 0x85],
     [CHR 0xE2, CHR 0x80, CHR 0x86], [CHR 0xE2, CHR 0x80, CHR 0x87], [CHR 0xE2, CHR 0x80, CHR 0x88],
     [CHR 0xE2, CHR 0x80, CHR 0x89], [CHR 0xE2, CHR 0x80, CHR 0x8A], [CHR 0xE2, CHR 0x80, CHR 0xA8],
     [CHR 0xE2, CHR 0x80, CHR 0xA9], [CHR 0xE2, CHR 0x80, CHR 0xAF], [CHR 0xE2, CHR 0x81, CHR 0x9F],
     [CHR 0xE3, CHR 0x80, CHR 0x80]]"

definition lead_space :: "string list \<Rightarrow> string \<Rightarrow> nat" where
  "lead_space seqs s = (case find (\<lambda>p. prefix p s) seqs of None \<Rightarrow> 0 | Some p \<Rightarrow> length p)"

function trim_left :: "string list \<Rightarrow> string \<Rightarrow> string" where
  "trim_left seqs s = (if lead_space seqs s = 0 then s else trim_left seqs (drop (lead_space seqs s) s))"
  by pat_completeness auto
termination
proof (relation "measure (length \<circ> snd)", simp)
  fix seqs :: "string list" and s :: string
  assume "lead_space seqs s \<noteq> 0"
  then have "0 < lead_space seqs s" "s \<noteq> []"
    by (auto simp: lead_space_def find_Some_iff prefix_def split: option.splits)
  then show "((seqs, drop (lead_space seqs s) s), seqs, s) \<in> measure (length \<circ> snd)"
    by simp
qed

declare trim_left.simps [simp del]

definition trim_space :: "string \<Rightarrow> string" where
  "trim_space s = rev (trim_left (map rev space_seqs) (rev (trim_left space_seqs s)))"

text \<open>\<open>strings.ToLower\<close> on ASCII letters.\<close>

definition lower_char :: "char \<Rightarrow> char" where
  "lower_char c = (let n = of_char c :: nat in if 65 \<le> n \<and> n \<le> 90 then char_of (n + 32) else c)"

definition to_lower :: "string \<Rightarrow> string" where
  "to_lower s = map lower_char s"

subsection \<open>Laws\<close>

lemma split_on_not_Nil [simp]: "split_on c s \<noteq> []"
  by (induction c s rule: split_on.induct) (auto split: list.splits)

lemma join_with_Cons: "ps \<noteq> [] \<Longrightarrow> join_with c (p # ps) = p @ [c] @ join_with c ps"
  by (cases ps) auto

lemma join_split [simp]: "join_with c (split_on c s) = s"
proof (induction c s rule: split_on.induct)
  case (1 c)
  then show ?case by simp
next
  case (2 c x xs)
  obtain p ps where eq: "split_on c xs = p # ps"
    using split_on_not_Nil by (metis list.exhaust)
  with 2 show ?case
    by (cases ps) (auto simp: join_with_Cons)
qed

lemma split_on_absent: "c \<notin> set s \<Longrightarrow> split_on c s = [s]"
  by (induction c s rule: split_on.induct) auto

lemma split_on_append: "c \<notin> set p \<Longrightarrow> split_on c (p @ c # s) = p # split_on c s"
  by (induction p) auto

lemma split_join: "\<lbrakk>ps \<noteq> []; \<forall>p\<in>set ps. c \<notin> set p\<rbrakk> \<Longrightarrow> split_on c (join_with c ps) = ps"
  by (induction c ps rule: join_with.induct) (auto simp: split_on_absent split_on_append)

lemma split_on_parts: "p \<in> set (split_on c s) \<Longrightarrow> c \<notin> set p"
  by (induction c s arbitrary: p rule: split_on.induct) (auto split: if_splits list.splits)

lemma index_byte_ge: "- 1 \<le> index_byte s c"
  by (induction s) (auto simp: Let_def)

lemma index_byte_neg: "index_byte s c < 0 \<longleftrightarrow> c \<notin> set s"
  by (induction s) (auto simp: Let_def)

lemma index_byte_append: "c \<notin> set p \<Longrightarrow> index_byte (p @ c # s) c = int (length p)"
  by (induction p) (auto simp: Let_def)

lemma last_index_append: "c \<notin> set s \<Longrightarrow> last_index (p @ c # s) c = int (length p)"
  using index_byte_append [of c "rev s" "rev p"] by (simp add: last_index_def Let_def)

lemma last_index_absent: "c \<notin> set s \<Longrightarrow> last_index s c = -1"
  using index_byte_neg [of "rev s" c] by (simp add: last_index_def Let_def)

lemma lead_space_trim_left: "lead_space seqs (trim_left seqs s) = 0"
proof (induction seqs s rule: trim_left.induct)
  case (1 seqs s)
  then show ?case
    by (cases "lead_space seqs s = 0") (simp_all add: trim_left.simps [of seqs s])
qed

lemma trim_left_id: "lead_space seqs s = 0 \<Longrightarrow> trim_left seqs s = s"
  by (simp add: trim_left.simps)

lemma trim_left_suffix: "suffix (trim_left seqs s) s"
proof (induction seqs s rule: trim_left.induct)
  case (1 seqs s)
  show ?case
  proof (cases "lead_space seqs s = 0")
    case True
    then show ?thesis by (simp add: trim_left_id)
  next
    case False
    then have "suffix (trim_left seqs (drop (lead_space seqs s) s)) (drop (lead_space seqs s) s)"
      by (rule 1)
    then have "suffix (trim_left seqs (drop (lead_space seqs s) s)) s"
      using suffix_drop suffix_order.trans by blast
    with False show ?thesis
      by (simp add: trim_left.simps [of seqs s])
  qed
qed

lemma last_index_from_eq:
  "\<lbrakk>i \<le> n; prefix sub (drop i s); \<And>j. \<lbrakk>i < j; j \<le> n\<rbrakk> \<Longrightarrow> \<not> prefix sub (drop j s)\<rbrakk>
    \<Longrightarrow> last_index_from n s sub = int i"
proof (induction n)
  case (Suc n)
  then show ?case by (cases "i = Suc n") auto
qed simp

lemma last_index_str_append:
  assumes "c \<notin> set cs" "c \<notin> set ds"
  shows "last_index_str (p @ c # cs @ ds) (c # cs) = int (length p)"
  unfolding last_index_str_def
proof (rule last_index_from_eq)
  fix j assume "length p < j" "j \<le> length (p @ c # cs @ ds)"
  then have "drop j (p @ c # cs @ ds) = drop (j - Suc (length p)) (cs @ ds)"
    by (simp add: drop_Cons' split: if_splits)
  moreover have "c \<notin> set (drop k (cs @ ds))" for k
    using assms in_set_dropD [of c k "cs @ ds"] by auto
  ultimately show "\<not> prefix (c # cs) (drop j (p @ c # cs @ ds))"
    by (metis list.set_intros(1) set_mono_prefix subsetD)
qed auto

lemma lead_space_0_iff: "\<forall>p\<in>set seqs. p \<noteq> [] \<Longrightarrow> lead_space seqs s = 0 \<longleftrightarrow> (\<forall>p\<in>set seqs. \<not> prefix p s)"
  by (auto simp: lead_space_def find_None_iff find_Some_iff split: option.splits dest: nth_mem)

lemma space_seqs_ne: "\<forall>p\<in>set space_seqs. p \<noteq> []" "\<forall>p\<in>set (map rev space_seqs). p \<noteq> []"
  by (simp_all add: space_seqs_def)

text \<open>Trimmed: no white space at either end.\<close>

definition trimmed :: "string \<Rightarrow> bool" where
  "trimmed s \<longleftrightarrow> lead_space space_seqs s = 0 \<and> lead_space (map rev space_seqs) (rev s) = 0"

lemma trimmed_iff: "trimmed s \<longleftrightarrow> (\<forall>p\<in>set space_seqs. \<not> prefix p s \<and> \<not> suffix p s)"
  unfolding trimmed_def lead_space_0_iff [OF space_seqs_ne(1)] lead_space_0_iff [OF space_seqs_ne(2)]
  by (auto simp: suffix_to_prefix)

lemma trim_space_id: "trimmed s \<Longrightarrow> trim_space s = s"
  by (simp add: trimmed_def trim_space_def trim_left_id)

lemma trimmed_trim_space [simp]: "trimmed (trim_space s)"
proof -
  let ?l = "trim_left space_seqs s"
  let ?r = "trim_left (map rev space_seqs) (rev ?l)"
  have "prefix (rev ?r) ?l"
    using trim_left_suffix [of "map rev space_seqs" "rev ?l"] by (simp add: suffix_to_prefix)
  moreover have "\<forall>p\<in>set space_seqs. \<not> prefix p ?l"
    using lead_space_trim_left lead_space_0_iff [OF space_seqs_ne(1)] by blast
  ultimately have "lead_space space_seqs (rev ?r) = 0"
    unfolding lead_space_0_iff [OF space_seqs_ne(1)] using prefix_order.trans by blast
  then show ?thesis
    by (simp add: trimmed_def trim_space_def lead_space_trim_left)
qed

lemma trim_space_idem [simp]: "trim_space (trim_space s) = trim_space s"
  by (simp add: trim_space_id)

lemma trim_space_subset: "set (trim_space s) \<subseteq> set s"
proof -
  have "set (trim_left seqs t) \<subseteq> set t" for seqs t
    using trim_left_suffix [of seqs t] by (rule set_mono_suffix)
  then show ?thesis
    unfolding trim_space_def by (metis set_rev subset_trans)
qed

lemma trimmed_Nil [simp]: "trimmed []"
  by (simp add: trimmed_iff space_seqs_def)

text \<open>White space has no slash, so a path with trimmed parts at its ends is trimmed.\<close>

lemma space_seqs_no_slash: "\<forall>p\<in>set space_seqs. CHR ''/'' \<notin> set p"
  by (simp add: space_seqs_def)

lemma prefix_before: "\<lbrakk>prefix p (a @ c # b); c \<notin> set p\<rbrakk> \<Longrightarrow> prefix p a"
  by (auto simp: prefix_append prefix_Cons)

lemma suffix_after: "\<lbrakk>suffix p (a @ c # b); c \<notin> set p\<rbrakk> \<Longrightarrow> suffix p b"
  using prefix_before [of "rev p" "rev b" c "rev a"] by (simp add: suffix_to_prefix)

lemma trimmed_slash:
  assumes "trimmed a" "trimmed b"
  shows "trimmed (a @ CHR ''/'' # b)"
  unfolding trimmed_iff
proof
  fix p assume p: "p \<in> set space_seqs"
  then have "CHR ''/'' \<notin> set p" using space_seqs_no_slash by (rule bspec [rotated])
  moreover have "\<not> prefix p a" "\<not> suffix p b" using assms p by (simp_all add: trimmed_iff)
  ultimately show "\<not> prefix p (a @ CHR ''/'' # b) \<and> \<not> suffix p (a @ CHR ''/'' # b)"
    using prefix_before suffix_after by metis
qed

lemma trimmed_join: "\<forall>p\<in>set ps. trimmed p \<Longrightarrow> trimmed (join_with (CHR ''/'') ps)"
  by (induction "CHR ''/''" ps rule: join_with.induct) (auto simp: trimmed_slash)

lemma join_with_set: "set (join_with c ps) \<subseteq> insert c (\<Union> (set ` set ps))"
  by (induction c ps rule: join_with.induct) auto

text \<open>A string of plain bytes between its ends is left alone.\<close>

definition plain_char :: "char \<Rightarrow> bool" where
  "plain_char c \<longleftrightarrow> (let n = of_char c :: nat in 32 < n \<and> n < 128)"

lemma space_seqs_not_plain:
  "list_all (\<lambda>p. p \<noteq> [] \<and> \<not> plain_char (hd p)) space_seqs"
  "list_all (\<lambda>p. p \<noteq> [] \<and> \<not> plain_char (hd p)) (map rev space_seqs)"
  by (simp_all add: space_seqs_def plain_char_def)

lemma lead_space_no_match:
  assumes "list_all (\<lambda>p. p \<noteq> [] \<and> \<not> plain_char (hd p)) seqs" "s = [] \<or> plain_char (hd s)"
  shows "lead_space seqs s = 0"
proof -
  have "\<not> prefix p s" if "p \<in> set seqs" for p
    using assms that by (cases p; cases s) (auto simp: list_all_iff)
  then have "find (\<lambda>p. prefix p s) seqs = None"
    by (simp add: find_None_iff)
  then show ?thesis by (simp add: lead_space_def)
qed

lemmas lead_space_plain = space_seqs_not_plain [THEN lead_space_no_match]

lemma trim_space_plain:
  assumes "s = [] \<or> plain_char (hd s) \<and> plain_char (last s)"
  shows "trim_space s = s"
proof -
  have "rev s = [] \<or> plain_char (hd (rev s))"
    using assms by (cases s rule: rev_cases) auto
  then show ?thesis
    using assms lead_space_plain [of s] lead_space_plain [of "rev s"]
    by (auto simp: trim_space_def trim_left_id)
qed

lemma trim_space_Nil [simp]: "trim_space [] = []"
  by (rule trim_space_plain) simp

section \<open>Package strconv\<close>

definition digit_char :: "nat \<Rightarrow> char" where
  "digit_char d = char_of (48 + d)"

definition is_digit :: "char \<Rightarrow> bool" where
  "is_digit c \<longleftrightarrow> (let n = of_char c :: nat in 48 \<le> n \<and> n \<le> 57)"

definition digit_val :: "char \<Rightarrow> nat" where
  "digit_val c = of_char c - 48"

fun dec_nat :: "nat \<Rightarrow> string" where
  "dec_nat n = (if n < 10 then [digit_char n] else dec_nat (n div 10) @ [digit_char (n mod 10)])"

declare dec_nat.simps [simp del]

text \<open>\<open>strconv.FormatInt(n, 10)\<close>, \<open>strconv.Itoa\<close> and \<open>fmt\<close>'s \<open>%d\<close>.\<close>

definition format_int :: "int \<Rightarrow> string" where
  "format_int n = (if n < 0 then ''-'' @ dec_nat (nat (- n)) else dec_nat (nat n))"

text \<open>\<open>fmt\<close>'s \<open>%0wd\<close>: zeros between the sign and the digits up to width \<open>w\<close>.\<close>

definition format_int_pad :: "nat \<Rightarrow> int \<Rightarrow> string" where
  "format_int_pad w n =
    (let ds = dec_nat (nat \<bar>n\<bar>); sg = (if n < 0 then ''-'' else [])
     in sg @ replicate (w - length sg - length ds) (CHR ''0'') @ ds)"

definition nat_of_digits :: "string \<Rightarrow> nat" where
  "nat_of_digits ds = foldl (\<lambda>acc c. acc * 10 + digit_val c) 0 ds"

text \<open>\<open>strconv.ParseInt(s, 10, 64)\<close>: a sign, then digits only; a value outside the
  \<open>int64\<close> range is an error.\<close>

definition parse_digits :: "string \<Rightarrow> nat option" where
  "parse_digits ds = (if ds \<noteq> [] \<and> list_all is_digit ds then Some (nat_of_digits ds) else None)"

definition parse_int :: "string \<Rightarrow> int option" where
  "parse_int s =
    (let (neg, ds) = (case s of [] \<Rightarrow> (False, [])
        | c # cs \<Rightarrow> if c = CHR ''+'' then (False, cs) else if c = CHR ''-'' then (True, cs) else (False, s))
     in case parse_digits ds of None \<Rightarrow> None
        | Some n \<Rightarrow> (let v = (if neg then - int n else int n) in if is_i64 v then Some v else None))"

subsection \<open>Laws\<close>

lemma of_char_digit: "d < 10 \<Longrightarrow> (of_char (digit_char d) :: nat) = 48 + d"
  by (simp add: digit_char_def)

lemma digit_char_codes:
  "digit_char 0 = CHR ''0''" "digit_char 1 = CHR ''1''" "digit_char (Suc 0) = CHR ''1''" "digit_char 2 = CHR ''2''"
  "digit_char 3 = CHR ''3''" "digit_char 4 = CHR ''4''" "digit_char 5 = CHR ''5''" "digit_char 6 = CHR ''6''"
  "digit_char 7 = CHR ''7''" "digit_char 8 = CHR ''8''" "digit_char 9 = CHR ''9''"
  by code_simp+

lemma is_digit_digit_char [simp]: "d < 10 \<Longrightarrow> is_digit (digit_char d)"
  by (simp add: is_digit_def of_char_digit)

lemma digit_val_digit_char [simp]: "d < 10 \<Longrightarrow> digit_val (digit_char d) = d"
  by (simp add: digit_val_def of_char_digit)

lemma nat_of_digits_snoc: "nat_of_digits (ds @ [c]) = nat_of_digits ds * 10 + digit_val c"
  by (simp add: nat_of_digits_def)

lemma dec_nat_not_Nil [simp]: "dec_nat n \<noteq> []"
  by (subst dec_nat.simps) simp

lemma dec_nat_digits: "list_all is_digit (dec_nat n)"
proof (induction n rule: dec_nat.induct)
  case (1 n)
  then show ?case
    by (subst dec_nat.simps) simp
qed

lemma nat_of_digits_dec [simp]: "nat_of_digits (dec_nat n) = n"
proof (induction n rule: dec_nat.induct)
  case (1 n)
  show ?case
  proof (cases "n < 10")
    case True
    then show ?thesis
      by (subst dec_nat.simps) (simp add: nat_of_digits_def)
  next
    case False
    with 1 show ?thesis
      by (subst dec_nat.simps) (simp add: nat_of_digits_snoc)
  qed
qed

lemma parse_digits_dec [simp]: "parse_digits (dec_nat n) = Some n"
  by (simp add: parse_digits_def dec_nat_digits)

lemma nat_of_digits_zeros: "nat_of_digits (replicate k (CHR ''0'') @ ds) = nat_of_digits ds"
  by (induction k) (simp_all add: nat_of_digits_def digit_val_def)

lemma parse_digits_zeros: "ds \<noteq> [] \<Longrightarrow>
    parse_digits (replicate k (CHR ''0'') @ ds) = parse_digits ds"
  by (auto simp: parse_digits_def nat_of_digits_zeros list_all_iff is_digit_def Let_def)

lemma parse_digits_sign: "parse_digits (c # ds) = Some n \<Longrightarrow> c \<noteq> CHR ''+'' \<and> c \<noteq> CHR ''-''"
  by (auto simp: parse_digits_def is_digit_def split: if_splits)

lemma parse_int_nonneg:
  assumes "parse_digits ds = Some n" "is_i64 (int n)"
  shows "parse_int ds = Some (int n)"
proof -
  obtain c cs where eq: "ds = c # cs"
    using assms(1) by (cases ds) (auto simp: parse_digits_def)
  with assms parse_digits_sign show ?thesis
    by (auto simp: parse_int_def Let_def)
qed

lemma parse_int_neg:
  "\<lbrakk>parse_digits ds = Some n; is_i64 (- int n)\<rbrakk> \<Longrightarrow> parse_int (CHR ''-'' # ds) = Some (- int n)"
  by (simp add: parse_int_def Let_def)

lemma parse_format_int [simp]: "is_i64 n \<Longrightarrow> parse_int (format_int n) = Some n"
  using parse_int_nonneg [OF parse_digits_dec, of "nat n"]
    parse_int_neg [OF parse_digits_dec, of "nat (- n)"]
  by (auto simp: format_int_def)

lemma parse_format_int_pad [simp]: "is_i64 n \<Longrightarrow> parse_int (format_int_pad w n) = Some n"
  using parse_int_nonneg [OF trans [OF parse_digits_zeros parse_digits_dec], of "nat n"]
    parse_int_neg [OF trans [OF parse_digits_zeros parse_digits_dec], of "nat (- n)"]
  by (auto simp: format_int_pad_def Let_def)

lemma parse_int_i64: "parse_int s = Some n \<Longrightarrow> is_i64 n"
  by (auto simp: parse_int_def Let_def split: option.splits prod.splits if_splits)

lemma digit_not:
  "is_digit c \<Longrightarrow> c \<noteq> CHR ''/'' \<and> c \<noteq> CHR ''.'' \<and> c \<noteq> CHR ''_'' \<and> c \<noteq> CHR '':''"
  by (auto simp: is_digit_def)

lemma digit_plain: "is_digit c \<Longrightarrow> plain_char c"
  by (auto simp: is_digit_def plain_char_def Let_def)

lemma format_int_pad_chars:
  "c \<in> set (format_int_pad w n) \<Longrightarrow> is_digit c \<or> c = CHR ''-''"
  using dec_nat_digits [of "nat \<bar>n\<bar>"]
  by (auto simp: format_int_pad_def Let_def list_all_iff is_digit_def split: if_splits)

lemma format_int_pad_not_Nil [simp]: "format_int_pad w n \<noteq> []"
  by (simp add: format_int_pad_def Let_def)

lemma dec_nat_hd: "length (dec_nat n) > 1 \<Longrightarrow> hd (dec_nat n) \<noteq> CHR ''0''"
proof (induction n rule: dec_nat.induct)
  case (1 n)
  then have n: "\<not> n < 10" by (subst (asm) dec_nat.simps) (simp split: if_splits)
  show ?case
  proof (cases "length (dec_nat (n div 10)) > 1")
    case True
    then show ?thesis using 1 n by (subst dec_nat.simps) simp
  next
    case False
    then have "n div 10 < 10"
      by (subst (asm) dec_nat.simps) (auto split: if_splits)
    then have "dec_nat (n div 10) = [digit_char (n div 10)]" "0 < n div 10"
      using n by (auto simp: dec_nat.simps)
    moreover have "digit_char d \<noteq> CHR ''0''" if "0 < d" "d < 10" for d
    proof
      assume "digit_char d = CHR ''0''"
      then have "(of_char (digit_char d) :: nat) = 48" by simp
      then show False using that by (simp add: of_char_digit)
    qed
    ultimately show ?thesis
      using n \<open>n div 10 < 10\<close> by (subst dec_nat.simps) simp
  qed
qed

end
