(* ===== verification/Go_Float.thy ===== *)
theory Go_Float
  imports Go_Prelude
begin

text \<open>
  A \<open>float64\<close> is a rational number.  Each operation is exact and then rounded to
  the nearest double, ties to even, as IEEE 754 prescribes (53 bits of precision,
  gradual underflow below \<open>2^-1022\<close>).  Not modelled: infinities and NaN, which no
  value of the program reaches from finite scores below \<open>2^1023\<close>, and the sign of
  zero.  Rounding is monotone, odd, and exact on integers below \<open>2^53\<close>; the
  comparisons of the program are comparisons of rationals.
\<close>

type_synonym float64 = rat

fun ilog2 :: "nat \<Rightarrow> nat" where
  "ilog2 n = (if n < 2 then 0 else Suc (ilog2 (n div 2)))"

declare ilog2.simps [simp del]

definition pow2 :: "int \<Rightarrow> rat" where
  "pow2 e = (if 0 \<le> e then 2 ^ nat e else 1 / 2 ^ nat (- e))"

text \<open>The binary exponent of a positive rational: \<open>2^e \<le> x < 2^(e+1)\<close>.\<close>

definition binexp :: "rat \<Rightarrow> int" where
  "binexp x = (let (p, q) = quotient_of x; e = int (ilog2 (nat p)) - int (ilog2 (nat q))
     in if pow2 e \<le> x then e else e - 1)"

text \<open>Round to the nearest integer, ties to even.\<close>

definition rne :: "rat \<Rightarrow> int" where
  "rne x = (let f = \<lfloor>x\<rfloor>; d = x - of_int f in
     if d < 1 / 2 then f else if d > 1 / 2 then f + 1 else if even f then f else f + 1)"

definition ulp_exp :: "rat \<Rightarrow> int" where
  "ulp_exp x = max (binexp \<bar>x\<bar>) (- 1022) - 52"

definition f64 :: "rat \<Rightarrow> float64" where
  "f64 x = (if x = 0 then 0 else (let u = pow2 (ulp_exp x) in of_int (rne (x / u)) * u))"

definition fadd :: "float64 \<Rightarrow> float64 \<Rightarrow> float64" where
  "fadd x y = f64 (x + y)"

definition fsub :: "float64 \<Rightarrow> float64 \<Rightarrow> float64" where
  "fsub x y = f64 (x - y)"

definition fmul :: "float64 \<Rightarrow> float64 \<Rightarrow> float64" where
  "fmul x y = f64 (x * y)"

definition fdiv :: "float64 \<Rightarrow> float64 \<Rightarrow> float64" where
  "fdiv x y = f64 (x / y)"

text \<open>\<open>float64(n)\<close> of an integer, and \<open>int(x)\<close>, which truncates.\<close>

definition float_of_int :: "int \<Rightarrow> float64" where
  "float_of_int n = f64 (of_int n)"

definition int_of_float :: "float64 \<Rightarrow> int" where
  "int_of_float x = (if 0 \<le> x then \<lfloor>x\<rfloor> else \<lceil>x\<rceil>)"

section \<open>The exponent\<close>

lemma ilog2_bounds: "0 < n \<Longrightarrow> 2 ^ ilog2 n \<le> n \<and> n < 2 * 2 ^ ilog2 n"
proof (induction n rule: ilog2.induct)
  case (1 n)
  show ?case
  proof (cases "n < 2")
    case True
    with 1 show ?thesis by (simp add: ilog2.simps [of n])
  next
    case False
    with 1 have "2 ^ ilog2 (n div 2) \<le> n div 2 \<and> n div 2 < 2 * 2 ^ ilog2 (n div 2)"
      by simp
    then have "2 * 2 ^ ilog2 (n div 2) \<le> n \<and> n < 2 * (2 * 2 ^ ilog2 (n div 2))"
      by linarith
    with False show ?thesis by (simp add: ilog2.simps [of n])
  qed
qed

lemma pow2_pos [simp]: "0 < pow2 e"
  by (simp add: pow2_def)

lemma pow2_nonneg [simp]: "0 \<le> pow2 e"
  using pow2_pos [of e] by linarith

lemma pow2_ne0 [simp]: "pow2 e \<noteq> 0"
  using pow2_pos [of e] by linarith

lemma pow2_powi: "pow2 e = 2 powi e"
  by (simp add: pow2_def power_int_def field_simps)

lemma pow2_add: "pow2 (a + b) = pow2 a * pow2 b"
  by (simp add: pow2_powi power_int_add)

lemma pow2_diff: "pow2 (a - b) = pow2 a / pow2 b"
  by (simp add: pow2_powi power_int_diff)

lemma pow2_1 [simp]: "pow2 1 = 2"
  by (simp add: pow2_def)

lemma pow2_mono: "a \<le> b \<Longrightarrow> pow2 a \<le> pow2 b"
  by (simp add: pow2_powi power_int_increasing)

lemma pow2_strict_mono: "a < b \<Longrightarrow> pow2 a < pow2 b"
  by (simp add: pow2_powi power_int_strict_increasing)

lemma pow2_le_cancel: "pow2 a \<le> pow2 b \<Longrightarrow> a \<le> b"
  using pow2_strict_mono [of b a] by linarith

lemma pow2_nat: "pow2 (int n) = 2 ^ n"
  by (simp add: pow2_def)

lemma pow2_less_cancel: "pow2 a < pow2 b \<Longrightarrow> a < b"
  using pow2_mono [of b a] by linarith

lemma binexp_bounds:
  assumes "0 < x"
  shows "pow2 (binexp x) \<le> x" "x < pow2 (binexp x + 1)"
proof -
  obtain p q where q: "quotient_of x = (p, q)" by fastforce
  have pos: "0 < q" "x = of_int p / of_int q"
    using q quotient_of_denom_pos quotient_of_div by auto
  then have "0 < p"
    using assms by (simp add: zero_less_divide_iff)
  define a where "a = ilog2 (nat p)"
  define b where "b = ilog2 (nat q)"
  have nb: "2 ^ a \<le> nat p \<and> nat p < 2 * 2 ^ a" "2 ^ b \<le> nat q \<and> nat q < 2 * 2 ^ b"
    using ilog2_bounds [of "nat p"] ilog2_bounds [of "nat q"] \<open>0 < p\<close> pos by (simp_all add: a_def b_def)
  then have ib: "2 ^ a \<le> p" "p < 2 * 2 ^ a" "2 ^ b \<le> q" "q < 2 * 2 ^ b"
    using \<open>0 < p\<close> pos by (simp_all add: nat_less_iff nat_le_iff le_nat_iff)
  have rb: "2 ^ a \<le> (of_int p :: rat)" "(of_int p :: rat) < 2 * 2 ^ a" "2 ^ b \<le> (of_int q :: rat)" "(of_int q :: rat) < 2 * 2 ^ b"
    using ib of_int_le_iff [where 'a = rat] of_int_less_iff [where 'a = rat]
    by (metis of_int_mult of_int_numeral of_int_power)+
  have ab: "pow2 (int a - int b) = 2 ^ a / 2 ^ b" "pow2 (int a - int b + 1) = 2 * 2 ^ a / 2 ^ b"
    "pow2 (int a - int b - 1) = 2 ^ a / (2 * 2 ^ b)"
    by (simp_all add: pow2_diff pow2_add pow2_nat)
  have up: "x < 2 * 2 ^ a / 2 ^ b"
    using rb pos frac_less [of "of_int p" "2 * 2 ^ a" "2 ^ b" "of_int q :: rat"] \<open>0 < p\<close> by simp
  have low: "2 ^ a / (2 * 2 ^ b) \<le> x"
    using rb pos frac_le [of "of_int p" "2 ^ a" "of_int q" "2 * 2 ^ b :: rat"] \<open>0 < p\<close> by simp
  have e: "binexp x = (if pow2 (int a - int b) \<le> x then int a - int b else int a - int b - 1)"
    by (simp add: binexp_def q a_def b_def)
  show "pow2 (binexp x) \<le> x" "x < pow2 (binexp x + 1)"
    using e up low ab by (auto split: if_splits)
qed

lemma binexp_mono: "\<lbrakk>0 < x; x \<le> y\<rbrakk> \<Longrightarrow> binexp x \<le> binexp y"
  using binexp_bounds [of x] binexp_bounds [of y] pow2_less_cancel [of "binexp x" "binexp y + 1"]
  by linarith

section \<open>Rounding to an integer\<close>

lemma rne_near: "\<bar>of_int (rne x) - x\<bar> \<le> 1 / 2"
proof -
  define d where "d = x - of_int \<lfloor>x\<rfloor>"
  have "0 \<le> d" "d < 1" "x = of_int \<lfloor>x\<rfloor> + d"
    using floor_correct [of x] by (simp_all add: d_def)
  then show ?thesis
    unfolding rne_def Let_def d_def [symmetric] by (simp add: abs_if)
qed

lemma rne_of_int [simp]: "rne (of_int n) = n"
  by (simp add: rne_def)

lemma rne_mono: "x \<le> y \<Longrightarrow> rne x \<le> rne y"
proof (rule ccontr)
  assume le: "x \<le> y" and "\<not> rne x \<le> rne y"
  then have gt: "rne y + 1 \<le> rne x" by simp
  then have "of_int (rne y) + 1 \<le> (of_int (rne x) :: rat)"
    using of_int_le_iff [of "rne y + 1" "rne x", where 'a = rat] by simp
  then have eq: "x = y" "of_int (rne x) = x + 1 / 2" "of_int (rne y) = y - 1 / 2"
    using rne_near [of x] rne_near [of y] le by linarith+
  then show False using gt by simp
qed

lemma floor_neg: "\<lfloor>- (x::rat)\<rfloor> = (if x = of_int \<lfloor>x\<rfloor> then - \<lfloor>x\<rfloor> else - \<lfloor>x\<rfloor> - 1)"
  using floor_correct [of x] by (auto simp: floor_eq_iff order_less_le [of "of_int \<lfloor>x\<rfloor>"])

lemma rne_minus: "rne (- x) = - rne x"
  by (auto simp: rne_def Let_def floor_neg field_simps)

section \<open>Rounding\<close>

lemma f64_0 [simp]: "f64 0 = 0"
  by (simp add: f64_def)

lemma f64_minus: "f64 (- x) = - f64 x"
  by (simp add: f64_def Let_def ulp_exp_def rne_minus)

lemma f64_pos: "0 \<le> x \<Longrightarrow> 0 \<le> f64 x"
  using rne_mono [of 0 "x / pow2 (ulp_exp x)"] rne_of_int [of 0] by (simp add: f64_def Let_def)

lemma rne_pow2:
  "\<lbrakk>0 \<le> n; x \<le> pow2 n\<rbrakk> \<Longrightarrow> of_int (rne x) \<le> pow2 n"
  "\<lbrakk>0 \<le> n; pow2 n \<le> x\<rbrakk> \<Longrightarrow> pow2 n \<le> of_int (rne x)"
proof -
  assume "0 \<le> n"
  then have eq: "pow2 n = of_int (2 ^ nat n)" by (simp add: pow2_def)
  show "x \<le> pow2 n \<Longrightarrow> of_int (rne x) \<le> pow2 n"
    using rne_mono [of x "pow2 n"] unfolding eq rne_of_int by (metis of_int_le_iff)
  show "pow2 n \<le> x \<Longrightarrow> pow2 n \<le> of_int (rne x)"
    using rne_mono [of "pow2 n" x] unfolding eq rne_of_int by (metis of_int_le_iff)
qed

lemma f64_mono_pos:
  assumes "0 < x" "x \<le> y"
  shows "f64 x \<le> f64 y"
proof (cases "ulp_exp x = ulp_exp y")
  case True
  have "x / pow2 (ulp_exp x) \<le> y / pow2 (ulp_exp x)"
    using assms by (simp add: divide_right_mono)
  from rne_mono [OF this] show ?thesis
    using True assms by (simp add: f64_def Let_def mult_right_mono)
next
  case False
  with binexp_mono [OF assms] assms have lt: "ulp_exp x < ulp_exp y" and ey: "ulp_exp y = binexp y - 52"
    by (auto simp: ulp_exp_def max_def split: if_splits)
  have "x \<le> pow2 (ulp_exp x + 53)"
    using binexp_bounds(2) [OF assms(1)] pow2_mono [of "binexp x + 1" "ulp_exp x + 53"] assms
    by (simp add: ulp_exp_def)
  then have "x / pow2 (ulp_exp x) \<le> pow2 53"
    by (simp add: pow2_add field_simps)
  from rne_pow2(1) [OF _ this] have "f64 x \<le> pow2 53 * pow2 (ulp_exp x)"
    using assms by (simp add: f64_def Let_def mult_right_mono)
  also have "\<dots> \<le> pow2 52 * pow2 (ulp_exp y)"
    using lt pow2_mono [of "53 + ulp_exp x" "52 + ulp_exp y"] by (simp add: pow2_add)
  also have "pow2 52 \<le> y / pow2 (ulp_exp y)"
    using binexp_bounds(1) [of y] assms ey pow2_add [of 52 "ulp_exp y"] by (simp add: field_simps)
  from rne_pow2(2) [OF _ this] have "pow2 52 * pow2 (ulp_exp y) \<le> f64 y"
    using assms by (simp add: f64_def Let_def mult_right_mono)
  finally show ?thesis .
qed

lemma f64_mono: "x \<le> y \<Longrightarrow> f64 x \<le> f64 y"
proof -
  assume le: "x \<le> y"
  consider "0 < x" | "x \<le> 0" "0 \<le> y" | "y < 0" by linarith
  then show ?thesis
  proof cases
    case 2
    then have "f64 x \<le> 0" "0 \<le> f64 y"
      using f64_pos [of "- x"] f64_pos [of y] by (simp_all add: f64_minus)
    then show ?thesis by simp
  next
    case 3
    with le f64_mono_pos [of "- y" "- x"] show ?thesis by (simp add: f64_minus)
  qed (use le f64_mono_pos in auto)
qed

lemma rne_exact: "x / pow2 u = of_int m \<Longrightarrow> of_int (rne (x / pow2 u)) * pow2 u = x"
  by (metis nonzero_eq_divide_eq pow2_ne0 rne_of_int)

lemma f64_int_exact:
  assumes "\<bar>n\<bar> \<le> 2 ^ 53"
  shows "f64 (of_int n) = of_int n"
proof (cases "n = 0")
  case False
  then have pos: "0 < \<bar>of_int n :: rat\<bar>" by simp
  have "pow2 (binexp \<bar>of_int n\<bar>) \<le> pow2 53"
    using binexp_bounds(1) [OF pos] assms of_int_le_iff [of "\<bar>n\<bar>" "2 ^ 53", where 'a = rat]
    by (simp add: pow2_def)
  then have le53: "binexp \<bar>of_int n :: rat\<bar> \<le> 53"
    by (rule pow2_le_cancel)
  show ?thesis
  proof (cases "binexp \<bar>of_int n :: rat\<bar> = 53")
    case True
    then have "(9007199254740992 :: rat) \<le> \<bar>of_int n\<bar>"
      using binexp_bounds(1) [OF pos] by (simp add: pow2_def)
    then have "(of_int 9007199254740992 :: rat) \<le> of_int \<bar>n\<bar>" by simp
    then have "9007199254740992 \<le> \<bar>n\<bar>" by (simp only: of_int_le_iff)
    then have n: "n = 2 ^ 53 \<or> n = - (2 ^ 53)" using assms by (auto simp: abs_if split: if_splits)
    have "of_int n / pow2 1 = of_int (n div 2)" using n by auto
    from rne_exact [OF this] show ?thesis using True False by (simp add: f64_def ulp_exp_def Let_def)
  next
    case ne: False
    let ?u = "ulp_exp (of_int n :: rat)"
    have "?u \<le> 0" using le53 ne by (simp add: ulp_exp_def)
    then have "of_int n / pow2 ?u = of_int (n * 2 ^ nat (- ?u))"
      by (cases "?u = 0") (simp_all add: pow2_def)
    from rne_exact [OF this] show ?thesis using False by (simp add: f64_def Let_def)
  qed
qed simp

lemma fadd_mono: "\<lbrakk>a \<le> b; c \<le> d\<rbrakk> \<Longrightarrow> fadd a c \<le> fadd b d"
  by (simp add: fadd_def f64_mono add_mono)

lemma fsub_mono: "\<lbrakk>a \<le> b; d \<le> c\<rbrakk> \<Longrightarrow> fsub a c \<le> fsub b d"
  by (simp add: fsub_def f64_mono diff_mono)

lemma fmul_mono_right: "\<lbrakk>a \<le> b; 0 \<le> c\<rbrakk> \<Longrightarrow> fmul a c \<le> fmul b c"
  by (simp add: fmul_def f64_mono mult_right_mono)

lemma float_of_int_mono: "a \<le> b \<Longrightarrow> float_of_int a \<le> float_of_int b"
  by (simp add: float_of_int_def f64_mono)

lemma float_of_int_exact: "\<bar>n\<bar> \<le> 2 ^ 53 \<Longrightarrow> float_of_int n = of_int n"
  by (simp add: float_of_int_def f64_int_exact)

lemma int_of_float_mono: "x \<le> y \<Longrightarrow> int_of_float x \<le> int_of_float y"
proof -
  assume "x \<le> y"
  moreover have "\<lceil>x\<rceil> \<le> \<lfloor>y\<rfloor>" if "x < 0" "0 \<le> y"
  proof -
    have "\<lceil>x\<rceil> \<le> 0" "0 \<le> \<lfloor>y\<rfloor>" using that by simp_all
    then show ?thesis by linarith
  qed
  ultimately show ?thesis
    by (auto simp: int_of_float_def floor_mono ceiling_mono)
qed

lemma int_of_float_nonneg: "0 \<le> x \<Longrightarrow> 0 \<le> int_of_float x"
  by (simp add: int_of_float_def)

end
