(* ===== verification/Models.thy ===== *)
theory Models
  imports Go_Strings Go_Float
begin

text \<open>
  The data of \<open>internal/models/models.go\<close> that the components exchange: nodes with
  their endpoints, capabilities and scores, the dispatch request and response, the
  heartbeat and the content summary.  A struct is a record (the prefix of its fields
  names the struct), \<open>time.Time\<close> is a count of nanoseconds, and \<open>NodeStatus\<close>, a string
  in Go, is a datatype with a constructor for the strings outside its constants.
  Where the code tells a nil slice from an empty one, the field is an option.
\<close>

datatype node_status =
    Registered | Active | Degraded | Quarantined | Offline | Disabled | Maintenance
  | OtherStatus string

fun status_string :: "node_status \<Rightarrow> string" where
  "status_string Registered = ''REGISTERED''"
| "status_string Active = ''ACTIVE''"
| "status_string Degraded = ''DEGRADED''"
| "status_string Quarantined = ''QUARANTINED''"
| "status_string Offline = ''OFFLINE''"
| "status_string Disabled = ''DISABLED''"
| "status_string Maintenance = ''MAINTENANCE''"
| "status_string (OtherStatus s) = s"

definition internedNodeStatuses :: "(string, node_status) gomap" where
  "internedNodeStatuses =
    [(''REGISTERED'', Registered), (''ACTIVE'', Active), (''DEGRADED'', Degraded),
     (''QUARANTINED'', Quarantined), (''OFFLINE'', Offline), (''DISABLED'', Disabled),
     (''MAINTENANCE'', Maintenance)]"

definition InternNodeStatus :: "string \<Rightarrow> node_status" where
  "InternNodeStatus s = (case gm_get internedNodeStatuses s of Some v \<Rightarrow> v | None \<Rightarrow> OtherStatus s)"

lemma status_string_Intern [simp]: "status_string (InternNodeStatus s) = s"
  by (auto simp: InternNodeStatus_def internedNodeStatuses_def)

lemma Intern_status_string:
  "(\<And>s. st \<noteq> OtherStatus s) \<Longrightarrow> InternNodeStatus (status_string st) = st"
  by (cases st) (auto simp: InternNodeStatus_def internedNodeStatuses_def)

record endpoint =
  ep_scheme :: string
  ep_host :: string
  ep_port :: int

text \<open>\<open>net.JoinHostPort\<close>: brackets around a host with a colon.\<close>

definition JoinHostPort :: "string \<Rightarrow> string \<Rightarrow> string" where
  "JoinHostPort host port =
    (if CHR '':'' \<in> set host then ''['' @ host @ '']:'' @ port else host @ '':'' @ port)"

definition endpoint_URL :: "endpoint \<Rightarrow> string" where
  "endpoint_URL e =
    (let s = (if ep_port e > 0 then JoinHostPort (ep_host e) (format_int (ep_port e)) else ep_host e)
     in if ep_scheme e \<noteq> [] then ep_scheme e @ ''://'' @ s else s)"

record capabilities =
  cap_inbound_reachable :: bool
  cap_cache_disk_gb :: int
  cap_max_uplink_mbps :: int
  cap_supports_https :: bool
  cap_nat_type :: string
  cap_tunnel_required :: bool
  cap_supports_p2p :: bool
  cap_current_egress_mbps :: float64
  cap_current_ingress_mbps :: float64
  cap_shield_mode :: bool

record node_scores =
  sc_reachable :: float64
  sc_health :: float64
  sc_risk :: float64

record node =
  n_last_seen_at :: int
  n_created_at :: int
  n_updated_at :: int
  n_endpoints :: "endpoint list"
  n_capabilities :: capabilities
  n_scores :: node_scores
  n_labels :: "(string, string) gomap"
  n_disable_reason :: string
  n_maintain_until :: "int option"
  n_node_id :: string
  n_tenant_id :: string
  n_project_id :: string
  n_name :: string
  n_region :: string
  n_isp :: string
  n_asn :: string
  n_status :: node_status
  n_weight :: int

record content_summary =
  cs_node_id :: string
  cs_hot_keys :: "string list option"
  cs_bloom_filter :: "8 word list option"
  cs_bloom_k :: "32 word"
  cs_total_keys :: int
  cs_updated_at :: int

record node_runtime =
  rt_cpu :: float64
  rt_mem_mb :: int
  rt_disk_free_gb :: int
  rt_conn :: int

record node_traffic =
  tr_egress_mbps :: float64
  tr_ingress_mbps :: float64
  tr_err_5xx_rate :: float64

record heartbeat_request =
  hb_node_id :: string
  hb_ts :: int
  hb_runtime :: node_runtime
  hb_traffic :: node_traffic
  hb_hit_ratio :: float64
  hb_content_summary :: "content_summary option"

record register_request =
  rr_node_name :: string
  rr_endpoints :: "endpoint list"
  rr_region :: string
  rr_isp :: string
  rr_tenant_id :: string
  rr_project_id :: string
  rr_capabilities :: capabilities

record client_info =
  ci_ip :: string
  ci_region :: string
  ci_isp :: string

record resource_info =
  res_type :: string
  res_key :: string
  res_scheme :: string

record dispatch_request =
  dq_client :: client_info
  dq_resource :: resource_info
  dq_need_range :: bool

record dispatch_token =
  dt_type :: string
  dt_value :: string
  dt_exp :: int

record candidate_meta =
  cm_region :: string
  cm_isp :: string
  cm_proxy_mode :: string
  cm_gateway_url :: string

record candidate =
  cd_id :: string
  cd_endpoint :: string
  cd_weight :: int
  cd_meta :: candidate_meta

record dispatch_response =
  dr_request_id :: string
  dr_ttl_ms :: int
  dr_token :: dispatch_token
  dr_candidates :: "candidate list option"

end
