(* ===== verification/Scored_Heap.thy ===== *)
theory Scored_Heap
  imports Go_Heap Models
begin

text \<open>
  The bounded heap of \<open>internal/controlplane/scheduler.go\<close> (\<open>scoredHeap\<close>): it keeps the best
  \<open>max\<close> of the nodes pushed, and \<open>sorted\<close> pops them from the lowest score up.
\<close>

record scored_node =
  sn_node :: node
  sn_score :: float64
  sn_endpoint :: string

record scored_heap =
  sh_nodes :: "scored_node list"
  sh_max :: int

definition scored_push :: "scored_node \<Rightarrow> scored_heap \<Rightarrow> scored_heap" where
  "scored_push sn h =
    (if sh_max h > 0 \<and> int (length (sh_nodes h)) < sh_max h then h\<lparr>sh_nodes := heap_push sn_score (sh_nodes h) sn\<rparr>
     else if sh_max h > 0 \<and> sn_score sn > sn_score (sh_nodes h ! 0)
       then h\<lparr>sh_nodes := heap_fix sn_score ((sh_nodes h)[0 := sn]) 0\<rparr>
     else h)"

lemma length_heap_pop: "xs \<noteq> [] \<Longrightarrow> length (snd (heap_pop key xs)) = length xs - 1"
proof -
  have "0 < length xs - 1 \<or> length xs - 1 = 0" by arith
  from length_heap_down [OF this, of "swap 0 (length xs - 1) xs" key] show ?thesis
    by (simp add: heap_pop_def Let_def)
qed

function scored_drain :: "scored_node list \<Rightarrow> scored_node list" where
  "scored_drain xs = (if xs = [] then [] else (let (x, ys) = heap_pop sn_score xs in x # scored_drain ys))"
  by pat_completeness auto
termination
proof (relation "measure length")
  fix xs p x ys
  assume "xs \<noteq> []" "p = heap_pop sn_score xs" "(x, ys) = p"
  then show "(ys, xs) \<in> measure length"
    using length_heap_pop [of xs sn_score] by (cases xs) (auto simp: eq_snd_iff dest: sym)
qed simp

declare scored_drain.simps [simp del]

definition scored_sorted :: "scored_heap \<Rightarrow> scored_node list" where
  "scored_sorted h = scored_drain (sh_nodes h)"

section \<open>Draining\<close>

lemma scored_drain_n: "scored_drain xs = goheap.drain_n TYPE(rat) sn_score (length xs) xs"
proof (induction xs rule: scored_drain.induct)
  case (1 xs)
  show ?case
  proof (cases "xs = []")
    case False
    obtain x ys where p: "heap_pop sn_score xs = (x, ys)" by fastforce
    have "length xs = Suc (length ys)"
      using length_heap_pop [OF False, of sn_score] p False by (cases xs) auto
    then show ?thesis
      using 1(1) [OF False refl p [symmetric]] False p by (subst scored_drain.simps) simp
  qed (simp add: scored_drain.simps)
qed

lemma scored_drain_mset: "is_heap sn_score xs \<Longrightarrow> mset (scored_drain xs) = mset xs"
  by (simp add: scored_drain_n goheap.drain_n_mset)

lemma scored_drain_sorted: "is_heap sn_score xs \<Longrightarrow> sorted (map sn_score (scored_drain xs))"
  by (simp add: scored_drain_n goheap.drain_n_sorted)

section \<open>The best of the nodes pushed\<close>

text \<open>The pushed nodes are the kept ones and the dropped ones \<open>D\<close>, none of which scores higher
  than a kept one.\<close>

definition best_of :: "scored_heap \<Rightarrow> scored_node list \<Rightarrow> bool" where
  "best_of h xs \<longleftrightarrow> is_heap sn_score (sh_nodes h) \<and>
    length (sh_nodes h) = min (nat (sh_max h)) (length xs) \<and>
    (\<exists>D. mset xs = mset (sh_nodes h) + D \<and> (\<forall>x \<in> set (sh_nodes h). \<forall>y \<in># D. sn_score y \<le> sn_score x))"

lemma best_of_empty: "best_of \<lparr>sh_nodes = [], sh_max = m\<rparr> []"
  by (simp add: best_of_def)

lemma best_of_room:
  assumes best: "best_of h xs" and room: "int (length (sh_nodes h)) < sh_max h"
  shows "best_of (h\<lparr>sh_nodes := heap_push sn_score (sh_nodes h) sn\<rparr>) (xs @ [sn])"
proof -
  have len: "length (sh_nodes h) = length xs" using assms by (auto simp: best_of_def)
  obtain D where D: "mset xs = mset (sh_nodes h) + D" using best by (auto simp: best_of_def)
  then have "size D = 0" using len by (metis add_cancel_left_right size_mset size_union)
  then have "mset xs = mset (sh_nodes h)" using D by simp
  moreover have "length (heap_push sn_score (sh_nodes h) sn) = Suc (length (sh_nodes h))"
    by (metis heap_push_mset size_add_mset size_mset)
  ultimately show ?thesis
    using best room len by (auto simp: best_of_def heap_push_is_heap intro: exI [of _ "{#}"])
qed

lemma best_of_root: "\<lbrakk>best_of h xs; x \<in> set (sh_nodes h)\<rbrakk> \<Longrightarrow> sn_score (sh_nodes h ! 0) \<le> sn_score x"
  using is_heap_root [of sn_score "sh_nodes h"] by (auto simp: best_of_def in_set_conv_nth simp del: min_less_iff_conj)

lemma best_of_full:
  assumes best: "best_of h xs" and full: "\<not> int (length (sh_nodes h)) < sh_max h"
    and root: "sh_max h > 0 \<Longrightarrow> sn_score sn \<le> sn_score (sh_nodes h ! 0)"
  shows "best_of h (xs @ [sn])"
proof -
  obtain D where D: "mset xs = mset (sh_nodes h) + D" "\<forall>x \<in> set (sh_nodes h). \<forall>y \<in># D. sn_score y \<le> sn_score x"
    using best by (auto simp: best_of_def)
  have "sn_score sn \<le> sn_score x" if x: "x \<in> set (sh_nodes h)" for x
  proof -
    have "0 < length (sh_nodes h)" using x by (cases "sh_nodes h") auto
    moreover have "length (sh_nodes h) \<le> nat (sh_max h)" using best by (simp add: best_of_def)
    ultimately have "sh_max h > 0" by linarith
    then show ?thesis using root best_of_root [OF best x] by linarith
  qed
  then show ?thesis
    using best full D by (auto simp: best_of_def intro!: exI [of _ "add_mset sn D"])
qed

lemma best_of_replace:
  assumes best: "best_of h xs" and full: "\<not> int (length (sh_nodes h)) < sh_max h" "sh_max h > 0"
    and better: "sn_score sn > sn_score (sh_nodes h ! 0)"
  shows "best_of (h\<lparr>sh_nodes := heap_fix sn_score ((sh_nodes h)[0 := sn]) 0\<rparr>) (xs @ [sn])"
proof -
  let ?r = "sh_nodes h ! 0" and ?new = "heap_fix sn_score ((sh_nodes h)[0 := sn]) 0"
  have ne: "sh_nodes h \<noteq> []" using full by auto
  obtain rest where ns: "sh_nodes h = ?r # rest" using ne by (cases "sh_nodes h") auto
  obtain D where D: "mset xs = mset (sh_nodes h) + D" "\<forall>x \<in> set (sh_nodes h). \<forall>y \<in># D. sn_score y \<le> sn_score x"
    using best by (auto simp: best_of_def)
  have upd: "(sh_nodes h)[0 := sn] = sn # rest" by (subst ns) simp
  have new: "mset ?new = add_mset sn (mset rest)" unfolding upd by (simp add: heap_fix_root_mset)
  then have kept: "set ?new = insert sn (set rest)" by (metis set_mset_add_mset_insert set_mset_mset)
  have "sn_score ?r \<le> sn_score x" if "x \<in> set ?new" for x
    using that kept better best_of_root [OF best, of x] ns by (metis insert_iff less_imp_le list.set_intros(2))
  moreover have "sn_score y \<le> sn_score ?r" if "y \<in># add_mset ?r D" for y
    using that D(2) ne by auto
  ultimately have "\<forall>x \<in> set ?new. \<forall>y \<in># add_mset ?r D. sn_score y \<le> sn_score x"
    using order_trans by blast
  moreover have "mset (xs @ [sn]) = mset ?new + add_mset ?r D"
    using D(1) new ns by (metis add_mset_add_single mset.simps(2) mset_append mset.simps(1) union_assoc union_commute union_mset_add_mset_left union_mset_add_mset_right)
  moreover have "is_heap sn_score ?new"
    by (rule heap_fix_root_is_heap [OF _ ne]) (use best in \<open>simp add: best_of_def\<close>)
  moreover have "length ?new = length (sh_nodes h)"
    using new ns by (metis size_add_mset size_mset length_Cons)
  ultimately show ?thesis
    using best full by (auto simp: best_of_def)
qed

lemma best_of_push: "best_of h xs \<Longrightarrow> best_of (scored_push sn h) (xs @ [sn])"
  by (simp add: scored_push_def best_of_room best_of_replace) (intro impI, rule best_of_full, auto simp: not_less)

lemma best_of_fold: "best_of h xs \<Longrightarrow> best_of (fold scored_push ys h) (xs @ ys)"
proof (induction ys arbitrary: h xs)
  case (Cons y ys)
  then show ?case using Cons.IH [OF best_of_push [OF Cons.prems, of y]] by simp
qed simp

lemma scored_push_max [simp]: "sh_max (fold scored_push ys h) = sh_max h"
  by (induction ys arbitrary: h) (auto simp: scored_push_def)

lemma top_k_spec:
  fixes ns :: "scored_node list" and k :: int
  defines "best \<equiv> rev (scored_sorted (fold scored_push ns \<lparr>sh_nodes = [], sh_max = k\<rparr>))"
  shows "sorted (rev (map sn_score best)) \<and> length best = min (nat k) (length ns) \<and>
    (\<exists>rest. mset ns = mset best + rest \<and> (\<forall>x y. x \<in># mset best \<and> y \<in># rest \<longrightarrow> sn_score y \<le> sn_score x))"
proof -
  let ?h = "fold scored_push ns \<lparr>sh_nodes = [], sh_max = k\<rparr>"
  have b: "best_of ?h ns" using best_of_fold [OF best_of_empty, of ns k] by simp
  then have heap: "is_heap sn_score (sh_nodes ?h)" by (simp add: best_of_def)
  then have ms: "mset best = mset (sh_nodes ?h)"
    by (simp add: best_def scored_sorted_def scored_drain_mset)
  then have set: "set best = set (sh_nodes ?h)" by (metis set_mset_mset)
  have len: "length best = length (sh_nodes ?h)" using ms by (metis size_mset)
  have "sorted (rev (map sn_score best))"
    using scored_drain_sorted [OF heap] by (simp add: best_def scored_sorted_def rev_map)
  moreover have "length best = min (nat k) (length ns)"
    using b len by (simp add: best_of_def)
  moreover have "\<exists>rest. mset ns = mset best + rest \<and> (\<forall>x y. x \<in># mset best \<and> y \<in># rest \<longrightarrow> sn_score y \<le> sn_score x)"
    using b unfolding best_of_def ms [symmetric] set [symmetric] by auto
  ultimately show ?thesis by blast
qed

text \<open>The nodes that the bounded heap hands to the dispatcher, in reverse order of \<open>sorted\<close>, are
  in descending order of score, they are \<open>max\<close> of the nodes pushed (or all of them, or none when
  \<open>max\<close> is not positive), and no node left out scores higher than one of them.\<close>

theorem scored_heap_top_k:
  "let best = rev (scored_sorted (fold scored_push ns \<lparr>sh_nodes = [], sh_max = k\<rparr>)) in
    sorted (rev (map sn_score best)) \<and> length best = min (nat k) (length ns) \<and>
    (\<exists>rest. mset ns = mset best + rest \<and> (\<forall>x y. x \<in># mset best \<and> y \<in># rest \<longrightarrow> sn_score y \<le> sn_score x))"
  unfolding Let_def by (rule top_k_spec)

definition bare_node :: node where
  "bare_node = \<lparr>n_last_seen_at = 0, n_created_at = 0, n_updated_at = 0, n_endpoints = [],
     n_capabilities = \<lparr>cap_inbound_reachable = True, cap_cache_disk_gb = 0, cap_max_uplink_mbps = 0,
       cap_supports_https = False, cap_nat_type = [], cap_tunnel_required = False, cap_supports_p2p = False,
       cap_current_egress_mbps = 0, cap_current_ingress_mbps = 0, cap_shield_mode = False\<rparr>,
     n_scores = \<lparr>sc_reachable = 0, sc_health = 0, sc_risk = 0\<rparr>, n_labels = [], n_disable_reason = [],
     n_maintain_until = None, n_node_id = [], n_tenant_id = [], n_project_id = [], n_name = [], n_region = [],
     n_isp = [], n_asn = [], n_status = Active, n_weight = 0\<rparr>"

theorem scored_heap_top_k_witness:
  "let sn = (\<lambda>s. \<lparr>sn_node = bare_node, sn_score = s, sn_endpoint = []\<rparr>);
       best = rev (scored_sorted (fold scored_push [sn 1, sn 5, sn 3] \<lparr>sh_nodes = [], sh_max = 2\<rparr>))
   in length best = 2 \<and> sorted (rev (map sn_score best)) \<and> sn 1 \<notin> set best"
proof -
  let ?sn = "\<lambda>s. \<lparr>sn_node = bare_node, sn_score = s, sn_endpoint = []\<rparr>"
  let ?ns = "[?sn 1, ?sn 5, ?sn 3]"
  define best where "best = rev (scored_sorted (fold scored_push ?ns \<lparr>sh_nodes = [], sh_max = 2\<rparr>))"
  note t = scored_heap_top_k [of ?ns 2, unfolded Let_def best_def [symmetric]]
  then have len: "length best = 2" by simp
  obtain rest where rest: "mset ?ns = mset best + rest"
    "\<And>x y. x \<in># mset best \<Longrightarrow> y \<in># rest \<Longrightarrow> sn_score y \<le> sn_score x" using t by blast
  have "?sn 1 \<notin> set best"
  proof
    assume in1: "?sn 1 \<in> set best"
    then have le: "sn_score y \<le> 1" if "y \<in># rest" for y using rest(2) [of "?sn 1" y] that by simp
    have "size rest = 1"
      using arg_cong [OF rest(1), of size] len by simp
    then obtain y where y: "rest = {#y#}" by (metis size_1_singleton_mset)
    then have "y \<in># mset ?ns" using rest(1) by (metis multi_member_last union_iff)
    then have "y = ?sn 1" using le [of y] y by auto
    then have "count (mset ?ns) (?sn 1) \<ge> 2"
      using rest(1) y in1 by (metis add_mset_add_single count_add_mset count_greater_eq_one_iff set_mset_mset Suc_le_mono numeral_2_eq_2 One_nat_def)
    then show False by simp
  qed
  then show ?thesis
    using t len unfolding Let_def best_def [symmetric] by blast
qed

end
