(* ===== verification/Node_Store.thy ===== *)
theory Node_Store
  imports Models
begin

text \<open>
  The \<open>nodes\<close> and \<open>probe_results\<close> tables of \<open>internal/store/pg.go\<close> with the 30 second node
  cache in front of them.  A table with a primary key is a map; a row of \<open>nodes\<close> is the node
  and its token.  Times are nanoseconds; \<open>db\<close> says whether a statement reaches the database,
  and \<open>now\<close> is the clock.  The read replica, when one is configured, is another copy of the
  tables that may lag.
\<close>

section \<open>Tables\<close>

type_synonym node_table = "(string, node \<times> string) gomap"

record probe_result =
  pr_node_id :: string
  pr_endpoint :: endpoint
  pr_success :: bool
  pr_rtt_ms :: float64
  pr_error :: string
  pr_probed_at :: int

record probe_score =
  ps_node_id :: string
  ps_success_1m :: float64
  ps_success_5m :: float64
  ps_rtt_p50 :: float64
  ps_rtt_p95 :: float64
  ps_last_ok_at :: int

datatype pg_error = PgFail | PgNoRows

record pg_store =
  pg_nodes :: node_table
  pg_replica :: "(node_table \<times> probe_result list) option"
  pg_probes :: "probe_result list"
  pg_nodeCache :: "(string, node \<times> int) gomap"

definition cacheTTL :: int where
  "cacheTTL = 30000000000"

definition read_nodes :: "pg_store \<Rightarrow> node_table" where
  "read_nodes s = (case pg_replica s of Some (t, _) \<Rightarrow> t | None \<Rightarrow> pg_nodes s)"

definition read_probes :: "pg_store \<Rightarrow> probe_result list" where
  "read_probes s = (case pg_replica s of Some (_, p) \<Rightarrow> p | None \<Rightarrow> pg_probes s)"

definition InvalidateNodeCache :: "string \<Rightarrow> pg_store \<Rightarrow> pg_store" where
  "InvalidateNodeCache nodeID s = s\<lparr>pg_nodeCache := gm_del nodeID (pg_nodeCache s)\<rparr>"

text \<open>\<open>UPDATE nodes SET ... WHERE node_id = $1\<close>.\<close>

definition update_row :: "(node \<Rightarrow> node) \<Rightarrow> string \<Rightarrow> pg_store \<Rightarrow> pg_store" where
  "update_row f nodeID s =
    (case gm_get (pg_nodes s) nodeID of None \<Rightarrow> s
     | Some (n, tok) \<Rightarrow> s\<lparr>pg_nodes := gm_set nodeID (f n, tok) (pg_nodes s)\<rparr>)"

text \<open>The same, and the cached node dropped when the statement went through.\<close>

definition update_node :: "bool \<Rightarrow> (node \<Rightarrow> node) \<Rightarrow> string \<Rightarrow> pg_store \<Rightarrow> pg_store \<times> pg_error option" where
  "update_node db f nodeID s =
    (if db then (InvalidateNodeCache nodeID (update_row f nodeID s), None) else (s, Some PgFail))"

section \<open>Operations\<close>

definition zero_scores :: node_scores where
  "zero_scores = \<lparr>sc_reachable = 0, sc_health = 0, sc_risk = 0\<rparr>"

text \<open>\<open>CreateNode\<close>: the identifier is a prefix of a fresh UUID; the insert fails when the key is
  taken.  What is returned lacks the time of the last contact.\<close>

definition node_of_request :: "string \<Rightarrow> register_request \<Rightarrow> int \<Rightarrow> node" where
  "node_of_request nodeID req now =
    \<lparr>n_last_seen_at = now, n_created_at = now, n_updated_at = now, n_endpoints = rr_endpoints req,
     n_capabilities = rr_capabilities req, n_scores = zero_scores, n_labels = [], n_disable_reason = [],
     n_maintain_until = None, n_node_id = nodeID, n_tenant_id = rr_tenant_id req,
     n_project_id = rr_project_id req, n_name = rr_node_name req, n_region = rr_region req,
     n_isp = rr_isp req, n_asn = [], n_status = Registered, n_weight = 100\<rparr>"

definition CreateNode :: "bool \<Rightarrow> int \<Rightarrow> string \<Rightarrow> register_request \<Rightarrow> string \<Rightarrow> pg_store \<Rightarrow> pg_store \<times> (pg_error + node)" where
  "CreateNode db now uuid req tok s =
    (let nodeID = ''n_'' @ take 12 uuid in
     if \<not> db \<or> gm_get (pg_nodes s) nodeID \<noteq> None then (s, Inl PgFail)
     else (s\<lparr>pg_nodes := gm_set nodeID (node_of_request nodeID req now, tok) (pg_nodes s)\<rparr>,
           Inr ((node_of_request nodeID req now)\<lparr>n_last_seen_at := 0\<rparr>)))"

definition GetNode :: "bool \<Rightarrow> int \<Rightarrow> string \<Rightarrow> pg_store \<Rightarrow> pg_store \<times> (pg_error + node)" where
  "GetNode db now nodeID s =
    (case gm_get (pg_nodeCache s) nodeID of
       Some (n, expiresAt) \<Rightarrow>
         if now < expiresAt then (s, Inr n)
         else
           (let s' = InvalidateNodeCache nodeID s in
            if \<not> db then (s', Inl PgFail)
            else case gm_get (read_nodes s') nodeID of None \<Rightarrow> (s', Inl PgNoRows)
             | Some (row, _) \<Rightarrow> (s'\<lparr>pg_nodeCache := gm_set nodeID (row, now + cacheTTL) (pg_nodeCache s')\<rparr>, Inr row))
     | None \<Rightarrow>
         if \<not> db then (s, Inl PgFail)
         else case gm_get (read_nodes s) nodeID of None \<Rightarrow> (s, Inl PgNoRows)
          | Some (row, _) \<Rightarrow> (s\<lparr>pg_nodeCache := gm_set nodeID (row, now + cacheTTL) (pg_nodeCache s)\<rparr>, Inr row))"

definition GetNodeToken :: "bool \<Rightarrow> string \<Rightarrow> pg_store \<Rightarrow> pg_error + string" where
  "GetNodeToken db nodeID s =
    (if \<not> db then Inl PgFail
     else case gm_get (read_nodes s) nodeID of None \<Rightarrow> Inl PgNoRows | Some (_, tok) \<Rightarrow> Inr tok)"

definition active_status :: "node_status \<Rightarrow> bool" where
  "active_status st \<longleftrightarrow> st = Active \<or> st = Degraded"

text \<open>The columns that \<open>ListActiveNodes\<close> does not read stay at their zero values.\<close>

definition active_columns :: "node \<Rightarrow> node" where
  "active_columns n = n\<lparr>n_last_seen_at := 0, n_created_at := 0, n_updated_at := 0, n_labels := [],
     n_disable_reason := [], n_maintain_until := None, n_asn := []\<rparr>"

definition active_rows :: "node_table \<Rightarrow> node list" where
  "active_rows t = map (\<lambda>(_, n, _). active_columns n) (filter (\<lambda>(_, n, _). active_status (n_status n)) t)"

definition ListActiveNodes :: "bool \<Rightarrow> pg_store \<Rightarrow> pg_error + node list" where
  "ListActiveNodes db s = (if db then Inr (active_rows (read_nodes s)) else Inl PgFail)"

definition UpdateNodeStatus :: "bool \<Rightarrow> int \<Rightarrow> string \<Rightarrow> node_status \<Rightarrow> pg_store \<Rightarrow> pg_store \<times> pg_error option" where
  "UpdateNodeStatus db now nodeID st s =
    (if db \<and> gm_get (pg_nodes s) nodeID = None then (s, Some PgNoRows)
     else update_node db (\<lambda>n. n\<lparr>n_status := st, n_updated_at := now\<rparr>) nodeID s)"

definition CountByStatus :: "bool \<Rightarrow> string \<Rightarrow> pg_store \<Rightarrow> pg_error + int" where
  "CountByStatus db st s =
    (if db then Inr (int (length (filter (\<lambda>(_, n, _). status_string (n_status n) = st) (read_nodes s)))) else Inl PgFail)"

definition UpdateNodeScores :: "bool \<Rightarrow> int \<Rightarrow> string \<Rightarrow> node_scores \<Rightarrow> pg_store \<Rightarrow> pg_store \<times> pg_error option" where
  "UpdateNodeScores db now nodeID scores s =
    update_node db (\<lambda>n. n\<lparr>n_scores := scores, n_updated_at := now\<rparr>) nodeID s"

definition UpdateNodeLastSeen :: "bool \<Rightarrow> int \<Rightarrow> string \<Rightarrow> pg_store \<Rightarrow> pg_store \<times> pg_error option" where
  "UpdateNodeLastSeen db now nodeID s =
    update_node db (\<lambda>n. n\<lparr>n_last_seen_at := now, n_updated_at := now\<rparr>) nodeID s"

text \<open>A batch runs in one implicit transaction: when its statement \<open>i\<close> fails nothing of it is
  kept, and the nodes before it have left the cache.\<close>

definition BatchUpdateNodeStatus :: "nat option \<Rightarrow> int \<Rightarrow> (string \<times> node_status) list \<Rightarrow> pg_store \<Rightarrow> pg_store \<times> pg_error option" where
  "BatchUpdateNodeStatus fails now updates s =
    (case fails of
       None \<Rightarrow> (fold (\<lambda>(i, st) s. InvalidateNodeCache i (update_row (\<lambda>n. n\<lparr>n_status := st, n_updated_at := now\<rparr>) i s)) updates s, None)
     | Some k \<Rightarrow> if k < length updates then (fold (\<lambda>(i, _) s. InvalidateNodeCache i s) (take k updates) s, Some PgFail) else (s, None))"

definition RevokeNode :: "bool \<Rightarrow> string \<Rightarrow> pg_store \<Rightarrow> pg_store \<times> pg_error option" where
  "RevokeNode db nodeID s =
    (if \<not> db then (s, Some PgFail)
     else if gm_get (pg_nodes s) nodeID = None then (s, Some PgNoRows)
     else (InvalidateNodeCache nodeID (s\<lparr>pg_nodes := gm_del nodeID (pg_nodes s)\<rparr>), None))"

definition NodeDisable :: "bool \<Rightarrow> int \<Rightarrow> string \<Rightarrow> string \<Rightarrow> int option \<Rightarrow> pg_store \<Rightarrow> pg_store \<times> pg_error option" where
  "NodeDisable db now nodeID reason until s =
    (case until of
       None \<Rightarrow> update_node db (\<lambda>n. n\<lparr>n_status := Disabled, n_disable_reason := reason, n_updated_at := now\<rparr>) nodeID s
     | Some u \<Rightarrow> update_node db (\<lambda>n. n\<lparr>n_status := Disabled, n_disable_reason := reason,
         n_maintain_until := Some u, n_updated_at := now\<rparr>) nodeID s)"

definition NodeEnable :: "bool \<Rightarrow> int \<Rightarrow> string \<Rightarrow> pg_store \<Rightarrow> pg_store \<times> pg_error option" where
  "NodeEnable db now nodeID s =
    update_node db (\<lambda>n. n\<lparr>n_status := Active, n_disable_reason := [], n_maintain_until := None, n_updated_at := now\<rparr>) nodeID s"

definition ListNodeIDsByTenant :: "bool \<Rightarrow> string \<Rightarrow> pg_store \<Rightarrow> pg_error + string list" where
  "ListNodeIDsByTenant db tenantID s =
    (if db then Inr (map fst (filter (\<lambda>(_, n, _). n_tenant_id n = tenantID) (read_nodes s))) else Inl PgFail)"

text \<open>\<open>ListNodes\<close>: the empty string switches a filter off; the page is taken from the rows in
  descending order of creation, and the total counts them all.\<close>

definition node_matches :: "string \<Rightarrow> string \<Rightarrow> string \<Rightarrow> string \<Rightarrow> string \<Rightarrow> node \<Rightarrow> bool" where
  "node_matches tenantID st region isp projectID n \<longleftrightarrow>
    (tenantID = [] \<or> n_tenant_id n = tenantID) \<and> (projectID = [] \<or> n_project_id n = projectID) \<and>
    (st = [] \<or> status_string (n_status n) = st) \<and> (region = [] \<or> n_region n = region) \<and> (isp = [] \<or> n_isp n = isp)"

definition ListNodes :: "bool \<Rightarrow> string \<Rightarrow> string \<Rightarrow> string \<Rightarrow> string \<Rightarrow> string \<Rightarrow> nat \<Rightarrow> nat \<Rightarrow> pg_store \<Rightarrow> pg_error + (node list \<times> int)" where
  "ListNodes db tenantID st region isp projectID limit offset s =
    (if \<not> db then Inl PgFail
     else
       (let ns = filter (node_matches tenantID st region isp projectID) (map (fst \<circ> snd) (read_nodes s)) in
        Inr (take limit (drop offset (sort_key (\<lambda>n. - n_created_at n) ns)), int (length ns))))"

definition GetDashboardCounts :: "string \<Rightarrow> pg_store \<Rightarrow> int \<times> int \<times> int" where
  "GetDashboardCounts tenantID s =
    (let ns = filter (\<lambda>n. n_tenant_id n = tenantID) (map (fst \<circ> snd) (read_nodes s)) in
     (int (length (filter (\<lambda>n. active_status (n_status n)) ns)),
      int (length (filter (\<lambda>n. n_status n = Offline) ns)),
      int (length ns)))"

section \<open>Probes\<close>

definition SaveProbeResult :: "bool \<Rightarrow> probe_result \<Rightarrow> pg_store \<Rightarrow> pg_store \<times> pg_error option" where
  "SaveProbeResult db pr s = (if db then (s\<lparr>pg_probes := pg_probes s @ [pr]\<rparr>, None) else (s, Some PgFail))"

definition BatchSaveProbeResults :: "bool \<Rightarrow> probe_result list \<Rightarrow> pg_store \<Rightarrow> pg_store \<times> pg_error option" where
  "BatchSaveProbeResults db prs s =
    (if prs = [] then (s, None)
     else if db then (s\<lparr>pg_probes := pg_probes s @ prs\<rparr>, None) else (s, Some PgFail))"

definition minute :: int where
  "minute = 60000000000"

text \<open>\<open>PERCENTILE_CONT(p)\<close>: the value at position \<open>p (n - 1)\<close> of the sorted column, interpolated;
  over no rows it is NULL, which becomes 0.\<close>

definition percentile_cont :: "float64 \<Rightarrow> float64 list \<Rightarrow> float64" where
  "percentile_cont p xs =
    (if xs = [] then 0
     else
       (let ys = sort xs; pos = fmul p (float_of_int (int (length ys) - 1)); lo = nat \<lfloor>pos\<rfloor>; hi = nat \<lceil>pos\<rceil> in
        if lo = hi then ys ! lo
        else fadd (ys ! lo) (fmul (fsub pos (of_nat lo)) (fsub (ys ! hi) (ys ! lo)))))"

definition rate :: "nat \<Rightarrow> nat \<Rightarrow> float64" where
  "rate k n = (if n = 0 then 0 else fdiv (of_nat k) (of_nat n))"

definition GetProbeScores :: "bool \<Rightarrow> int \<Rightarrow> string \<Rightarrow> pg_store \<Rightarrow> pg_error + probe_score" where
  "GetProbeScores db now nodeID s =
    (if \<not> db then Inl PgFail
     else
       (let rows = filter (\<lambda>r. pr_node_id r = nodeID \<and> pr_probed_at r > now - 5 * minute) (read_probes s);
            last = filter (\<lambda>r. pr_probed_at r > now - minute) rows;
            good = filter pr_success rows
        in Inr \<lparr>ps_node_id = nodeID,
             ps_success_1m = rate (length (filter pr_success last)) (length last),
             ps_success_5m = rate (length good) (length rows),
             ps_rtt_p50 = percentile_cont (f64 (1/2)) (map pr_rtt_ms good),
             ps_rtt_p95 = percentile_cont (f64 (95/100)) (map pr_rtt_ms good),
             ps_last_ok_at = (case map pr_probed_at good of [] \<Rightarrow> 0 | t # ts \<Rightarrow> fold max ts t)\<rparr>))"

definition CleanupOldProbeResults :: "bool \<Rightarrow> int \<Rightarrow> int \<Rightarrow> pg_store \<Rightarrow> pg_store \<times> (pg_error + int)" where
  "CleanupOldProbeResults db now olderThanSecs s =
    (if db then
       (let keep = filter (\<lambda>r. \<not> pr_probed_at r < now - olderThanSecs * 1000000000) (pg_probes s) in
        (s\<lparr>pg_probes := keep\<rparr>, Inr (int (length (pg_probes s)) - int (length keep))))
     else (s, Inl PgFail))"

section \<open>The node cache is coherent\<close>

text \<open>Without a read replica every cached node is the row of the table: all the statements that
  change a row drop the node from the cache.\<close>

definition pg_inv :: "pg_store \<Rightarrow> bool" where
  "pg_inv s \<longleftrightarrow> gm_wf (pg_nodes s) \<and> pg_replica s = None \<and>
    (\<forall>i. gm_get (pg_nodes s) i = None \<or> map_option (n_node_id \<circ> fst) (gm_get (pg_nodes s) i) = Some i) \<and>
    (\<forall>i. gm_get (pg_nodeCache s) i = None \<or>
       map_option fst (gm_get (pg_nodeCache s) i) = map_option fst (gm_get (pg_nodes s) i))"

inductive pg_step :: "pg_store \<Rightarrow> pg_store \<Rightarrow> bool" where
  create: "pg_step s (fst (CreateNode db now uuid req tok s))"
| getNode: "pg_step s (fst (GetNode db now i s))"
| status: "pg_step s (fst (UpdateNodeStatus db now i st s))"
| batch: "pg_step s (fst (BatchUpdateNodeStatus fails now us s))"
| scores: "pg_step s (fst (UpdateNodeScores db now i sc s))"
| lastSeen: "pg_step s (fst (UpdateNodeLastSeen db now i s))"
| revoke: "pg_step s (fst (RevokeNode db i s))"
| disable: "pg_step s (fst (NodeDisable db now i reason until s))"
| enable: "pg_step s (fst (NodeEnable db now i s))"
| probe: "pg_step s (fst (SaveProbeResult db pr s))"
| probes: "pg_step s (fst (BatchSaveProbeResults db prs s))"
| cleanup: "pg_step s (fst (CleanupOldProbeResults db now secs s))"

definition pg_empty :: pg_store where
  "pg_empty = \<lparr>pg_nodes = [], pg_replica = None, pg_probes = [], pg_nodeCache = []\<rparr>"

lemma pg_inv_empty [inv_intros]: "pg_inv pg_empty"
  by (simp add: pg_inv_def pg_empty_def)

lemma pg_inv_node: "\<lbrakk>pg_inv s; gm_get (pg_nodes s) i = Some (n, tok)\<rbrakk> \<Longrightarrow> n_node_id n = i"
  unfolding pg_inv_def by (drule conjunct2, drule conjunct2, drule conjunct1, drule spec [of _ i]) simp

lemma pg_inv_cached:
  assumes "pg_inv s" "gm_get (pg_nodeCache s) i = Some (n, e)"
  shows "\<exists>tok. gm_get (pg_nodes s) i = Some (n, tok)"
proof -
  have "map_option fst (gm_get (pg_nodes s) i) = Some n"
    using assms unfolding pg_inv_def by (metis fst_conv option.distinct(1) option.map(2))
  then show ?thesis by auto
qed

lemma pg_inv_invalidate [inv_intros]: "pg_inv s \<Longrightarrow> pg_inv (InvalidateNodeCache i s)"
  by (simp add: pg_inv_def InvalidateNodeCache_def)

lemma pg_inv_probes [inv_intros]: "pg_inv s \<Longrightarrow> pg_inv (s\<lparr>pg_probes := ps\<rparr>)"
  by (simp add: pg_inv_def)

lemma pg_inv_update:
  assumes "pg_inv s" "\<And>n. n_node_id (f n) = n_node_id n"
  shows "pg_inv (InvalidateNodeCache i (update_row f i s))"
proof (cases "gm_get (pg_nodes s) i")
  case None
  then show ?thesis using assms(1) by (simp add: update_row_def pg_inv_invalidate)
next
  case (Some r)
  obtain n tok where r: "r = (n, tok)" by (cases r)
  then have "n_node_id n = i" using pg_inv_node [OF assms(1)] Some by simp
  then show ?thesis
    using assms Some r by (simp add: update_row_def pg_inv_def InvalidateNodeCache_def)
qed

lemma pg_inv_update_node [inv_intros]:
  "\<lbrakk>pg_inv s; \<And>n. n_node_id (f n) = n_node_id n\<rbrakk> \<Longrightarrow> pg_inv (fst (update_node db f i s))"
  by (simp add: update_node_def pg_inv_update)

lemma pg_inv_insert:
  assumes "pg_inv s" "gm_get (pg_nodes s) (n_node_id n) = None"
  shows "pg_inv (s\<lparr>pg_nodes := gm_set (n_node_id n) (n, tok) (pg_nodes s)\<rparr>)"
proof -
  have "gm_get (pg_nodeCache s) (n_node_id n) = None"
    using pg_inv_cached [OF assms(1), of "n_node_id n"] assms(2)
    by (cases "gm_get (pg_nodeCache s) (n_node_id n)") auto
  then show ?thesis using assms by (simp add: pg_inv_def)
qed

lemma pg_inv_create [inv_intros]:
  assumes "pg_inv s" shows "pg_inv (fst (CreateNode db now uuid req tok s))"
proof -
  have "n_node_id (node_of_request i req now) = i" for i by (simp add: node_of_request_def)
  then show ?thesis
    using assms pg_inv_insert [OF assms, of "node_of_request (''n_'' @ take 12 uuid) req now" tok]
    by (cases "gm_get (pg_nodes s) (''n_'' @ take 12 uuid)") (simp_all add: CreateNode_def Let_def)
qed

lemma pg_inv_caching:
  "\<lbrakk>pg_inv s; gm_get (pg_nodes s) i = Some (n, tok)\<rbrakk> \<Longrightarrow> pg_inv (s\<lparr>pg_nodeCache := gm_set i (n, e) (pg_nodeCache s)\<rparr>)"
  by (simp add: pg_inv_def)

lemma pg_inv_read: "pg_inv s \<Longrightarrow> read_nodes s = pg_nodes s"
  by (simp add: pg_inv_def read_nodes_def)

lemma pg_inv_query:
  "pg_inv s \<Longrightarrow> pg_inv (fst (if \<not> db then (s, Inl PgFail)
     else case gm_get (read_nodes s) i of None \<Rightarrow> (s, Inl PgNoRows)
       | Some (row, _) \<Rightarrow> (s\<lparr>pg_nodeCache := gm_set i (row, e) (pg_nodeCache s)\<rparr>, Inr row)))"
  by (auto simp: pg_inv_read pg_inv_caching split: option.splits)

lemma pg_inv_getNode [inv_intros]: "pg_inv s \<Longrightarrow> pg_inv (fst (GetNode db now i s))"
  by (cases "gm_get (pg_nodeCache s) i") (auto simp: GetNode_def Let_def pg_inv_query pg_inv_invalidate)

lemma pg_inv_revoke [inv_intros]: "pg_inv s \<Longrightarrow> pg_inv (fst (RevokeNode db i s))"
  by (simp add: RevokeNode_def pg_inv_def InvalidateNodeCache_def)

lemma pg_inv_batch [inv_intros]: "pg_inv s \<Longrightarrow> pg_inv (fst (BatchUpdateNodeStatus fails now us s))"
proof -
  assume "pg_inv s"
  moreover have "pg_inv (fold (\<lambda>(i, st) s. InvalidateNodeCache i (update_row (\<lambda>n. n\<lparr>n_status := st, n_updated_at := now\<rparr>) i s)) us s)"
    if "pg_inv s" for us s
    using that by (induction us arbitrary: s) (auto simp: pg_inv_update)
  moreover have "pg_inv (fold (\<lambda>(i, _) s. InvalidateNodeCache i s) us s)" if "pg_inv s" for us :: "(string \<times> node_status) list" and s
    using that by (induction us arbitrary: s) (auto simp: pg_inv_invalidate)
  ultimately show ?thesis by (auto simp: BatchUpdateNodeStatus_def split: option.splits)
qed

lemmas update_ops = UpdateNodeStatus_def UpdateNodeScores_def UpdateNodeLastSeen_def NodeDisable_def NodeEnable_def

lemma pg_inv_updates [inv_intros]:
  assumes "pg_inv s"
  shows "pg_inv (fst (UpdateNodeStatus db now i st s))" "pg_inv (fst (UpdateNodeScores db now i sc s))"
    "pg_inv (fst (UpdateNodeLastSeen db now i s))" "pg_inv (fst (NodeDisable db now i reason until s))"
    "pg_inv (fst (NodeEnable db now i s))"
  using assms by (simp_all add: update_ops pg_inv_update_node split: option.splits)

lemma pg_inv_probe_ops [inv_intros]:
  assumes "pg_inv s"
  shows "pg_inv (fst (SaveProbeResult db pr s))" "pg_inv (fst (BatchSaveProbeResults db prs s))"
    "pg_inv (fst (CleanupOldProbeResults db now secs s))"
  using assms by (simp_all add: SaveProbeResult_def BatchSaveProbeResults_def CleanupOldProbeResults_def Let_def pg_inv_probes)

lemma pg_step_inv: "\<lbrakk>pg_step s s'; pg_inv s\<rbrakk> \<Longrightarrow> pg_inv s'"
  by (induction rule: pg_step.induct) (assumption | rule inv_intros)+

lemma pg_steps_inv: "pg_step\<^sup>*\<^sup>* s s' \<Longrightarrow> pg_inv s \<Longrightarrow> pg_inv s'"
  by (induction rule: rtranclp_induct) (auto intro: pg_step_inv)

lemma GetNode_result:
  assumes "pg_inv s"
  shows "snd (GetNode True now i s) = (case gm_get (pg_nodes s) i of None \<Rightarrow> Inl PgNoRows | Some (n, _) \<Rightarrow> Inr n)"
proof (cases "gm_get (pg_nodeCache s) i")
  case None
  then show ?thesis using assms by (simp add: GetNode_def pg_inv_read split: option.splits)
next
  case (Some e)
  then obtain tok where "gm_get (pg_nodes s) i = Some (fst e, tok)"
    using pg_inv_cached [OF assms, of i "fst e" "snd e"] by auto
  then show ?thesis
    using assms Some by (cases e) (simp add: GetNode_def Let_def InvalidateNodeCache_def read_nodes_def pg_inv_def)
qed

lemma GetNode_nodes [simp]: "pg_nodes (fst (GetNode db now i s)) = pg_nodes s"
  by (auto simp: GetNode_def Let_def InvalidateNodeCache_def split: option.splits)


definition sample_request :: register_request where
  "sample_request = \<lparr>rr_node_name = ''edge'', rr_endpoints = [], rr_region = ''eu'', rr_isp = [],
     rr_tenant_id = ''t'', rr_project_id = [],
     rr_capabilities = \<lparr>cap_inbound_reachable = True, cap_cache_disk_gb = 1, cap_max_uplink_mbps = 100,
       cap_supports_https = True, cap_nat_type = [], cap_tunnel_required = False, cap_supports_p2p = False,
       cap_current_egress_mbps = 0, cap_current_ingress_mbps = 0, cap_shield_mode = False\<rparr>\<rparr>"


end
