(* ===== verification/Node_Cache.thy ===== *)
theory Node_Cache
  imports Node_Store
begin

text \<open>
  \<open>internal/controlplane/nodecache.go\<close>: the list of active nodes, kept for a configured time.
  A call reads the clock before the flight, again after winning it, and when it stores the
  fresh list; \<open>listing\<close> is what the database answers if it is asked.
\<close>

record node_cache =
  nc_nodes :: "node list option"
  nc_cachedAt :: int
  nc_ttl :: int

definition NewNodeCache :: "int \<Rightarrow> node_cache" where
  "NewNodeCache ttl = \<lparr>nc_nodes = None, nc_cachedAt = 0, nc_ttl = ttl\<rparr>"

text \<open>\<open>Time.Sub\<close> saturates at the ends of a \<open>Duration\<close>.\<close>

definition time_sub :: "int \<Rightarrow> int \<Rightarrow> int" where
  "time_sub t u = max (- 9223372036854775808) (min 9223372036854775807 (t - u))"

definition fresh :: "int \<Rightarrow> node_cache \<Rightarrow> node list option" where
  "fresh now c = (case nc_nodes c of None \<Rightarrow> None
     | Some ns \<Rightarrow> if time_sub now (nc_cachedAt c) < nc_ttl c then Some ns else None)"

definition GetActiveNodes :: "int \<Rightarrow> int \<Rightarrow> int \<Rightarrow> pg_error + node list \<Rightarrow> node_cache \<Rightarrow> node_cache \<times> (pg_error + node list)" where
  "GetActiveNodes t0 t1 t2 listing c =
    (case fresh t0 c of Some ns \<Rightarrow> (c, Inr ns)
     | None \<Rightarrow>
        (case fresh t1 c of Some ns \<Rightarrow> (c, Inr ns)
         | None \<Rightarrow>
            (case listing of Inl e \<Rightarrow> (c, Inl e)
             | Inr ns \<Rightarrow> (c\<lparr>nc_nodes := Some ns, nc_cachedAt := t2\<rparr>, Inr ns))))"

definition Invalidate :: "node_cache \<Rightarrow> node_cache" where
  "Invalidate c = c\<lparr>nc_nodes := None, nc_cachedAt := 0\<rparr>"

definition GetNodes :: "int \<Rightarrow> int \<Rightarrow> int \<Rightarrow> pg_error + node list \<Rightarrow> node_cache \<Rightarrow> node_cache \<times> (pg_error + node list)" where
  "GetNodes t0 t1 t2 listing c =
    (case GetActiveNodes t0 t1 t2 listing c of (c', Inl e) \<Rightarrow> (c', Inl e) | (c', Inr ns) \<Rightarrow> (c', Inr ns))"

section \<open>What is returned is recent\<close>

text \<open>The cache together with the listings stored since it was last invalidated.\<close>

inductive node_cache_step :: "node_cache \<times> (int \<times> node list) list \<Rightarrow> node_cache \<times> (int \<times> node list) list \<Rightarrow> bool" where
  get_cached: "\<lbrakk>fresh t0 c \<noteq> None \<or> fresh t1 c \<noteq> None \<or> (\<exists>e. listing = Inl e)\<rbrakk> \<Longrightarrow>
    node_cache_step (c, h) (fst (GetActiveNodes t0 t1 t2 listing c), h)"
| get_listed: "\<lbrakk>fresh t0 c = None; fresh t1 c = None; listing = Inr ns\<rbrakk> \<Longrightarrow>
    node_cache_step (c, h) (fst (GetActiveNodes t0 t1 t2 listing c), (t2, ns) # h)"
| invalidate: "node_cache_step (c, h) (Invalidate c, [])"

definition cached_listing :: "node_cache \<Rightarrow> (int \<times> node list) list \<Rightarrow> bool" where
  "cached_listing c h \<longleftrightarrow> (case nc_nodes c of None \<Rightarrow> True | Some ns \<Rightarrow> h \<noteq> [] \<and> hd h = (nc_cachedAt c, ns))"

lemma GetActiveNodes_cached:
  "fresh t0 c \<noteq> None \<or> fresh t1 c \<noteq> None \<or> (\<exists>e. listing = Inl e) \<Longrightarrow> fst (GetActiveNodes t0 t1 t2 listing c) = c"
  by (auto simp: GetActiveNodes_def split: option.splits sum.splits)

lemma GetActiveNodes_listed:
  "\<lbrakk>fresh t0 c = None; fresh t1 c = None\<rbrakk> \<Longrightarrow>
    fst (GetActiveNodes t0 t1 t2 (Inr ns) c) = c\<lparr>nc_nodes := Some ns, nc_cachedAt := t2\<rparr>"
  by (simp add: GetActiveNodes_def)

lemma node_cache_step_inv:
  "node_cache_step s s' \<Longrightarrow> cached_listing (fst s) (snd s) \<and> nc_ttl (fst s) = ttl \<Longrightarrow>
    cached_listing (fst s') (snd s') \<and> nc_ttl (fst s') = ttl"
  by (induction rule: node_cache_step.induct)
    (simp_all add: GetActiveNodes_cached GetActiveNodes_listed cached_listing_def Invalidate_def)

lemma node_cache_run_inv:
  "node_cache_step\<^sup>*\<^sup>* s s' \<Longrightarrow> cached_listing (fst s) (snd s) \<and> nc_ttl (fst s) = ttl \<Longrightarrow>
    cached_listing (fst s') (snd s') \<and> nc_ttl (fst s') = ttl"
  by (induction rule: rtranclp_induct) (auto dest: node_cache_step_inv)

lemma fresh_listing:
  assumes "cached_listing c h" "fresh t c = Some ns"
  shows "\<exists>t'. (t', ns) \<in> set h \<and> time_sub t t' < nc_ttl c"
  using assms by (cases h) (auto simp: fresh_def cached_listing_def split: option.splits if_splits)

text \<open>After any history of calls, \<open>GetActiveNodes\<close> answers either with what the database says
  now or with a listing that was stored less than the configured time ago and after the last
  \<open>Invalidate\<close>; and it fails only when the database does.\<close>

theorem GetActiveNodes_recent:
  assumes "node_cache_step\<^sup>*\<^sup>* (NewNodeCache ttl, []) (c, h)"
  shows "(case snd (GetActiveNodes t0 t1 t2 listing c) of
      Inl e \<Rightarrow> listing = Inl e
    | Inr ns \<Rightarrow> listing = Inr ns \<or> (\<exists>t t'. t \<in> {t0, t1} \<and> (t', ns) \<in> set h \<and> time_sub t t' < ttl))"
proof -
  have inv: "cached_listing c h" "nc_ttl c = ttl"
    using node_cache_run_inv [OF assms, of ttl] by (auto simp: NewNodeCache_def cached_listing_def)
  note fl = fresh_listing [OF inv(1), unfolded inv(2)]
  show ?thesis
  proof (cases "fresh t0 c")
    case (Some ns)
    then show ?thesis using fl [OF Some] by (auto simp: GetActiveNodes_def)
  next
    case t0: None
    show ?thesis
    proof (cases "fresh t1 c")
      case (Some ns)
      then show ?thesis using t0 fl [OF Some] by (auto simp: GetActiveNodes_def)
    qed (use t0 in \<open>auto simp: GetActiveNodes_def split: sum.splits\<close>)
  qed
qed

theorem GetActiveNodes_recent_witness:
  "\<exists>c h. node_cache_step\<^sup>*\<^sup>* (NewNodeCache 100, []) (c, h) \<and> snd (GetActiveNodes 150 150 150 (Inl PgFail) c) = Inr [] \<and>
    (\<exists>t t'. t \<in> {150, 150} \<and> (t', []) \<in> set h \<and> time_sub t t' < 100)"
proof -
  let ?c = "fst (GetActiveNodes 60 60 70 (Inr []) (NewNodeCache 100))"
  have r: "node_cache_step\<^sup>*\<^sup>* (NewNodeCache 100, []) (?c, [(70, [])])"
    by (rule r_into_rtranclp) (auto intro: node_cache_step.get_listed simp: NewNodeCache_def fresh_def)
  have g: "snd (GetActiveNodes 150 150 150 (Inl PgFail) ?c) = Inr []"
    by (simp add: GetActiveNodes_def NewNodeCache_def fresh_def time_sub_def)
  show ?thesis
    using r g GetActiveNodes_recent [OF r, where ?t0.0 = 150 and ?t1.0 = 150 and ?t2.0 = 150 and listing = "Inl PgFail"] by (intro exI conjI) auto
qed

end
