(* ===== verification/Go_Binary.thy ===== *)
theory Go_Binary
  imports Go_Prelude
begin

text \<open>
  Go's \<open>encoding/binary\<close> on byte slices, for both byte orders, through the digits of
  a number in base 256, with the round trips in both directions; and the hash
  \<open>fnv.New128a\<close> of \<open>hash/fnv\<close>.
\<close>

type_synonym byte = "8 word"

definition bytes_of :: "string \<Rightarrow> byte list" where
  "bytes_of s = map of_char s"

definition string_of :: "byte list \<Rightarrow> string" where
  "string_of bs = map (\<lambda>b. char_of (unat b)) bs"

fun le_digits :: "nat \<Rightarrow> nat \<Rightarrow> byte list" where
  "le_digits 0 x = []"
| "le_digits (Suc n) x = of_nat (x mod 256) # le_digits n (x div 256)"

fun le_value :: "byte list \<Rightarrow> nat" where
  "le_value [] = 0"
| "le_value (b # bs) = unat b + 256 * le_value bs"

text \<open>\<open>LittleEndian.PutUint64\<close> and \<open>LittleEndian.Uint64\<close>, \<open>BigEndian.PutUint32\<close>,
  \<open>BigEndian.Uint32\<close>, \<open>BigEndian.PutUint16\<close>, \<open>BigEndian.Uint16\<close>.\<close>

definition put_le64 :: "64 word \<Rightarrow> byte list" where
  "put_le64 w = le_digits 8 (unat w)"

definition le64 :: "byte list \<Rightarrow> 64 word" where
  "le64 bs = of_nat (le_value bs)"

definition put_be32 :: "32 word \<Rightarrow> byte list" where
  "put_be32 w = rev (le_digits 4 (unat w))"

definition be32 :: "byte list \<Rightarrow> 32 word" where
  "be32 bs = of_nat (le_value (rev bs))"

definition put_be16 :: "16 word \<Rightarrow> byte list" where
  "put_be16 w = rev (le_digits 2 (unat w))"

definition be16 :: "byte list \<Rightarrow> 16 word" where
  "be16 bs = of_nat (le_value (rev bs))"

section \<open>Round trips\<close>

lemma unat_of_nat_byte [simp]: "unat (of_nat (x mod 256) :: byte) = x mod 256"
  by (simp add: unat_of_nat)

lemma length_le_digits [simp]: "length (le_digits n x) = n"
  by (induction n x rule: le_digits.induct) auto

lemma le_value_digits: "le_value (le_digits n x) = x mod 256 ^ n"
proof (induction n x rule: le_digits.induct)
  case (2 n x)
  then show ?case
    by (simp add: mod_mult2_eq)
qed simp

lemma byte_bound: "unat (b :: byte) < 256"
  using unsigned_less [of b, where 'a = nat] by simp

lemma le_digits_value: "le_digits (length bs) (le_value bs) = bs"
proof (induction bs)
  case (Cons b bs)
  have "(unat b + 256 * le_value bs) mod 256 = unat b" "(unat b + 256 * le_value bs) div 256 = le_value bs"
    using byte_bound [of b] by simp_all
  with Cons show ?case by simp
qed simp

lemma le_value_bound: "le_value bs < 256 ^ length bs"
  using le_value_digits [of "length bs" "le_value bs"] le_digits_value [of bs]
  by (metis mod_less_divisor zero_less_numeral zero_less_power)

lemma length_put [simp]: "length (put_le64 w) = 8" "length (put_be32 v) = 4" "length (put_be16 u) = 2"
  by (simp_all add: put_le64_def put_be32_def put_be16_def)

lemma le64_put [simp]: "le64 (put_le64 w) = w"
  using unsigned_less [of w, where 'a = nat] by (simp add: le64_def put_le64_def le_value_digits)

lemma be32_put [simp]: "be32 (put_be32 w) = w"
  using unsigned_less [of w, where 'a = nat] by (simp add: be32_def put_be32_def le_value_digits)

lemma be16_put [simp]: "be16 (put_be16 w) = w"
  using unsigned_less [of w, where 'a = nat] by (simp add: be16_def put_be16_def le_value_digits)

lemma put_le64_le64: "length bs = 8 \<Longrightarrow> put_le64 (le64 bs) = bs"
  using le_value_bound [of bs] le_digits_value [of bs]
  by (simp add: put_le64_def le64_def unat_of_nat)

lemma put_be32_be32: "length bs = 4 \<Longrightarrow> put_be32 (be32 bs) = bs"
  using le_value_bound [of "rev bs"] le_digits_value [of "rev bs"]
  by (simp add: put_be32_def be32_def unat_of_nat)

lemma put_be16_be16: "length bs = 2 \<Longrightarrow> put_be16 (be16 bs) = bs"
  using le_value_bound [of "rev bs"] le_digits_value [of "rev bs"]
  by (simp add: put_be16_def be16_def unat_of_nat)

lemma unat_of_char_byte [simp]: "unat (of_char c :: byte) = of_char c"
  using unat_of_nat [where 'a = 8, of "of_char c"] by (simp add: of_nat_of_char)

lemma string_bytes [simp]: "string_of (bytes_of s) = s"
  by (simp add: string_of_def bytes_of_def comp_def)

lemma bytes_string [simp]: "bytes_of (string_of bs) = bs"
proof -
  have "of_char (char_of (unat b)) = b" for b :: byte
  proof -
    have "of_char (char_of (unat b)) = (of_nat (of_char (char_of (unat b))) :: byte)"
      by (simp only: of_nat_of_char)
    also have "\<dots> = b"
      using byte_bound [of b] by simp
    finally show ?thesis .
  qed
  then show ?thesis
    by (simp add: string_of_def bytes_of_def comp_def)
qed

lemma bytes_of_inject [simp]: "bytes_of s = bytes_of t \<longleftrightarrow> s = t"
  by (metis string_bytes)

section \<open>FNV-1a, 128 bits\<close>

unbundle bit_operations_syntax

definition fnv_offset128 :: "128 word" where
  "fnv_offset128 = 144066263297769815596495629667062367629"

definition fnv_prime128 :: "128 word" where
  "fnv_prime128 = 309485009821345068724781371"

definition fnv128a :: "byte list \<Rightarrow> 128 word" where
  "fnv128a bs = foldl (\<lambda>h b. (h XOR ucast b) * fnv_prime128) fnv_offset128 bs"

text \<open>\<open>Sum(nil)\<close>: the sixteen bytes of the hash, most significant first.\<close>

definition fnv128a_sum :: "byte list \<Rightarrow> byte list" where
  "fnv128a_sum bs = rev (le_digits 16 (unat (fnv128a bs)))"

end
