(* ===== verification/Bloom.thy ===== *)
theory Bloom
  imports Go_Binary
begin

text \<open>
  The Bloom filter of \<open>internal/contentindex/bloom.go\<close> (lines 10 to 119) on 64-bit
  words, with 32-bit parameters and 64-bit hash positions as in the code.  An
  operation that would panic (remainder by a zero \<open>m\<close>, word index out of range) is
  \<^const>\<open>None\<close>.  A well-formed filter never panics, membership is exactly the presence
  of all the element's positions, an added element is always found again, and
  serialisation is a round trip.

  \<open>optimalM\<close> and \<open>optimalK\<close> (logarithms of floats) are the two number arguments of
  \<open>NewBloomFilter\<close> here.
\<close>

unbundle bit_operations_syntax

record bloom_filter =
  bf_bits :: "64 word list"
  bf_k :: "32 word"
  bf_m :: "32 word"

definition NewBloomFilter :: "32 word \<Rightarrow> 32 word \<Rightarrow> bloom_filter" where
  "NewBloomFilter m0 k =
    (let words = (m0 + 63) div 64; words = (if words = 0 then 1 else words); m = words * 64
     in \<lparr>bf_bits = replicate (unat words) 0, bf_k = k, bf_m = m\<rparr>)"

definition word_at :: "byte list \<Rightarrow> nat \<Rightarrow> 64 word" where
  "word_at data i =
    (let start = i * 8; end' = min (start + 8) (length data); chunk = take (end' - start) (drop start data)
     in le64 (chunk @ replicate (8 - length chunk) 0))"

definition NewBloomFilterFromBytes :: "byte list \<Rightarrow> 32 word \<Rightarrow> bloom_filter" where
  "NewBloomFilterFromBytes data k0 =
    (let k = (if k0 > 100 then 1 else k0);
         words = (length data + 7) div 8;
         words = (if words = 0 then 1 else words)
     in \<lparr>bf_bits = map (word_at data) [0..<words], bf_k = k, bf_m = of_nat (words * 64)\<rparr>)"

definition bloom_hash :: "byte list \<Rightarrow> 64 word \<times> 64 word" where
  "bloom_hash key = (let sum = fnv128a_sum key in (le64 (take 8 sum), le64 (drop 8 sum)))"

definition bloom_pos :: "bloom_filter \<Rightarrow> byte list \<Rightarrow> nat \<Rightarrow> 64 word" where
  "bloom_pos bf key i = (case bloom_hash key of (h1, h2) \<Rightarrow> (h1 + of_nat i * h2) mod ucast (bf_m bf))"

fun add_bits :: "64 word list \<Rightarrow> 64 word list \<Rightarrow> 64 word list option" where
  "add_bits bits [] = Some bits"
| "add_bits bits (pos # ps) =
    (let wordIdx = unat (pos div 64); bitIdx = unat (pos mod 64)
     in if wordIdx < length bits
        then add_bits (bits[wordIdx := bits ! wordIdx OR push_bit bitIdx 1]) ps
        else None)"

definition bloom_add :: "bloom_filter \<Rightarrow> byte list \<Rightarrow> bloom_filter option" where
  "bloom_add bf key =
    (if bf_m bf = 0 \<and> bf_k bf \<noteq> 0 then None
     else map_option (\<lambda>bits. bf\<lparr>bf_bits := bits\<rparr>)
            (add_bits (bf_bits bf) (map (bloom_pos bf key) [0..<unat (bf_k bf)])))"

definition AddString :: "bloom_filter \<Rightarrow> string \<Rightarrow> bloom_filter option" where
  "AddString bf s = bloom_add bf (bytes_of s)"

fun test_bits :: "64 word list \<Rightarrow> 64 word list \<Rightarrow> bool option" where
  "test_bits bits [] = Some True"
| "test_bits bits (pos # ps) =
    (let wordIdx = unat (pos div 64); bitIdx = unat (pos mod 64)
     in if wordIdx < length bits
        then if bits ! wordIdx AND push_bit bitIdx 1 = 0 then Some False else test_bits bits ps
        else None)"

definition bloom_contains :: "bloom_filter \<Rightarrow> byte list \<Rightarrow> bool option" where
  "bloom_contains bf key =
    (if bf_m bf = 0 \<and> bf_k bf \<noteq> 0 then None
     else test_bits (bf_bits bf) (map (bloom_pos bf key) [0..<unat (bf_k bf)]))"

definition ContainsString :: "bloom_filter \<Rightarrow> string \<Rightarrow> bool option" where
  "ContainsString bf s = bloom_contains bf (bytes_of s)"

definition bloom_Bytes :: "bloom_filter \<Rightarrow> byte list" where
  "bloom_Bytes bf = concat (map put_le64 (bf_bits bf))"

text \<open>A client that adds its keys one after the other.\<close>

fun add_strings :: "bloom_filter \<Rightarrow> string list \<Rightarrow> bloom_filter option" where
  "add_strings bf [] = Some bf"
| "add_strings bf (s # ss) = (case AddString bf s of None \<Rightarrow> None | Some bf' \<Rightarrow> add_strings bf' ss)"

section \<open>The invariant\<close>

definition bloom_wf :: "bloom_filter \<Rightarrow> bool" where
  "bloom_wf bf \<longleftrightarrow> bf_bits bf \<noteq> [] \<and> unat (bf_m bf) = 64 * length (bf_bits bf)"

text \<open>Bit \<open>p\<close> of the filter.\<close>

definition bloom_bit :: "64 word list \<Rightarrow> nat \<Rightarrow> bool" where
  "bloom_bit bits p \<longleftrightarrow> bit (bits ! (p div 64)) (p mod 64)"

lemma bloom_wf_m: "bloom_wf bf \<Longrightarrow> bf_m bf \<noteq> 0"
  by (auto simp: bloom_wf_def)

lemma unat_div_mod_64: "unat ((pos :: 64 word) div 64) = unat pos div 64" "unat (pos mod 64) = unat pos mod 64"
  by (simp_all add: unat_div unat_mod)

lemma bloom_pos_less:
  assumes "bloom_wf bf"
  shows "unat (bloom_pos bf key i) < 64 * length (bf_bits bf)"
proof -
  have m: "unat (ucast (bf_m bf) :: 64 word) = unat (bf_m bf)"
    using unsigned_less [of "bf_m bf", where 'a = nat] by (simp add: unsigned_ucast_eq take_bit_nat_eq_self)
  then have "0 < unat (ucast (bf_m bf) :: 64 word)"
    using assms bloom_wf_m by (auto simp: unat_gt_0)
  then show ?thesis
    using m assms by (auto simp: bloom_pos_def unat_mod bloom_wf_def split: prod.splits)
qed

lemma test_bits_eq:
  "\<forall>p\<in>set ps. unat p < 64 * length bits \<Longrightarrow>
    test_bits bits ps = Some (\<forall>p\<in>set ps. bloom_bit bits (unat p))"
proof (induction bits ps rule: test_bits.induct)
  case (2 bits pos ps)
  then show ?case
    by (auto simp: Let_def unat_div_mod_64 and_exp_eq_0_iff_not_bit bloom_bit_def)
qed simp

lemma bloom_bit_set:
  assumes "p < 64 * length bits" "q < 64 * length bits"
  shows "bloom_bit (bits[p div 64 := bits ! (p div 64) OR push_bit (p mod 64) 1]) q
    \<longleftrightarrow> bloom_bit bits q \<or> q = p"
proof -
  have "q = p \<longleftrightarrow> q div 64 = p div 64 \<and> q mod 64 = p mod 64"
    by (metis div_mod_decomp)
  then show ?thesis
    using assms by (auto simp: bloom_bit_def nth_list_update bit_simps)
qed

lemma add_bits_eq:
  "\<forall>p\<in>set ps. unat p < 64 * length bits \<Longrightarrow>
    \<exists>bits'. add_bits bits ps = Some bits' \<and> length bits' = length bits \<and>
      (\<forall>q < 64 * length bits. bloom_bit bits' q \<longleftrightarrow> bloom_bit bits q \<or> q \<in> unat ` set ps)"
proof (induction ps arbitrary: bits)
  case (Cons pos ps)
  let ?b = "bits[unat pos div 64 := bits ! (unat pos div 64) OR push_bit (unat pos mod 64) 1]"
  have pos: "unat pos < 64 * length bits" "unat pos div 64 < length bits"
    using Cons.prems by (auto simp: less_mult_imp_div_less mult.commute)
  from Cons.IH [of ?b] Cons.prems
  obtain bits' where "add_bits ?b ps = Some bits'" "length bits' = length bits"
    "\<forall>q < 64 * length bits. bloom_bit bits' q \<longleftrightarrow> bloom_bit ?b q \<or> q \<in> unat ` set ps"
    by auto
  with pos bloom_bit_set [OF pos(1)] show ?case
    by (auto simp: Let_def unat_div_mod_64)
qed simp

section \<open>Membership\<close>

definition bloom_positions :: "bloom_filter \<Rightarrow> byte list \<Rightarrow> nat set" where
  "bloom_positions bf key = (\<lambda>i. unat (bloom_pos bf key i)) ` {0..<unat (bf_k bf)}"

lemma bloom_contains_eq:
  assumes "bloom_wf bf"
  shows "bloom_contains bf key = Some (\<forall>p\<in>bloom_positions bf key. bloom_bit (bf_bits bf) p)"
proof -
  have "\<forall>p\<in>set (map (bloom_pos bf key) [0..<unat (bf_k bf)]). unat p < 64 * length (bf_bits bf)"
    using bloom_pos_less [OF assms] by auto
  from test_bits_eq [OF this] show ?thesis
    using bloom_wf_m [OF assms] by (auto simp: bloom_contains_def bloom_positions_def)
qed

lemma bloom_add_eq:
  assumes "bloom_wf bf"
  shows "\<exists>bits. bloom_add bf key = Some (bf\<lparr>bf_bits := bits\<rparr>) \<and> length bits = length (bf_bits bf) \<and>
    (\<forall>q < 64 * length bits. bloom_bit bits q \<longleftrightarrow> bloom_bit (bf_bits bf) q \<or> q \<in> bloom_positions bf key)"
proof -
  let ?ps = "map (bloom_pos bf key) [0..<unat (bf_k bf)]"
  have "\<forall>p\<in>set ?ps. unat p < 64 * length (bf_bits bf)"
    using bloom_pos_less [OF assms] by auto
  from add_bits_eq [OF this] show ?thesis
    using bloom_wf_m [OF assms] by (auto simp: bloom_add_def bloom_positions_def image_image)
qed

lemma bloom_positions_less: "\<lbrakk>bloom_wf bf; p \<in> bloom_positions bf key\<rbrakk> \<Longrightarrow> p < 64 * length (bf_bits bf)"
  using bloom_pos_less by (auto simp: bloom_positions_def)

lemma bloom_positions_cong: "\<lbrakk>bf_k bf' = bf_k bf; bf_m bf' = bf_m bf\<rbrakk> \<Longrightarrow> bloom_positions bf' = bloom_positions bf"
  by (simp add: bloom_positions_def bloom_pos_def fun_eq_iff)

lemma bloom_add_contains:
  assumes "bloom_wf bf" "bloom_add bf x = Some bf'"
  shows "bloom_wf bf'" "bloom_contains bf' x = Some True"
    "bloom_contains bf y = Some True \<Longrightarrow> bloom_contains bf' y = Some True"
    "bf_k bf' = bf_k bf"
proof -
  obtain bits where b: "bf' = bf\<lparr>bf_bits := bits\<rparr>" "length bits = length (bf_bits bf)"
    "\<forall>q < 64 * length bits. bloom_bit bits q \<longleftrightarrow> bloom_bit (bf_bits bf) q \<or> q \<in> bloom_positions bf x"
    using bloom_add_eq [OF assms(1), of x] assms(2) by auto
  have pos: "bloom_positions bf' = bloom_positions bf"
    by (rule bloom_positions_cong) (simp_all add: b(1))
  show wf: "bloom_wf bf'" and "bf_k bf' = bf_k bf"
    using b assms(1) by (auto simp: bloom_wf_def)
  show "bloom_contains bf' x = Some True"
    using wf b bloom_positions_less [OF assms(1)] by (auto simp: bloom_contains_eq pos [unfolded b(1)])
  show "bloom_contains bf' y = Some True" if "bloom_contains bf y = Some True"
    using wf b bloom_positions_less [OF assms(1)] that assms(1) by (auto simp: bloom_contains_eq pos [unfolded b(1)])
qed

lemma add_strings_total: "bloom_wf bf \<Longrightarrow> \<exists>bf'. add_strings bf ss = Some bf'"
proof (induction ss arbitrary: bf)
  case (Cons s ss)
  then obtain bf1 where bf1: "bloom_add bf (bytes_of s) = Some bf1"
    using bloom_add_eq [OF Cons.prems] by blast
  with Cons.IH bloom_add_contains(1) [OF Cons.prems bf1] show ?case
    by (simp add: AddString_def)
qed simp

lemma add_strings_contains:
  "\<lbrakk>bloom_wf bf; add_strings bf ss = Some bf'\<rbrakk> \<Longrightarrow>
    bloom_wf bf' \<and> bf_k bf' = bf_k bf \<and>
    (\<forall>s. s \<in> set ss \<or> ContainsString bf s = Some True \<longrightarrow> ContainsString bf' s = Some True)"
proof (induction bf ss rule: add_strings.induct)
  case (2 bf s ss)
  obtain bf1 where bf1: "bloom_add bf (bytes_of s) = Some bf1" "add_strings bf1 ss = Some bf'"
    using 2(3) by (auto simp: AddString_def split: option.splits)
  note add = bloom_add_contains [OF 2(2) bf1(1)]
  from 2(1) [OF _ add(1) bf1(2)] bf1(1) add show ?case
    by (auto simp: AddString_def ContainsString_def)
qed simp

section \<open>Construction and serialisation\<close>

lemma unat_words:
  assumes "(m0 :: 32 word) \<le> 4294967232"
  shows "unat ((m0 + 63) div 64) = (unat m0 + 63) div 64" "64 * ((unat m0 + 63) div 64) < 2 ^ 32"
proof -
  have "unat m0 \<le> 4294967232" using assms by (simp add: word_le_nat_alt)
  moreover from this have "unat (m0 + 63) = unat m0 + 63"
    by (subst unat_add_lem [THEN iffD1]) auto
  ultimately show "unat ((m0 + 63) div 64) = (unat m0 + 63) div 64" "64 * ((unat m0 + 63) div 64) < 2 ^ 32"
    by (simp_all add: unat_div)
qed

lemma NewBloomFilter_wf:
  assumes "m0 \<le> 4294967232"
  shows "bloom_wf (NewBloomFilter m0 k)"
proof -
  let ?w = "(if (m0 + 63) div 64 = 0 then 1 else (m0 + 63) div 64)"
  have "unat ?w \<noteq> 0" "64 * unat ?w < 2 ^ 32"
    using unat_words [OF assms] by (auto simp: unat_eq_0)
  moreover from this have "unat (?w * 64) = unat ?w * 64"
    by (subst unat_mult_lem [THEN iffD1]) auto
  ultimately show ?thesis
    by (auto simp: bloom_wf_def NewBloomFilter_def Let_def)
qed

lemma bf_k_New [simp]: "bf_k (NewBloomFilter m0 k) = k"
  by (simp add: NewBloomFilter_def Let_def)

lemma length_concat_put: "length (concat (map put_le64 ws)) = 8 * length ws"
  by (induction ws) auto

lemma drop_concat_put:
  "i \<le> length ws \<Longrightarrow> drop (i * 8) (concat (map put_le64 ws)) = concat (map put_le64 (drop i ws))"
proof (induction ws arbitrary: i)
  case (Cons w ws)
  then show ?case by (cases i) auto
qed simp

lemma word_at_concat:
  assumes "i < length ws"
  shows "word_at (concat (map put_le64 ws)) i = ws ! i"
proof -
  have "take 8 (drop (i * 8) (concat (map put_le64 ws))) = put_le64 (ws ! i)"
    using assms by (simp add: drop_concat_put Cons_nth_drop_Suc [symmetric])
  then show ?thesis
    using assms by (simp add: word_at_def Let_def length_concat_put min_def)
qed

lemma FromBytes_Bytes:
  assumes "bloom_wf bf" "bf_k bf \<le> 100"
  shows "NewBloomFilterFromBytes (bloom_Bytes bf) (bf_k bf) = bf"
proof -
  let ?n = "length (bf_bits bf)"
  have "(8 * ?n + 7) div 8 = ?n" by simp
  moreover have "?n \<noteq> 0" using assms(1) by (simp add: bloom_wf_def)
  moreover have "map (word_at (concat (map put_le64 (bf_bits bf)))) [0..<?n] = bf_bits bf"
    by (rule nth_equalityI) (simp_all add: word_at_concat)
  moreover have "of_nat (?n * 64) = bf_m bf"
  proof -
    have "?n * 64 = unat (bf_m bf)" using assms(1) by (simp add: bloom_wf_def)
    then show ?thesis by (simp only: of_nat_unat ucast_id)
  qed
  ultimately show ?thesis
    using assms(2) by (simp add: NewBloomFilterFromBytes_def bloom_Bytes_def Let_def length_concat_put not_less)
qed

lemma FromBytes_wf:
  assumes "length data < 536870905"
  shows "bloom_wf (NewBloomFilterFromBytes data k)"
  using assms by (auto simp: bloom_wf_def NewBloomFilterFromBytes_def Let_def unat_of_nat simp del: of_nat_mult)

section \<open>No false negatives\<close>

text \<open>
  C16: a filter built for at most \<open>2^32 - 64\<close> bits and at most 100 hash functions never
  panics while keys are added, and after a trip through its serialised form it still
  contains every key that was added.
\<close>

theorem bloom_no_false_negatives:
  assumes "m0 \<le> 4294967232" "k \<le> 100"
  shows "\<exists>bf. add_strings (NewBloomFilter m0 k) ss = Some bf \<and>
    NewBloomFilterFromBytes (bloom_Bytes bf) (bf_k bf) = bf \<and>
    (\<forall>s. s \<in> set ss \<longrightarrow> ContainsString (NewBloomFilterFromBytes (bloom_Bytes bf) (bf_k bf)) s = Some True)"
proof -
  note wf = NewBloomFilter_wf [OF assms(1), of k]
  obtain bf where bf: "add_strings (NewBloomFilter m0 k) ss = Some bf"
    using add_strings_total [OF wf] by blast
  with add_strings_contains [OF wf bf] assms(2) show ?thesis
    by (auto simp: FromBytes_Bytes)
qed

theorem bloom_no_false_negatives_witness:
  "\<exists>bf. add_strings (NewBloomFilter 959 7) [''video/a.ts'', ''b''] = Some bf \<and>
    ContainsString (NewBloomFilterFromBytes (bloom_Bytes bf) (bf_k bf)) ''b'' = Some True"
  using bloom_no_false_negatives [of 959 7 "[''video/a.ts'', ''b'']"] by auto

text \<open>
  \<open>Contains\<close> on a filter with one more element: the new element is found, and any
  other element is found iff each of its positions was set before or is a position
  of the new one.
\<close>

theorem bloom_add_exact:
  assumes "bloom_wf bf"
  shows "\<exists>bf'. bloom_add bf x = Some bf' \<and> bloom_wf bf' \<and>
    (\<forall>y. bloom_contains bf' y =
      Some (\<forall>p \<in> bloom_positions bf y. bloom_bit (bf_bits bf) p \<or> p \<in> bloom_positions bf x))"
proof -
  obtain bits where b: "bloom_add bf x = Some (bf\<lparr>bf_bits := bits\<rparr>)" "length bits = length (bf_bits bf)"
    "\<forall>q < 64 * length bits. bloom_bit bits q \<longleftrightarrow> bloom_bit (bf_bits bf) q \<or> q \<in> bloom_positions bf x"
    using bloom_add_eq [OF assms, of x] by auto
  note wf = bloom_add_contains(1) [OF assms b(1)]
  moreover have "bloom_positions (bf\<lparr>bf_bits := bits\<rparr>) = bloom_positions bf"
    by (rule bloom_positions_cong) simp_all
  ultimately show ?thesis
    using b bloom_positions_less [OF assms] by (auto simp: bloom_contains_eq [OF wf])
qed

theorem bloom_add_exact_witness:
  "\<exists>bf'. bloom_add (NewBloomFilter 64 3) (bytes_of ''k'') = Some bf' \<and> bloom_wf bf'"
  using bloom_add_exact [OF NewBloomFilter_wf [of 64 3], of "bytes_of ''k''"] by auto

end
