(* ===== verification/Content_Index.thy ===== *)
theory Content_Index
  imports Bloom Models
begin

text \<open>
  The content index of \<open>internal/contentindex\<close>: the in-memory \<open>ContentIndex\<close>
  (\<open>bloom.go\<close>, lines 139 to 249) and the \<open>Store\<close> that keeps it beside two Postgres
  tables (\<open>store.go\<close>).  The one-pass \<open>FindNodesWithKey\<close> agrees with \<open>IsCached\<close> asked
  node by node, which is the law of the locale \<open>content_lookup\<close> that the scheduler
  relies on.  The tables are the rows under their primary keys; \<open>db i\<close> tells whether
  the \<open>i\<close>-th statement of a call succeeds.
\<close>

section \<open>ContentIndex\<close>

record content_index =
  ix_hotKeys :: "(string, string set) gomap"
  ix_blooms :: "(string, bloom_filter) gomap"
  ix_totalKeys :: "(string, int) gomap"

record content_summary_data =
  cd_HotKeys :: "string list option"
  cd_BloomBytes :: "byte list option"
  cd_BloomK :: "32 word"
  cd_TotalKeys :: int

definition NewContentIndex :: content_index where
  "NewContentIndex = \<lparr>ix_hotKeys = [], ix_blooms = [], ix_totalKeys = []\<rparr>"

definition Update :: "content_index \<Rightarrow> string \<Rightarrow> content_summary_data \<Rightarrow> content_index" where
  "Update ix nodeID s =
    (let ix = (case cd_HotKeys s of None \<Rightarrow> ix
         | Some ks \<Rightarrow> ix\<lparr>ix_hotKeys := gm_set nodeID (set ks) (ix_hotKeys ix)\<rparr>);
       ix = (case cd_BloomBytes s of None \<Rightarrow> ix
         | Some bs \<Rightarrow> if cd_BloomK s > 0
             then ix\<lparr>ix_blooms := gm_set nodeID (NewBloomFilterFromBytes bs (cd_BloomK s)) (ix_blooms ix)\<rparr>
             else ix)
     in ix\<lparr>ix_totalKeys := gm_set nodeID (cd_TotalKeys s) (ix_totalKeys ix)\<rparr>)"

text \<open>\<open>IsCached\<close> is \<^const>\<open>None\<close> when the filter's lookup panics.\<close>

definition IsCached :: "content_index \<Rightarrow> string \<Rightarrow> string \<Rightarrow> (bool \<times> bool) option" where
  "IsCached ix nodeID key =
    (if \<exists>ks \<in> set_option (gm_get (ix_hotKeys ix) nodeID). key \<in> ks then Some (True, True)
     else case gm_get (ix_blooms ix) nodeID of
         None \<Rightarrow> Some (False, False)
       | Some bf \<Rightarrow> map_option (\<lambda>b. (False, b)) (ContainsString bf key))"

fun hot_nodes :: "string \<Rightarrow> (string, string set) gomap \<Rightarrow> (string, bool) gomap" where
  "hot_nodes key [] = []"
| "hot_nodes key ((n, ks) # rest) =
    (if key \<in> ks then gm_set n True (hot_nodes key rest) else hot_nodes key rest)"

fun bloom_nodes :: "string \<Rightarrow> (string, bool) gomap \<Rightarrow> (string, bloom_filter) gomap \<Rightarrow> (string, bool) gomap option" where
  "bloom_nodes key hot [] = Some []"
| "bloom_nodes key hot ((n, bf) # rest) =
    (if gm_get hot n = Some True then bloom_nodes key hot rest
     else case ContainsString bf key of
         None \<Rightarrow> None
       | Some b \<Rightarrow> map_option (\<lambda>m. if b then gm_set n True m else m) (bloom_nodes key hot rest))"

definition FindNodesWithKey :: "content_index \<Rightarrow> string \<Rightarrow> ((string, bool) gomap \<times> (string, bool) gomap) option" where
  "FindNodesWithKey ix key =
    (let hot = hot_nodes key (ix_hotKeys ix)
     in map_option (\<lambda>bloom. (hot, bloom)) (bloom_nodes key hot (ix_blooms ix)))"

definition FindNodesWithKeySlice :: "content_index \<Rightarrow> string \<Rightarrow> (string list \<times> string list) option" where
  "FindNodesWithKeySlice ix key =
    map_option (\<lambda>(hot, bloom). (map fst hot, map fst bloom)) (FindNodesWithKey ix key)"

definition RemoveNode :: "content_index \<Rightarrow> string \<Rightarrow> content_index" where
  "RemoveNode ix nodeID =
    ix\<lparr>ix_hotKeys := gm_del nodeID (ix_hotKeys ix),
       ix_blooms := gm_del nodeID (ix_blooms ix),
       ix_totalKeys := gm_del nodeID (ix_totalKeys ix)\<rparr>"

subsection \<open>Invariant\<close>

definition index_wf :: "content_index \<Rightarrow> bool" where
  "index_wf ix \<longleftrightarrow> gm_wf (ix_hotKeys ix) \<and> gm_wf (ix_blooms ix) \<and> gm_wf (ix_totalKeys ix)
     \<and> (\<forall>(n, bf) \<in> set (ix_blooms ix). bloom_wf bf)"

lemma index_wf_New [simp, inv_intros]: "index_wf NewContentIndex"
  by (simp add: index_wf_def NewContentIndex_def)

lemma index_wf_Update [inv_intros]:
  assumes "index_wf ix" "\<And>bs. cd_BloomBytes s = Some bs \<Longrightarrow> length bs < 536870905"
  shows "index_wf (Update ix n s)"
  using assms FromBytes_wf
  by (auto simp: index_wf_def Update_def Let_def gm_set_pairs split: option.splits)

lemma index_wf_Remove [inv_intros]: "index_wf ix \<Longrightarrow> index_wf (RemoveNode ix n)"
  by (auto simp: index_wf_def RemoveNode_def gm_del_pairs)

lemma index_bloom_wf: "\<lbrakk>index_wf ix; gm_get (ix_blooms ix) n = Some bf\<rbrakk> \<Longrightarrow> bloom_wf bf"
  by (auto simp: index_wf_def dest: map_of_SomeD)

lemma ContainsString_Some: "bloom_wf bf \<Longrightarrow> \<exists>b. ContainsString bf key = Some b"
  by (simp add: ContainsString_def bloom_contains_eq)

lemma IsCached_total: "index_wf ix \<Longrightarrow> \<exists>r. IsCached ix n key = Some r"
  using index_bloom_wf ContainsString_Some by (fastforce simp: IsCached_def split: option.splits)

subsection \<open>One pass or node by node\<close>

lemma hot_nodes_get:
  "gm_wf m \<Longrightarrow> gm_get (hot_nodes key m) n = Some True \<longleftrightarrow> (\<exists>ks. gm_get m n = Some ks \<and> key \<in> ks)"
proof (induction m)
  case (Cons p m)
  obtain a ks where p: "p = (a, ks)" by fastforce
  with Cons have "gm_get m a = None" "gm_wf m"
    by (auto simp: gm_wf_def map_of_eq_None_iff)
  with Cons p show ?case by auto
qed simp

lemma bloom_nodes_get:
  assumes "gm_wf m" "\<forall>(n, bf) \<in> set m. bloom_wf bf"
  shows "\<exists>bl. bloom_nodes key hot m = Some bl \<and>
    (\<forall>n. gm_get bl n = Some True \<longleftrightarrow>
       gm_get hot n \<noteq> Some True \<and> (\<exists>bf. gm_get m n = Some bf \<and> ContainsString bf key = Some True))"
  using assms
proof (induction m)
  case (Cons p m)
  obtain a bf where p: "p = (a, bf)" by fastforce
  with Cons have a: "gm_get m a = None" "bloom_wf bf"
    by (auto simp: gm_wf_def map_of_eq_None_iff)
  from Cons p obtain bl where "bloom_nodes key hot m = Some bl"
    "\<forall>n. gm_get bl n = Some True \<longleftrightarrow>
       gm_get hot n \<noteq> Some True \<and> (\<exists>bf. gm_get m n = Some bf \<and> ContainsString bf key = Some True)"
    by (auto simp: gm_wf_def)
  with p a ContainsString_Some [OF a(2), of key] show ?case by auto
qed simp

lemma FindNodesWithKey_IsCached:
  assumes "index_wf ix"
  shows "\<exists>hot bloom. FindNodesWithKey ix key = Some (hot, bloom) \<and>
    (\<forall>n. IsCached ix n key =
      Some (gm_get hot n = Some True, gm_get hot n = Some True \<or> gm_get bloom n = Some True))"
proof -
  have wf: "gm_wf (ix_hotKeys ix)" "gm_wf (ix_blooms ix)" "\<forall>(n, bf) \<in> set (ix_blooms ix). bloom_wf bf"
    using assms by (simp_all add: index_wf_def)
  let ?hot = "hot_nodes key (ix_hotKeys ix)"
  obtain bl where bl: "bloom_nodes key ?hot (ix_blooms ix) = Some bl"
    "\<And>n. gm_get bl n = Some True \<longleftrightarrow> gm_get ?hot n \<noteq> Some True \<and>
      (\<exists>bf. gm_get (ix_blooms ix) n = Some bf \<and> ContainsString bf key = Some True)"
    using bloom_nodes_get [OF wf(2,3)] by blast
  have "IsCached ix n key =
      Some (gm_get ?hot n = Some True, gm_get ?hot n = Some True \<or> gm_get bl n = Some True)" for n
  proof (cases "gm_get (ix_blooms ix) n")
    case None
    then show ?thesis
      using bl(2) [of n] hot_nodes_get [OF wf(1), of key n] by (auto simp: IsCached_def)
  next
    case (Some bf)
    then show ?thesis
      using bl(2) [of n] hot_nodes_get [OF wf(1), of key n]
        ContainsString_Some [OF index_bloom_wf [OF assms Some], of key]
      by (auto simp: IsCached_def)
  qed
  with bl(1) show ?thesis by (auto simp: FindNodesWithKey_def Let_def)
qed

text \<open>
  C14: on a well-formed index the single pass over all nodes that a dispatch makes
  returns, and says of every node what \<open>IsCached\<close> says of it: hot iff in the first
  map, likely cached iff in one of the two.
\<close>

theorem FindNodesWithKey_agrees:
  assumes "index_wf ix"
  shows "\<exists>hot bloom. FindNodesWithKey ix key = Some (hot, bloom) \<and>
    (\<forall>n. IsCached ix n key =
      Some (gm_get hot n = Some True, gm_get hot n = Some True \<or> gm_get bloom n = Some True))"
  by (rule FindNodesWithKey_IsCached [OF assms])

definition sample_index :: content_index where
  "sample_index = Update NewContentIndex ''n1''
    \<lparr>cd_HotKeys = Some [''a'', ''b''], cd_BloomBytes = Some (replicate 8 255), cd_BloomK = 3, cd_TotalKeys = 2\<rparr>"

lemma sample_index_wf: "index_wf sample_index"
  unfolding sample_index_def by (rule index_wf_Update) auto

theorem FindNodesWithKey_agrees_witness:
  "\<exists>hot bloom. FindNodesWithKey sample_index ''b'' = Some (hot, bloom) \<and>
    IsCached sample_index ''n1'' ''b'' = Some (True, True) \<and>
    IsCached sample_index ''n1'' ''b'' =
      Some (gm_get hot ''n1'' = Some True, gm_get hot ''n1'' = Some True \<or> gm_get bloom ''n1'' = Some True)"
proof -
  have "IsCached sample_index ''n1'' ''b'' = Some (True, True)"
    by (simp add: IsCached_def sample_index_def Update_def NewContentIndex_def)
  then show ?thesis
    using FindNodesWithKey_agrees [OF sample_index_wf, of "''b''"] by metis
qed

subsection \<open>The scheduler's interface\<close>

text \<open>\<open>ContentIndexLookup\<close> of \<open>scheduler.go\<close>: an implementation with the law that the
  two queries agree.\<close>

record content_index_lookup =
  cl_IsCached :: "string \<Rightarrow> string \<Rightarrow> bool \<times> bool"
  cl_FindNodesWithKey :: "string \<Rightarrow> (string, bool) gomap \<times> (string, bool) gomap"

locale content_lookup =
  fixes lookup :: "'ix \<Rightarrow> content_index_lookup"
    and inv :: "'ix \<Rightarrow> bool"
  assumes find_is_cached: "\<lbrakk>inv ix; cl_FindNodesWithKey (lookup ix) key = (hot, bloom)\<rbrakk> \<Longrightarrow>
    cl_IsCached (lookup ix) n key = (gm_get hot n = Some True, gm_get hot n = Some True \<or> gm_get bloom n = Some True)"
begin

text \<open>Asking the two maps first and the index only for the nodes in neither of them
  gives what the index says.\<close>

lemma two_step_lookup:
  assumes "inv ix" "cl_FindNodesWithKey (lookup ix) key = (hot, bloom)"
  shows "(if gm_get hot n = Some True then a else if gm_get bloom n = Some True then b
          else case cl_IsCached (lookup ix) n key of (h, l) \<Rightarrow> if h then a else if l then b else c)
       = (case cl_IsCached (lookup ix) n key of (h, l) \<Rightarrow> if h then a else if l then b else c)"
  using find_is_cached [OF assms, of n] by auto

lemma neither_not_cached:
  "\<lbrakk>inv ix; cl_FindNodesWithKey (lookup ix) key = (hot, bloom); gm_get hot n \<noteq> Some True; gm_get bloom n \<noteq> Some True\<rbrakk>
    \<Longrightarrow> cl_IsCached (lookup ix) n key = (False, False)"
  using find_is_cached [of ix key hot bloom n] by simp

end

text \<open>The index as such an implementation.\<close>

definition index_lookup :: "content_index \<Rightarrow> content_index_lookup" where
  "index_lookup ix =
    \<lparr>cl_IsCached = (\<lambda>n k. case IsCached ix n k of Some r \<Rightarrow> r | None \<Rightarrow> (False, False)),
     cl_FindNodesWithKey = (\<lambda>k. case FindNodesWithKey ix k of Some r \<Rightarrow> r | None \<Rightarrow> ([], []))\<rparr>"

interpretation ci: content_lookup index_lookup index_wf
proof
  fix ix key hot bloom n
  assume "index_wf ix" "cl_FindNodesWithKey (index_lookup ix) key = (hot, bloom)"
  then show "cl_IsCached (index_lookup ix) n key =
      (gm_get hot n = Some True, gm_get hot n = Some True \<or> gm_get bloom n = Some True)"
    using FindNodesWithKey_IsCached [of ix key] by (auto simp: index_lookup_def)
qed

section \<open>Store\<close>

record content_row =
  cr_is_hot :: bool
  cr_last_seen_at :: int

record bloom_row =
  br_bloom_data :: "byte list"
  br_bloom_k :: "32 word"
  br_total_keys :: int
  br_updated_at :: int

record content_store =
  st_content_index :: "(string \<times> string, content_row) gomap"
  st_content_bloom :: "(string, bloom_row) gomap"
  st_index :: content_index

datatype store_error = UpsertBloom | DeleteOldHotKeys | QueryFailed

text \<open>\<open>k = summary.BloomK\<close> if it is between 1 and 100, else 0.\<close>

definition clamp_k :: "32 word \<Rightarrow> 32 word" where
  "clamp_k k = (if k > 0 \<and> k \<le> 100 then k else 0)"

definition insert_hot_key ::
    "string \<Rightarrow> int \<Rightarrow> string \<Rightarrow> (string \<times> string, content_row) gomap \<Rightarrow> (string \<times> string, content_row) gomap" where
  "insert_hot_key node now k t =
    gm_set (node, k) (case gm_get t (node, k) of
        None \<Rightarrow> \<lparr>cr_is_hot = True, cr_last_seen_at = now\<rparr>
      | Some r \<Rightarrow> r\<lparr>cr_last_seen_at := now\<rparr>) t"

fun insert_hot_keys :: "(nat \<Rightarrow> bool) \<Rightarrow> nat \<Rightarrow> string \<Rightarrow> int \<Rightarrow> string list
    \<Rightarrow> (string \<times> string, content_row) gomap \<Rightarrow> (string \<times> string, content_row) gomap" where
  "insert_hot_keys db i node now [] t = t"
| "insert_hot_keys db i node now (k # ks) t =
    insert_hot_keys db (Suc i) node now ks (if db i then insert_hot_key node now k t else t)"

text \<open>A nil filter is a NULL in the column \<open>bloom_data\<close>, which is declared NOT NULL.\<close>

definition UpsertSummary ::
    "(nat \<Rightarrow> bool) \<Rightarrow> int \<Rightarrow> content_store \<Rightarrow> content_summary \<Rightarrow> store_error option \<times> content_store" where
  "UpsertSummary db now st summary =
    (let node = cs_node_id summary; bloomK = clamp_k (cs_bloom_k summary) in
     case (if db 0 then cs_bloom_filter summary else None) of
       None \<Rightarrow> (Some UpsertBloom, st)
     | Some data \<Rightarrow>
       (let st = st\<lparr>st_content_bloom := gm_set node
              \<lparr>br_bloom_data = data, br_bloom_k = bloomK, br_total_keys = cs_total_keys summary, br_updated_at = now\<rparr>
              (st_content_bloom st)\<rparr>
        in if \<not> db 1 then (Some DeleteOldHotKeys, st)
        else
          (let t = filter (\<lambda>((n, k), r). \<not> (n = node \<and> cr_is_hot r)) (st_content_index st);
               hot = (case cs_hot_keys summary of None \<Rightarrow> [] | Some ks \<Rightarrow> ks);
               t = insert_hot_keys db 2 node now hot t;
               d = \<lparr>cd_HotKeys = cs_hot_keys summary,
                    cd_BloomBytes = (if data \<noteq> [] then Some data else None),
                    cd_BloomK = (if data \<noteq> [] then bloomK else 0),
                    cd_TotalKeys = cs_total_keys summary\<rparr>
           in (None, st\<lparr>st_content_index := t, st_index := Update (st_index st) node d\<rparr>))))"

definition LoadBloom :: "content_store \<Rightarrow> string \<Rightarrow> bloom_filter option" where
  "LoadBloom st node = map_option (\<lambda>r. NewBloomFilterFromBytes (br_bloom_data r) (br_bloom_k r))
     (gm_get (st_content_bloom st) node)"

text \<open>Newest first, at most a thousand.\<close>

definition GetHotKeys :: "content_store \<Rightarrow> string \<Rightarrow> string list" where
  "GetHotKeys st node =
    take 1000 (map (\<lambda>((n, k), r). k)
      (sort_key (\<lambda>((n, k), r). - cr_last_seen_at r)
        (filter (\<lambda>((n, k), r). n = node \<and> cr_is_hot r) (st_content_index st))))"

fun scan_blooms :: "string \<Rightarrow> (string, bloom_row) gomap \<Rightarrow> string list option" where
  "scan_blooms key [] = Some []"
| "scan_blooms key ((n, r) # rest) =
    (if br_bloom_k r = 0 \<or> br_bloom_k r > 100 then scan_blooms key rest
     else case ContainsString (NewBloomFilterFromBytes (br_bloom_data r) (br_bloom_k r)) key of
         None \<Rightarrow> None
       | Some b \<Rightarrow> map_option (\<lambda>ns. if b then n # ns else ns) (scan_blooms key rest))"

definition store_FindNodesWithKey :: "(nat \<Rightarrow> bool) \<Rightarrow> content_store \<Rightarrow> string \<Rightarrow> (store_error option \<times> string list) option" where
  "store_FindNodesWithKey db st key =
    (case FindNodesWithKeySlice (st_index st) key of None \<Rightarrow> None
     | Some (hotNodes, bloomNodes) \<Rightarrow>
         if hotNodes \<noteq> [] then Some (None, hotNodes)
         else if bloomNodes \<noteq> [] then Some (None, bloomNodes)
         else if \<not> db 0 then Some (Some QueryFailed, hotNodes)
         else map_option (\<lambda>ns. (None, ns)) (scan_blooms key (st_content_bloom st)))"

definition store_RemoveNode :: "(nat \<Rightarrow> bool) \<Rightarrow> content_store \<Rightarrow> string \<Rightarrow> store_error option \<times> content_store" where
  "store_RemoveNode db st node =
    (if \<not> db 0 then (Some QueryFailed, st)
     else
       (let st = st\<lparr>st_content_index := filter (\<lambda>((n, k), r). n \<noteq> node) (st_content_index st)\<rparr>
        in if \<not> db 1 then (Some QueryFailed, st)
        else (None, st\<lparr>st_content_bloom := gm_del node (st_content_bloom st),
                       st_index := RemoveNode (st_index st) node\<rparr>)))"

text \<open>\<open>scan_hot\<close> is what the driver and \<open>json.Unmarshal\<close> make of the aggregated array
  of hot keys.\<close>

definition LoadAll :: "(string list \<Rightarrow> string list option) \<Rightarrow> (nat \<Rightarrow> bool) \<Rightarrow> content_store \<Rightarrow> store_error option \<times> content_store" where
  "LoadAll scan_hot db st =
    (if \<not> db 0 then (Some QueryFailed, st)
     else (None, st\<lparr>st_index := foldl (\<lambda>ix (node, r). Update ix node
         \<lparr>cd_HotKeys = scan_hot (map (\<lambda>((n, k), r). k)
             (sort_key (\<lambda>((n, k), r). - cr_last_seen_at r)
               (filter (\<lambda>((n, k), r). n = node \<and> cr_is_hot r) (st_content_index st)))),
          cd_BloomBytes = Some (br_bloom_data r), cd_BloomK = br_bloom_k r, cd_TotalKeys = br_total_keys r\<rparr>)
       (st_index st) (st_content_bloom st)\<rparr>))"

definition expireStaleHotKeys ::
    "(string list \<Rightarrow> string list option) \<Rightarrow> (nat \<Rightarrow> bool) \<Rightarrow> int \<Rightarrow> int \<Rightarrow> content_store \<Rightarrow> content_store" where
  "expireStaleHotKeys scan_hot db now hotKeyTTL st =
    (let cutoff = i64 (now - hotKeyTTL) in
     if cutoff \<le> 0 \<or> \<not> db 0 then st
     else
       (let t = filter (\<lambda>((n, k), r). \<not> (cr_is_hot r \<and> cr_last_seen_at r < cutoff)) (st_content_index st);
            st' = st\<lparr>st_content_index := t\<rparr>
        in if length t < length (st_content_index st)
           then snd (LoadAll scan_hot (\<lambda>i. db (Suc i)) st') else st'))"

subsection \<open>The tables and the index agree\<close>

definition all_hot :: "(string \<times> string, content_row) gomap \<Rightarrow> bool" where
  "all_hot t \<longleftrightarrow> gm_wf t \<and> (\<forall>(p, r) \<in> set t. cr_is_hot r)"

definition store_wf :: "content_store \<Rightarrow> bool" where
  "store_wf st \<longleftrightarrow> all_hot (st_content_index st) \<and> gm_wf (st_content_bloom st) \<and> index_wf (st_index st)"

text \<open>The hot keys of a node as the table has them.\<close>

definition hot_rows :: "content_store \<Rightarrow> string \<Rightarrow> string set" where
  "hot_rows st node = {k. \<exists>r. gm_get (st_content_index st) (node, k) = Some r \<and> cr_is_hot r}"

lemma all_hot_insert: "all_hot t \<Longrightarrow> all_hot (insert_hot_key node now k t)"
proof -
  assume t: "all_hot t"
  then have "cr_is_hot r" if "gm_get t (node, k) = Some r" for r
    using map_of_SomeD [OF that] by (auto simp: all_hot_def)
  then have "cr_is_hot (case gm_get t (node, k) of None \<Rightarrow> \<lparr>cr_is_hot = True, cr_last_seen_at = now\<rparr>
      | Some r \<Rightarrow> r\<lparr>cr_last_seen_at := now\<rparr>)"
    by (auto split: option.splits)
  with t show ?thesis
    unfolding insert_hot_key_def all_hot_def by (auto simp: gm_set_pairs)
qed

lemma all_hot_inserts: "all_hot t \<Longrightarrow> all_hot (insert_hot_keys db i node now ks t)"
  by (induction ks arbitrary: i t) (auto simp: all_hot_insert)

lemma all_hot_filter: "all_hot t \<Longrightarrow> all_hot (filter P t)"
  by (auto simp: all_hot_def)

lemma insert_hot_keys_get:
  "\<forall>j \<ge> i. db j \<Longrightarrow>
    gm_get (insert_hot_keys db i node now ks t) p =
      (if fst p = node \<and> snd p \<in> set ks
       then Some (case gm_get t p of None \<Rightarrow> \<lparr>cr_is_hot = True, cr_last_seen_at = now\<rparr> | Some r \<Rightarrow> r\<lparr>cr_last_seen_at := now\<rparr>)
       else gm_get t p)"
  by (induction ks arbitrary: i t)
    (auto simp: insert_hot_key_def split: option.splits)

lemma UpsertSummary_ok:
  assumes "cs_bloom_filter s = Some data" "\<forall>i. db i"
  shows "UpsertSummary db now st s =
    (None, st\<lparr>st_content_bloom := gm_set (cs_node_id s)
        \<lparr>br_bloom_data = data, br_bloom_k = clamp_k (cs_bloom_k s), br_total_keys = cs_total_keys s, br_updated_at = now\<rparr>
        (st_content_bloom st),
      st_content_index := insert_hot_keys db 2 (cs_node_id s) now (case cs_hot_keys s of None \<Rightarrow> [] | Some ks \<Rightarrow> ks)
        (filter (\<lambda>((n, k), r). \<not> (n = cs_node_id s \<and> cr_is_hot r)) (st_content_index st)),
      st_index := Update (st_index st) (cs_node_id s)
        \<lparr>cd_HotKeys = cs_hot_keys s, cd_BloomBytes = (if data \<noteq> [] then Some data else None),
         cd_BloomK = (if data \<noteq> [] then clamp_k (cs_bloom_k s) else 0), cd_TotalKeys = cs_total_keys s\<rparr>\<rparr>)"
  using assms by (simp add: UpsertSummary_def Let_def)

lemma Update_hotKeys:
  "ix_hotKeys (Update ix n s) =
    (case cd_HotKeys s of None \<Rightarrow> ix_hotKeys ix | Some ks \<Rightarrow> gm_set n (set ks) (ix_hotKeys ix))"
  by (auto simp: Update_def Let_def split: option.splits)

lemma Update_blooms:
  "ix_blooms (Update ix n s) =
    (case cd_BloomBytes s of None \<Rightarrow> ix_blooms ix
     | Some bs \<Rightarrow> if cd_BloomK s > 0 then gm_set n (NewBloomFilterFromBytes bs (cd_BloomK s)) (ix_blooms ix)
         else ix_blooms ix)"
  by (auto simp: Update_def Let_def split: option.splits)

lemma UpsertSummary_wf:
  assumes "store_wf st" "\<And>data. cs_bloom_filter s = Some data \<Longrightarrow> length data < 536870905"
  shows "store_wf (snd (UpsertSummary db now st s))"
proof -
  have "index_wf (Update (st_index st) n
      \<lparr>cd_HotKeys = h, cd_BloomBytes = (if data \<noteq> [] then Some data else None), cd_BloomK = k, cd_TotalKeys = t\<rparr>)"
    if "cs_bloom_filter s = Some data" for n h data k t
    using assms that by (intro index_wf_Update) (auto simp: store_wf_def split: if_splits)
  then show ?thesis
    using assms by (auto simp: UpsertSummary_def Let_def store_wf_def all_hot_inserts all_hot_filter split: option.splits)
qed


definition sample_store :: content_store where
  "sample_store = \<lparr>st_content_index = [((''n1'', ''old''), \<lparr>cr_is_hot = True, cr_last_seen_at = 5\<rparr>)],
     st_content_bloom = [], st_index = sample_index\<rparr>"

lemma sample_store_wf: "store_wf sample_store"
  by (simp add: store_wf_def sample_store_def all_hot_def gm_wf_def sample_index_wf)

definition sample_summary :: content_summary where
  "sample_summary = \<lparr>cs_node_id = ''n1'', cs_hot_keys = Some [''x'', ''y''], cs_bloom_filter = Some [1, 2],
     cs_bloom_k = 4, cs_total_keys = 2, cs_updated_at = 9\<rparr>"


text \<open>
  A node removed from the store is gone from both tables and from the index: it
  is reported as caching nothing, it has no stored filter and no hot row; the other
  nodes are as before.
\<close>

theorem RemoveNode_forgets:
  assumes wf: "store_wf st" and db: "db 0" "db 1" and res: "store_RemoveNode db st node = (err, st')"
  shows "err = None \<and> store_wf st' \<and> IsCached (st_index st') node k = Some (False, False)
    \<and> LoadBloom st' node = None \<and> hot_rows st' node = {}
    \<and> (\<forall>n. n \<noteq> node \<longrightarrow> IsCached (st_index st') n k = IsCached (st_index st) n k
         \<and> LoadBloom st' n = LoadBloom st n \<and> hot_rows st' n = hot_rows st n)"
proof -
  have st': "err = None"
    "st' = st\<lparr>st_content_index := filter (\<lambda>((n, k), r). n \<noteq> node) (st_content_index st),
       st_content_bloom := gm_del node (st_content_bloom st), st_index := RemoveNode (st_index st) node\<rparr>"
    using res db by (auto simp: store_RemoveNode_def Let_def)
  moreover have "gm_wf (st_content_index st)" using wf by (simp add: store_wf_def all_hot_def)
  ultimately show ?thesis
    using wf by (auto simp: store_wf_def all_hot_filter index_wf_Remove [unfolded RemoveNode_def] IsCached_def RemoveNode_def
        LoadBloom_def hot_rows_def gm_get_filter split: option.splits)
qed

theorem RemoveNode_forgets_witness:
  "\<exists>st'. store_RemoveNode (\<lambda>_. True) sample_store ''n1'' = (None, st') \<and>
    IsCached (st_index st') ''n1'' ''a'' = Some (False, False) \<and> hot_rows st' ''n1'' = {}"
proof -
  obtain err st' where res: "store_RemoveNode (\<lambda>_. True) sample_store ''n1'' = (err, st')"
    by fastforce
  from RemoveNode_forgets [OF sample_store_wf _ _ res, of "''a''"] res show ?thesis by auto
qed

end
