(* ===== verification/Streaming_Keys.thy ===== *)
theory Streaming_Keys
  imports Go_Strings
begin

text \<open>
  The keys of \<open>internal/streaming\<close>: the cache key of a chunk and its parser, the
  cleaning of stream keys, and the inference of a stream and sequence number from an
  object key (\<open>window.go\<close>, lines 149 to 232), with the recognisers of streaming
  objects of \<open>handler.go\<close> and \<open>manifest.go\<close>.
\<close>

section \<open>Definitions\<close>

definition ChunkCacheKey :: "string \<Rightarrow> int \<Rightarrow> string" where
  "ChunkCacheKey streamKey seqNum =
    ''stream/'' @ streamKey @ ''/seq_'' @ format_int_pad 10 seqNum"

definition ParseChunkKey :: "string \<Rightarrow> (string \<times> int) option" where
  "ParseChunkKey key =
    (if \<not> prefix ''stream/'' key then None
     else
       (let rest = trim_prefix ''stream/'' key; idx = last_index_str rest ''/seq_'' in
        if idx < 0 then None
        else (case parse_int (drop (nat idx + length ''/seq_'') rest) of
            None \<Rightarrow> None
          | Some seqNum \<Rightarrow> Some (take (nat idx) rest, seqNum))))"

definition IsHLSChunk :: "string \<Rightarrow> bool" where
  "IsHLSChunk key \<longleftrightarrow> suffix ''.ts'' (to_lower key) \<or> suffix ''.aac'' (to_lower key) \<or> suffix ''.vtt'' (to_lower key)"

definition IsDASHChunk :: "string \<Rightarrow> bool" where
  "IsDASHChunk key \<longleftrightarrow> suffix ''.m4s'' (to_lower key) \<or> suffix ''.cmfv'' (to_lower key)"

definition keyHasExt :: "string \<Rightarrow> string \<Rightarrow> bool" where
  "keyHasExt key ext \<longleftrightarrow> (if length key < length ext then False else drop (length key - length ext) key = ext)"

definition IsStreamingRequest :: "string \<Rightarrow> bool" where
  "IsStreamingRequest key \<longleftrightarrow> IsHLSChunk key \<or> IsDASHChunk key \<or> keyHasExt key ''.m3u8'' \<or> keyHasExt key ''.mpd''"

definition IsManifestRequest :: "string \<Rightarrow> bool" where
  "IsManifestRequest key \<longleftrightarrow> keyHasExt key ''.m3u8'' \<or> keyHasExt key ''.mpd''"

text \<open>A component that names nothing or steps out of its directory.\<close>

definition bad_part :: "string \<Rightarrow> bool" where
  "bad_part p \<longleftrightarrow> p = [] \<or> p = ''.'' \<or> p = ''..''"

definition validateStreamKey :: "string \<Rightarrow> string" where
  "validateStreamKey key =
    (let key = replace_char (CHR 0x5C) (CHR ''/'') (trim_space key)
     in join_with (CHR ''/'') (filter (\<lambda>p. \<not> bad_part p) (map trim_space (split_on (CHR ''/'') key))))"

fun first_number :: "string list \<Rightarrow> int" where
  "first_number [] = -1"
| "first_number (p # ps) = (case parse_int p of Some n \<Rightarrow> n | None \<Rightarrow> first_number ps)"

definition extractSeqNum :: "string \<Rightarrow> int" where
  "extractSeqNum name = first_number (rev (split_on (CHR ''_'') name))"

definition InferStreamFromChunkKey :: "string \<Rightarrow> (string \<times> int) option" where
  "InferStreamFromChunkKey key =
    (let lastSlash = last_index key (CHR ''/'') in
     if lastSlash < 0 then None
     else
       (let streamKey = validateStreamKey (take (nat lastSlash) key) in
        if streamKey = [] then None
        else
          (let filename = drop (nat lastSlash + 1) key;
               dotIdx = last_index filename (CHR ''.'');
               filename = (if dotIdx \<ge> 0 then take (nat dotIdx) filename else filename);
               seqNum = extractSeqNum filename
           in if seqNum \<ge> 0 then Some (streamKey, seqNum) else None)))"

datatype stream_type = HLS | DASH | OtherStream string

definition IdentifyStreamType :: "string \<Rightarrow> string \<Rightarrow> stream_type" where
  "IdentifyStreamType key contentType =
    (if suffix ''.m3u8'' (to_lower key) then HLS
     else if suffix ''.mpd'' (to_lower key) then DASH
     else if sublist ''application/vnd.apple.mpegurl'' (to_lower contentType)
          \<or> sublist ''application/x-mpegurl'' (to_lower contentType) then HLS
     else if sublist ''application/dash+xml'' (to_lower contentType) then DASH
     else OtherStream [])"

section \<open>Chunk keys\<close>

lemma trim_prefix_append [simp]: "trim_prefix p (p @ s) = s"
  by (simp add: trim_prefix_def)

lemma Parse_ChunkCacheKey:
  assumes "is_i64 n"
  shows "ParseChunkKey (ChunkCacheKey sk n) = Some (sk, n)"
proof -
  have "CHR ''/'' \<notin> set (format_int_pad 10 n)"
    using format_int_pad_chars [of _ 10 n] digit_not by fastforce
  then have idx: "last_index_str (sk @ ''/seq_'' @ format_int_pad 10 n) ''/seq_'' = int (length sk)"
    using last_index_str_append [of "CHR ''/''" "''seq_''" "format_int_pad 10 n" sk] by simp
  have "prefix ''stream/'' (ChunkCacheKey sk n)"
    "trim_prefix ''stream/'' (ChunkCacheKey sk n) = sk @ ''/seq_'' @ format_int_pad 10 n"
    using trim_prefix_append [of "''stream/''"] by (simp_all add: ChunkCacheKey_def)
  then show ?thesis
    using idx assms by (simp add: ParseChunkKey_def Let_def)
qed

text \<open>
  The cache key of a chunk parses back to its stream and sequence number, for
  every stream key and every \<open>int64\<close>; so two chunks never share a cache key.
\<close>

theorem ChunkCacheKey_roundtrip:
  assumes "is_i64 n"
  shows "ParseChunkKey (ChunkCacheKey sk n) = Some (sk, n) \<and>
    (\<forall>sk' n'. is_i64 n' \<longrightarrow> ChunkCacheKey sk' n' = ChunkCacheKey sk n \<longrightarrow> sk' = sk \<and> n' = n)"
  using assms Parse_ChunkCacheKey by (metis option.inject prod.inject)

theorem ChunkCacheKey_roundtrip_witness:
  "ChunkCacheKey ''live/a'' 42 = ''stream/live/a/seq_0000000042'' \<and>
   ParseChunkKey (ChunkCacheKey ''live/a'' 42) = Some (''live/a'', 42)"
proof -
  have "ChunkCacheKey ''live/a'' 42 = ''stream/live/a/seq_0000000042''"
    by code_simp
  moreover have "is_i64 42" by (simp add: is_i64_def)
  ultimately show ?thesis
    using ChunkCacheKey_roundtrip [of 42 "''live/a''", THEN conjunct1] by blast
qed

lemma ChunkCacheKey_inj: "\<lbrakk>is_i64 n; is_i64 n'; ChunkCacheKey sk n = ChunkCacheKey sk' n'\<rbrakk> \<Longrightarrow> sk = sk' \<and> n = n'"
  using Parse_ChunkCacheKey by (metis option.inject prod.inject)

section \<open>Stream keys\<close>

text \<open>What a cleaned key looks like: empty, or components that are trimmed, name
  something, do not step up, and contain no separator of either kind.\<close>

definition clean_part :: "string \<Rightarrow> bool" where
  "clean_part p \<longleftrightarrow> trimmed p \<and> \<not> bad_part p \<and> CHR ''/'' \<notin> set p \<and> CHR 0x5C \<notin> set p"

definition key_parts :: "string \<Rightarrow> string list" where
  "key_parts key = filter (\<lambda>p. \<not> bad_part p)
    (map trim_space (split_on (CHR ''/'') (replace_char (CHR 0x5C) (CHR ''/'') (trim_space key))))"

lemma validateStreamKey_parts: "validateStreamKey key = join_with (CHR ''/'') (key_parts key)"
  by (simp add: validateStreamKey_def key_parts_def Let_def)

lemma split_on_chars: "p \<in> set (split_on c s) \<Longrightarrow> set p \<subseteq> set s"
proof (induction c s arbitrary: p rule: split_on.induct)
  case (2 c x xs)
  then show ?case by (fastforce split: if_splits list.splits)
qed simp

lemma key_parts_clean: "p \<in> set (key_parts key) \<Longrightarrow> clean_part p"
proof -
  assume "p \<in> set (key_parts key)"
  then obtain q where q: "q \<in> set (split_on (CHR ''/'') (replace_char (CHR 0x5C) (CHR ''/'') (trim_space key)))"
    "p = trim_space q" "\<not> bad_part p"
    by (auto simp: key_parts_def)
  have "CHR ''/'' \<notin> set q" using q(1) by (rule split_on_parts)
  moreover have "CHR 0x5C \<notin> set q"
    using split_on_chars [OF q(1)] by (auto simp: replace_char_def)
  ultimately show ?thesis
    using q trim_space_subset [of q] by (auto simp: clean_part_def)
qed

lemma key_parts_join:
  assumes "\<forall>p\<in>set ps. clean_part p"
  shows "key_parts (join_with (CHR ''/'') ps) = ps"
proof (cases "ps = []")
  case True
  then show ?thesis by (simp add: key_parts_def replace_char_def bad_part_def)
next
  case False
  have "trimmed (join_with (CHR ''/'') ps)"
    using assms by (simp add: clean_part_def trimmed_join)
  moreover have "CHR 0x5C \<notin> set (join_with (CHR ''/'') ps)"
    using assms join_with_set [of "CHR ''/''" ps] by (auto simp: clean_part_def)
  then have "replace_char (CHR 0x5C) (CHR ''/'') (join_with (CHR ''/'') ps) = join_with (CHR ''/'') ps"
    unfolding replace_char_def by (intro map_idI) auto
  moreover have "split_on (CHR ''/'') (join_with (CHR ''/'') ps) = ps"
    using False assms by (intro split_join) (auto simp: clean_part_def)
  moreover have "map trim_space ps = ps" "filter (\<lambda>p. \<not> bad_part p) ps = ps"
    using assms by (auto simp: clean_part_def trim_space_id intro: map_idI)
  ultimately show ?thesis by (simp add: key_parts_def trim_space_id)
qed

lemma validateStreamKey_idem: "validateStreamKey (validateStreamKey key) = validateStreamKey key"
  using key_parts_clean key_parts_join [of "key_parts key"] by (simp add: validateStreamKey_parts)

text \<open>
  A cleaned stream key is a path of components that are non-empty, trimmed, none
  of them \<open>.\<close> or \<open>..\<close>, with no backslash left, whatever the input; and cleaning
  again changes nothing.
\<close>

theorem validateStreamKey_safe:
  "\<exists>ps. validateStreamKey key = join_with (CHR ''/'') ps \<and> (\<forall>p. p \<in> set ps \<longrightarrow> clean_part p)
     \<and> (validateStreamKey key \<noteq> [] \<longrightarrow> split_on (CHR ''/'') (validateStreamKey key) = ps)
     \<and> validateStreamKey (validateStreamKey key) = validateStreamKey key"
proof (intro exI conjI)
  show "validateStreamKey key = join_with (CHR ''/'') (key_parts key)"
    by (rule validateStreamKey_parts)
  show "\<forall>p. p \<in> set (key_parts key) \<longrightarrow> clean_part p"
    using key_parts_clean by blast
  show "validateStreamKey (validateStreamKey key) = validateStreamKey key"
    by (rule validateStreamKey_idem)
  show "validateStreamKey key \<noteq> [] \<longrightarrow> split_on (CHR ''/'') (validateStreamKey key) = key_parts key"
    using split_join [of "key_parts key" "CHR ''/''"] key_parts_clean
    by (cases "key_parts key = []") (auto simp: validateStreamKey_parts clean_part_def)
qed

theorem validateStreamKey_safe_witness:
  "\<exists>ps. validateStreamKey ''a/../b'' = join_with (CHR ''/'') ps \<and> (\<forall>p. p \<in> set ps \<longrightarrow> clean_part p)"
  using validateStreamKey_safe [of "''a/../b''"] by blast

lemma InferStream_clean:
  "InferStreamFromChunkKey key = Some (sk, n) \<Longrightarrow> sk \<noteq> [] \<and> validateStreamKey sk = sk \<and> 0 \<le> n \<and> is_i64 n"
proof -
  assume inf: "InferStreamFromChunkKey key = Some (sk, n)"
  obtain raw name where sk: "sk = validateStreamKey raw" "sk \<noteq> []" "n = extractSeqNum name" "0 \<le> n"
    using inf by (auto simp: InferStreamFromChunkKey_def Let_def split: if_splits)
  have "first_number ps = -1 \<or> is_i64 (first_number ps)" for ps
    by (induction ps) (auto simp: parse_int_i64 split: option.splits)
  with sk have "is_i64 n"
    by (metis extractSeqNum_def neg_0_le_iff_le not_one_le_zero)
  then show ?thesis
    using sk validateStreamKey_idem by simp
qed

end
