(* ===== verification/Streaming_Strategy.thy ===== *)
theory Streaming_Strategy
  imports Streaming_Keys Go_Float
begin

text \<open>
  \<open>StreamingStrategy\<close> of \<open>internal/streaming/strategy.go\<close>: which node has which
  stream in its window, by stream type.  A report is idempotent and a removal undoes
  it; the set of nodes computed once per dispatch is the one that \<open>HasStream\<close> gives
  node by node, and it agrees with the score of a node.
\<close>

section \<open>Definitions\<close>

record streaming_strategy =
  ss_nodeStreams :: "(string, (stream_type, string list) gomap) gomap"
  ss_enabled :: "bool option"

text \<open>\<open>ss_enabled\<close> is \<open>cfg.Enabled\<close>, \<^const>\<open>None\<close> for a nil configuration.\<close>

definition NewStreamingStrategy :: "bool option \<Rightarrow> streaming_strategy" where
  "NewStreamingStrategy cfg = \<lparr>ss_nodeStreams = [], ss_enabled = cfg\<rparr>"

definition streams_of :: "streaming_strategy \<Rightarrow> string \<Rightarrow> stream_type \<Rightarrow> string list" where
  "streams_of ss node st =
    (case gm_get (ss_nodeStreams ss) node of None \<Rightarrow> []
     | Some m \<Rightarrow> (case gm_get m st of None \<Rightarrow> [] | Some l \<Rightarrow> l))"

definition ReportStream :: "streaming_strategy \<Rightarrow> string \<Rightarrow> string \<Rightarrow> stream_type \<Rightarrow> streaming_strategy" where
  "ReportStream ss nodeID streamKey st =
    (let m = (case gm_get (ss_nodeStreams ss) nodeID of None \<Rightarrow> [] | Some m \<Rightarrow> m);
         streams = (case gm_get m st of None \<Rightarrow> [] | Some l \<Rightarrow> l);
         m' = (if streamKey \<in> set streams then m else gm_set st (streams @ [streamKey]) m)
     in ss\<lparr>ss_nodeStreams := gm_set nodeID m' (ss_nodeStreams ss)\<rparr>)"

definition RemoveStream :: "streaming_strategy \<Rightarrow> string \<Rightarrow> string \<Rightarrow> stream_type \<Rightarrow> streaming_strategy" where
  "RemoveStream ss nodeID streamKey st =
    (case gm_get (ss_nodeStreams ss) nodeID of None \<Rightarrow> ss
     | Some m \<Rightarrow> (case gm_get m st of None \<Rightarrow> ss
        | Some streams \<Rightarrow>
            if streamKey \<in> set streams
            then ss\<lparr>ss_nodeStreams := gm_set nodeID (gm_set st (remove1 streamKey streams) m) (ss_nodeStreams ss)\<rparr>
            else ss))"

definition StreamScore :: "streaming_strategy \<Rightarrow> string \<Rightarrow> string \<Rightarrow> float64" where
  "StreamScore ss nodeID key =
    (if ss_enabled ss \<noteq> Some True then 0
     else case InferStreamFromChunkKey key of None \<Rightarrow> 0
      | Some (streamKey, _) \<Rightarrow>
          (case gm_get (ss_nodeStreams ss) nodeID of None \<Rightarrow> 0
           | Some _ \<Rightarrow>
              if streamKey \<in> set (streams_of ss nodeID HLS) then 20
              else if streamKey \<in> set (streams_of ss nodeID DASH) then 20
              else 0))"

definition HasStream :: "streaming_strategy \<Rightarrow> string \<Rightarrow> string \<Rightarrow> bool" where
  "HasStream ss nodeID streamKey =
    (case gm_get (ss_nodeStreams ss) nodeID of None \<Rightarrow> False
     | Some m \<Rightarrow> list_ex (\<lambda>(st, streams). streamKey \<in> set streams) m)"

fun nodes_with_stream :: "string \<Rightarrow> (string, (stream_type, string list) gomap) gomap \<Rightarrow> (string, bool) gomap" where
  "nodes_with_stream streamKey [] = []"
| "nodes_with_stream streamKey ((n, m) # rest) =
    (if list_ex (\<lambda>(st, streams). streamKey \<in> set streams) m
     then gm_set n True (nodes_with_stream streamKey rest)
     else nodes_with_stream streamKey rest)"

definition FindNodesWithStream :: "streaming_strategy \<Rightarrow> string \<Rightarrow> (string, bool) gomap" where
  "FindNodesWithStream ss streamKey =
    (if ss_enabled ss \<noteq> Some True then [] else nodes_with_stream streamKey (ss_nodeStreams ss))"

section \<open>Invariant\<close>

definition streams_ok :: "(stream_type, string list) gomap \<Rightarrow> bool" where
  "streams_ok m \<longleftrightarrow> gm_wf m \<and> (\<forall>st. case gm_get m st of None \<Rightarrow> True | Some l \<Rightarrow> distinct l)"

definition strategy_wf :: "streaming_strategy \<Rightarrow> bool" where
  "strategy_wf ss \<longleftrightarrow> gm_wf (ss_nodeStreams ss) \<and>
     (\<forall>n. case gm_get (ss_nodeStreams ss) n of None \<Rightarrow> True | Some m \<Rightarrow> streams_ok m)"

text \<open>The types that the edges report.\<close>

definition streams_typed :: "(stream_type, string list) gomap \<Rightarrow> bool" where
  "streams_typed m \<longleftrightarrow> (\<forall>st. gm_get m st \<noteq> None \<longrightarrow> st = HLS \<or> st = DASH)"

definition strategy_typed :: "streaming_strategy \<Rightarrow> bool" where
  "strategy_typed ss \<longleftrightarrow>
     (\<forall>n. case gm_get (ss_nodeStreams ss) n of None \<Rightarrow> True | Some m \<Rightarrow> streams_typed m)"

lemma strategy_wf_node: "\<lbrakk>strategy_wf ss; gm_get (ss_nodeStreams ss) n = Some m\<rbrakk> \<Longrightarrow> streams_ok m"
  unfolding strategy_wf_def by (metis option.simps(5))

lemma streams_ok_distinct: "\<lbrakk>streams_ok m; gm_get m st = Some l\<rbrakk> \<Longrightarrow> distinct l"
  unfolding streams_ok_def by (metis option.simps(5))

lemma streams_ok_set: "\<lbrakk>streams_ok m; distinct l\<rbrakk> \<Longrightarrow> streams_ok (gm_set t l m)"
  by (simp add: streams_ok_def)

lemma strategy_wf_New [inv_intros]: "strategy_wf (NewStreamingStrategy cfg)"
  by (simp add: strategy_wf_def NewStreamingStrategy_def)

lemma strategy_wf_setI:
  "\<lbrakk>strategy_wf ss; streams_ok m\<rbrakk> \<Longrightarrow> strategy_wf (ss\<lparr>ss_nodeStreams := gm_set n m (ss_nodeStreams ss)\<rparr>)"
  by (simp add: strategy_wf_def)

lemma strategy_wf_Report [inv_intros]:
  assumes wf: "strategy_wf ss"
  shows "strategy_wf (ReportStream ss n k t)"
proof -
  define m where "m = (case gm_get (ss_nodeStreams ss) n of None \<Rightarrow> [] | Some m \<Rightarrow> m)"
  define l where "l = (case gm_get m t of None \<Rightarrow> [] | Some l \<Rightarrow> l)"
  have m: "streams_ok m"
    using strategy_wf_node [OF wf, of n] by (simp add: m_def streams_ok_def split: option.splits)
  then have "distinct l"
    using streams_ok_distinct by (simp add: l_def split: option.splits)
  with m show ?thesis
    unfolding ReportStream_def Let_def m_def [symmetric] l_def [symmetric]
    by (auto intro!: strategy_wf_setI [OF wf] streams_ok_set)
qed

lemma strategy_wf_Remove [inv_intros]:
  assumes wf: "strategy_wf ss"
  shows "strategy_wf (RemoveStream ss n k t)"
proof -
  have "strategy_wf (ss\<lparr>ss_nodeStreams := gm_set n (gm_set t (remove1 k l) m) (ss_nodeStreams ss)\<rparr>)"
    if "gm_get (ss_nodeStreams ss) n = Some m" "gm_get m t = Some l" for m l
    using strategy_wf_node [OF wf that(1)] streams_ok_distinct [OF _ that(2)]
    by (intro strategy_wf_setI [OF wf] streams_ok_set) auto
  then show ?thesis using wf by (simp add: RemoveStream_def split: option.splits)
qed

lemma strategy_typed_Report:
  assumes "strategy_typed ss" "t = HLS \<or> t = DASH"
  shows "strategy_typed (ReportStream ss n k t)"
proof -
  define m where "m = (case gm_get (ss_nodeStreams ss) n of None \<Rightarrow> [] | Some m \<Rightarrow> m)"
  have m: "streams_typed m"
    using assms(1) [unfolded strategy_typed_def, rule_format, of n]
    by (simp add: m_def streams_typed_def split: option.splits)
  moreover have "streams_typed (gm_set t l m)" for l
    using m assms(2) by (auto simp: streams_typed_def)
  ultimately show ?thesis
    using assms(1) unfolding strategy_typed_def ReportStream_def Let_def m_def [symmetric] by simp
qed

section \<open>Lookups agree\<close>

lemma gm_list_ex: "gm_wf m \<Longrightarrow> list_ex (\<lambda>(st, l). k \<in> set l) m \<longleftrightarrow> (\<exists>st l. gm_get m st = Some l \<and> k \<in> set l)"
  by (auto simp: list_ex_iff gm_get_in)

lemma HasStream_iff:
  "strategy_wf ss \<Longrightarrow> HasStream ss n k \<longleftrightarrow> (\<exists>st. k \<in> set (streams_of ss n st))"
proof (cases "gm_get (ss_nodeStreams ss) n")
  case (Some m)
  assume "strategy_wf ss"
  with Some have "gm_wf m" using strategy_wf_node streams_ok_def by blast
  moreover have "k \<in> set (streams_of ss n st) \<longleftrightarrow> (\<exists>l. gm_get m st = Some l \<and> k \<in> set l)" for st
    using Some by (cases "gm_get m st") (simp_all add: streams_of_def)
  ultimately show ?thesis
    using Some by (simp add: HasStream_def gm_list_ex)
qed (simp add: HasStream_def streams_of_def)

lemma nodes_with_stream_get:
  "gm_wf m \<Longrightarrow> gm_get (nodes_with_stream k m) n = Some True \<longleftrightarrow>
    (\<exists>s. gm_get m n = Some s \<and> list_ex (\<lambda>(st, streams). k \<in> set streams) s)"
proof (induction m)
  case (Cons p m)
  obtain a s where p: "p = (a, s)" by fastforce
  with Cons have "gm_get m a = None" "gm_wf m"
    by (auto simp: gm_wf_def map_of_eq_None_iff)
  with Cons p show ?case by auto
qed simp

lemma FindNodesWithStream_HasStream:
  "\<lbrakk>strategy_wf ss; ss_enabled ss = Some True\<rbrakk> \<Longrightarrow>
    gm_get (FindNodesWithStream ss k) n = Some True \<longleftrightarrow> HasStream ss n k"
  by (auto simp: FindNodesWithStream_def HasStream_def strategy_wf_def nodes_with_stream_get split: option.splits)

lemma streams_of_typed:
  assumes "strategy_typed ss" "k \<in> set (streams_of ss n st)"
  shows "st = HLS \<or> st = DASH"
proof (cases "gm_get (ss_nodeStreams ss) n")
  case None
  then show ?thesis using assms(2) by (simp add: streams_of_def)
next
  case (Some m)
  then have "gm_get m st \<noteq> None"
    using assms(2) by (cases "gm_get m st") (simp_all add: streams_of_def)
  moreover have "streams_typed m"
    using assms(1) [unfolded strategy_typed_def, rule_format, of n] Some by simp
  ultimately show ?thesis unfolding streams_typed_def by blast
qed

lemma StreamScore_FindNodes:
  assumes "strategy_wf ss" "strategy_typed ss" "InferStreamFromChunkKey key = Some (k, i)"
  shows "StreamScore ss n key = (if gm_get (FindNodesWithStream ss k) n = Some True then 20 else 0)"
proof (cases "ss_enabled ss = Some True")
  case True
  have "HasStream ss n k \<longleftrightarrow> k \<in> set (streams_of ss n HLS) \<or> k \<in> set (streams_of ss n DASH)"
    using HasStream_iff [OF assms(1)] streams_of_typed [OF assms(2)] by blast
  moreover have "streams_of ss n st = []" if "gm_get (ss_nodeStreams ss) n = None" for st
    using that by (simp add: streams_of_def)
  ultimately show ?thesis
    using FindNodesWithStream_HasStream [OF assms(1) True] True assms(3)
    by (cases "gm_get (ss_nodeStreams ss) n") (auto simp: StreamScore_def)
qed (simp add: StreamScore_def FindNodesWithStream_def)

lemma StreamScore_not_chunk: "InferStreamFromChunkKey key = None \<Longrightarrow> StreamScore ss n key = 0"
  by (simp add: StreamScore_def)

section \<open>Report and remove\<close>

lemma streams_of_Report:
  "set (streams_of (ReportStream ss n k t) n' t') =
    (if n' = n \<and> t' = t then insert k (set (streams_of ss n t)) else set (streams_of ss n' t'))"
  by (auto simp: streams_of_def ReportStream_def Let_def split: option.splits)

lemma streams_of_Remove:
  assumes "strategy_wf ss"
  shows "set (streams_of (RemoveStream ss n k t) n' t') =
    (if n' = n \<and> t' = t then set (streams_of ss n t) - {k} else set (streams_of ss n' t'))"
proof (cases "gm_get (ss_nodeStreams ss) n")
  case (Some m)
  show ?thesis
  proof (cases "gm_get m t")
    case (Some l)
    then have "set (remove1 k l) = set l - {k}"
      using strategy_wf_node [OF assms \<open>gm_get (ss_nodeStreams ss) n = Some m\<close>] streams_ok_distinct
      by (simp add: set_remove1_eq)
    with Some \<open>gm_get (ss_nodeStreams ss) n = Some m\<close> show ?thesis
      by (auto simp: streams_of_def RemoveStream_def)
  qed (use Some in \<open>simp add: streams_of_def RemoveStream_def\<close>)
qed (simp add: streams_of_def RemoveStream_def)


definition sample_strategy :: streaming_strategy where
  "sample_strategy = ReportStream (NewStreamingStrategy (Some True)) ''n1'' ''live/a'' HLS"


end
