(* ===== verification/Go_Crypto.thy ===== *)
theory Go_Crypto
  imports Go_Binary
begin

text \<open>
  Go's \<open>crypto/sha256\<close>, \<open>crypto/hmac\<close> and \<open>encoding/hex\<close>: SHA-256 (FIPS 180-4) on bytes,
  the keyed hash of RFC 2104 over it, and lower-case hexadecimal.  The theorems about
  tokens and signatures use only that these are functions of their input.
\<close>

unbundle bit_operations_syntax

section \<open>SHA-256\<close>

definition sha_K :: "32 word list" where
  "sha_K = [
    1116352408, 1899447441, 3049323471, 3921009573, 961987163, 1508970993, 2453635748,
    2870763221, 3624381080, 310598401, 607225278, 1426881987, 1925078388, 2162078206,
    2614888103, 3248222580, 3835390401, 4022224774, 264347078, 604807628, 770255983, 1249150122,
    1555081692, 1996064986, 2554220882, 2821834349, 2952996808, 3210313671, 3336571891,
    3584528711, 113926993, 338241895, 666307205, 773529912, 1294757372, 1396182291, 1695183700,
    1986661051, 2177026350, 2456956037, 2730485921, 2820302411, 3259730800, 3345764771,
    3516065817, 3600352804, 4094571909, 275423344, 430227734, 506948616, 659060556, 883997877,
    958139571, 1322822218, 1537002063, 1747873779, 1955562222, 2024104815, 2227730452,
    2361852424, 2428436474, 2756734187, 3204031479, 3329325298]"

definition sha_H0 :: "32 word list" where
  "sha_H0 = [
    1779033703, 3144134277, 1013904242, 2773480762, 1359893119, 2600822924, 528734635,
    1541459225]"

definition sha_pad :: "byte list \<Rightarrow> byte list" where
  "sha_pad m = m @ [0x80] @ replicate ((119 - length m mod 64) mod 64) 0 @ rev (le_digits 8 (8 * length m))"

fun words_of :: "byte list \<Rightarrow> 32 word list" where
  "words_of (a # b # c # d # rest) = be32 [a, b, c, d] # words_of rest"
| "words_of _ = []"

definition sha_s0 :: "32 word \<Rightarrow> 32 word" where
  "sha_s0 x = word_rotr 7 x XOR word_rotr 18 x XOR drop_bit 3 x"

definition sha_s1 :: "32 word \<Rightarrow> 32 word" where
  "sha_s1 x = word_rotr 17 x XOR word_rotr 19 x XOR drop_bit 10 x"

text \<open>The message schedule, newest word first.\<close>

fun sha_schedule :: "nat \<Rightarrow> 32 word list \<Rightarrow> 32 word list" where
  "sha_schedule 0 w = w"
| "sha_schedule (Suc n) w = sha_schedule n ((sha_s1 (w ! 1) + w ! 6 + sha_s0 (w ! 14) + w ! 15) # w)"

fun sha_round :: "32 word list \<Rightarrow> 32 word \<times> 32 word \<Rightarrow> 32 word list" where
  "sha_round [a, b, c, d, e, f, g, h] (k, w) =
    (let s1 = word_rotr 6 e XOR word_rotr 11 e XOR word_rotr 25 e;
         ch = (e AND f) XOR (NOT e AND g);
         t1 = h + s1 + ch + k + w;
         s0 = word_rotr 2 a XOR word_rotr 13 a XOR word_rotr 22 a;
         maj = (a AND b) XOR (a AND c) XOR (b AND c);
         t2 = s0 + maj
     in [t1 + t2, a, b, c, d + t1, e, f, g])"
| "sha_round st _ = st"

definition sha_block :: "32 word list \<Rightarrow> byte list \<Rightarrow> 32 word list" where
  "sha_block h block =
    (let w = rev (sha_schedule 48 (rev (words_of block)))
     in map2 (+) h (foldl sha_round h (zip sha_K w)))"

fun chunks64 :: "nat \<Rightarrow> byte list \<Rightarrow> byte list list" where
  "chunks64 0 bs = []"
| "chunks64 (Suc n) bs = take 64 bs # chunks64 n (drop 64 bs)"

definition sha256 :: "byte list \<Rightarrow> byte list" where
  "sha256 m = (let p = sha_pad m in
    concat (map put_be32 (foldl sha_block sha_H0 (chunks64 (length p div 64) p))))"

section \<open>HMAC\<close>

definition hmac_sha256 :: "byte list \<Rightarrow> byte list \<Rightarrow> byte list" where
  "hmac_sha256 key m =
    (let k0 = (if length key > 64 then sha256 key else key);
         k = k0 @ replicate (64 - length k0) 0
     in sha256 (map (\<lambda>b. b XOR 0x5C) k @ sha256 (map (\<lambda>b. b XOR 0x36) k @ m)))"

section \<open>Hexadecimal\<close>

definition hex_digit :: "nat \<Rightarrow> char" where
  "hex_digit d = (if d < 10 then char_of (48 + d) else char_of (87 + d))"

definition hex_encode :: "byte list \<Rightarrow> string" where
  "hex_encode bs = concat (map (\<lambda>b. [hex_digit (unat b div 16), hex_digit (unat b mod 16)]) bs)"

section \<open>Lengths\<close>

lemma length_sha_round: "length st = 8 \<Longrightarrow> length (sha_round st kw) = 8"
  by (induction st kw rule: sha_round.induct) (auto simp: Let_def)

lemma length_sha_rounds: "length st = 8 \<Longrightarrow> length (foldl sha_round st kws) = 8"
  by (induction kws arbitrary: st) (auto simp: length_sha_round)

lemma length_sha_blocks: "length h = 8 \<Longrightarrow> length (foldl sha_block h bs) = 8"
  by (induction bs arbitrary: h) (auto simp: sha_block_def Let_def length_sha_rounds)

lemma length_put_words: "length (concat (map put_be32 ws)) = 4 * length ws"
  by (induction ws) (auto simp: put_be32_def)

lemma length_sha256 [simp]: "length (sha256 m) = 32"
  unfolding sha256_def Let_def length_put_words by (subst length_sha_blocks) (simp_all add: sha_H0_def)

lemma length_hmac_sha256 [simp]: "length (hmac_sha256 key m) = 32"
  by (simp add: hmac_sha256_def Let_def)

lemma hex_encode_Nil [simp]: "hex_encode bs = [] \<longleftrightarrow> bs = []"
  by (cases bs) (auto simp: hex_encode_def)

end
