(* ===== verification/Go_Json.thy ===== *)
theory Go_Json
  imports Go_Strings Go_Crypto
begin

text \<open>
  Go's \<open>encoding/json\<close> as the program uses it: the quoting of strings that
  \<open>json.Marshal\<close> does (HTML characters and invalid UTF-8 escaped), and the reader of
  JSON texts behind \<open>json.Unmarshal\<close>, which yields a tree of values.  Quoting and
  reading a string are inverse on valid UTF-8, and so are printing and reading an
  integer.
\<close>

section \<open>UTF-8\<close>

definition between :: "nat \<Rightarrow> nat \<Rightarrow> char \<Rightarrow> bool" where
  "between lo hi c \<longleftrightarrow> lo \<le> of_char c \<and> of_char c \<le> hi"

text \<open>The two-, three- and four-byte sequences, and the length of the valid sequence at
  the head of a string, 0 if there is none.\<close>

definition rune2 :: "char \<Rightarrow> char \<Rightarrow> bool" where
  "rune2 c c1 \<longleftrightarrow> between 0xC2 0xDF c \<and> between 0x80 0xBF c1"

definition rune3 :: "char \<Rightarrow> char \<Rightarrow> char \<Rightarrow> bool" where
  "rune3 c c1 c2 \<longleftrightarrow> between 0xE0 0xEF c
     \<and> between (if c = CHR 0xE0 then 0xA0 else 0x80) (if c = CHR 0xED then 0x9F else 0xBF) c1 \<and> between 0x80 0xBF c2"

definition rune4 :: "char \<Rightarrow> char \<Rightarrow> char \<Rightarrow> char \<Rightarrow> bool" where
  "rune4 c c1 c2 c3 \<longleftrightarrow> between 0xF0 0xF4 c
     \<and> between (if c = CHR 0xF0 then 0x90 else 0x80) (if c = CHR 0xF4 then 0x8F else 0xBF) c1
     \<and> between 0x80 0xBF c2 \<and> between 0x80 0xBF c3"

definition utf8_len :: "string \<Rightarrow> nat" where
  "utf8_len s =
    (if s = [] then 0
     else if (of_char (s ! 0) :: nat) < 128 then 1
     else if 2 \<le> length s \<and> rune2 (s ! 0) (s ! 1) then 2
     else if 3 \<le> length s \<and> rune3 (s ! 0) (s ! 1) (s ! 2) then 3
     else if 4 \<le> length s \<and> rune4 (s ! 0) (s ! 1) (s ! 2) (s ! 3) then 4
     else 0)"

lemma rune_disjoint:
  "rune2 c c1 \<Longrightarrow> \<not> rune3 c d1 d2" "rune2 c c1 \<Longrightarrow> \<not> rune4 c d1 d2 d3" "rune3 c c1 c2 \<Longrightarrow> \<not> rune4 c d1 d2 d3"
  by (auto simp: rune2_def rune3_def rune4_def between_def)

function valid_utf8 :: "string \<Rightarrow> bool" where
  "valid_utf8 s = (if s = [] then True else if utf8_len s = 0 then False else valid_utf8 (drop (utf8_len s) s))"
  by pat_completeness auto
termination
  by (relation "measure length") auto

declare valid_utf8.simps [simp del]

text \<open>\<open>utf8.AppendRune\<close> of a code point that is not a surrogate.\<close>

definition utf8_encode :: "nat \<Rightarrow> string" where
  "utf8_encode r =
    (if r < 0x80 then [char_of r]
     else if r < 0x800 then [char_of (0xC0 + r div 64), char_of (0x80 + r mod 64)]
     else if r < 0x10000 then
       [char_of (0xE0 + r div 4096), char_of (0x80 + r div 64 mod 64), char_of (0x80 + r mod 64)]
     else
       [char_of (0xF0 + r div 262144), char_of (0x80 + r div 4096 mod 64),
        char_of (0x80 + r div 64 mod 64), char_of (0x80 + r mod 64)])"

section \<open>Writing strings\<close>

definition esc_ascii :: "char \<Rightarrow> string" where
  "esc_ascii c =
    (let n = of_char c :: nat in
     if c = CHR 0x22 \<or> c = CHR 0x5C then [CHR 0x5C, c]
     else if n = 8 then [CHR 0x5C, CHR ''b'']
     else if n = 12 then [CHR 0x5C, CHR ''f'']
     else if n = 10 then [CHR 0x5C, CHR ''n'']
     else if n = 13 then [CHR 0x5C, CHR ''r'']
     else if n = 9 then [CHR 0x5C, CHR ''t'']
     else if n < 32 \<or> c = CHR ''<'' \<or> c = CHR ''>'' \<or> c = CHR ''&''
       then [CHR 0x5C, CHR ''u'', CHR ''0'', CHR ''0'', hex_digit (n div 16), hex_digit (n mod 16)]
     else [c])"

function json_escape :: "string \<Rightarrow> string" where
  "json_escape s =
    (case s of [] \<Rightarrow> []
     | c # cs \<Rightarrow>
        if (of_char c :: nat) < 128 then esc_ascii c @ json_escape cs
        else if utf8_len s = 0 then CHR 0x5C # ''ufffd'' @ json_escape cs
        else if take 3 s = [CHR 0xE2, CHR 0x80, CHR 0xA8] then CHR 0x5C # ''u2028'' @ json_escape (drop 3 s)
        else if take 3 s = [CHR 0xE2, CHR 0x80, CHR 0xA9] then CHR 0x5C # ''u2029'' @ json_escape (drop 3 s)
        else take (utf8_len s) s @ json_escape (drop (utf8_len s) s))"
  by pat_completeness auto
termination
  by (relation "measure length") auto

declare json_escape.simps [simp del]

definition json_quote :: "string \<Rightarrow> string" where
  "json_quote s = [CHR 0x22] @ json_escape s @ [CHR 0x22]"

section \<open>Reading\<close>

datatype json =
    JNull | JBool bool | JNum string | JStr string | JArr "json list" | JObj "(string \<times> json) list"

definition is_ws :: "char \<Rightarrow> bool" where
  "is_ws c \<longleftrightarrow> c = CHR 0x20 \<or> c = CHR 0x09 \<or> c = CHR 0x0A \<or> c = CHR 0x0D"

definition skip_ws :: "string \<Rightarrow> string" where
  "skip_ws s = dropWhile is_ws s"

definition hex_val :: "char \<Rightarrow> nat option" where
  "hex_val c =
    (let n = of_char c :: nat in
     if 48 \<le> n \<and> n \<le> 57 then Some (n - 48)
     else if 97 \<le> n \<and> n \<le> 102 then Some (n - 87)
     else if 65 \<le> n \<and> n \<le> 70 then Some (n - 55)
     else None)"

text \<open>The code unit of \<open>\\uXXXX\<close>, given the four characters after the \<open>u\<close>.\<close>

definition hex4 :: "string \<Rightarrow> nat option" where
  "hex4 s = (case s of a # b # c # d # _ \<Rightarrow>
      (case (hex_val a, hex_val b, hex_val c, hex_val d) of
         (Some p, Some q, Some r, Some t) \<Rightarrow> Some (((p * 16 + q) * 16 + r) * 16 + t)
       | _ \<Rightarrow> None)
    | _ \<Rightarrow> None)"

definition simple_escape :: "char \<Rightarrow> char option" where
  "simple_escape c =
    (if c = CHR 0x22 \<or> c = CHR 0x5C \<or> c = CHR ''/'' then Some c
     else if c = CHR ''b'' then Some (CHR 0x08)
     else if c = CHR ''f'' then Some (CHR 0x0C)
     else if c = CHR ''n'' then Some (CHR 0x0A)
     else if c = CHR ''r'' then Some (CHR 0x0D)
     else if c = CHR ''t'' then Some (CHR 0x09)
     else None)"

definition replacement :: string where
  "replacement = [CHR 0xEF, CHR 0xBF, CHR 0xBD]"

text \<open>The rune of a unicode escape whose digits start the string, and how much of the
  string it takes: a surrogate takes its partner with it, or is replaced.\<close>

definition unicode_escape :: "string \<Rightarrow> (string \<times> nat) option" where
  "unicode_escape s =
    (case hex4 s of None \<Rightarrow> None
     | Some u \<Rightarrow>
        if 0xD800 \<le> u \<and> u \<le> 0xDFFF then
          (case (if u \<le> 0xDBFF \<and> take 2 (drop 4 s) = [CHR 0x5C, CHR ''u''] then hex4 (drop 6 s) else None) of
             Some v \<Rightarrow> if 0xDC00 \<le> v \<and> v \<le> 0xDFFF
               then Some (utf8_encode (0x10000 + (u - 0xD800) * 1024 + (v - 0xDC00)), 10)
               else Some (replacement, 4)
           | None \<Rightarrow> Some (replacement, 4))
        else Some (utf8_encode u, 4))"

text \<open>The rest of a string literal after its opening quote: its value, and what follows
  the closing quote.\<close>

function parse_str :: "string \<Rightarrow> (string \<times> string) option" where
  "parse_str s =
    (case s of [] \<Rightarrow> None
     | c # cs \<Rightarrow>
        if c = CHR 0x22 then Some ([], cs)
        else if c = CHR 0x5C then
          (case cs of [] \<Rightarrow> None
           | e # es \<Rightarrow>
              if e = CHR ''u'' then
                (case unicode_escape es of None \<Rightarrow> None
                 | Some (r, k) \<Rightarrow> map_option (apfst ((@) r)) (parse_str (drop k es)))
              else
                (case simple_escape e of None \<Rightarrow> None
                 | Some x \<Rightarrow> map_option (apfst ((#) x)) (parse_str es)))
        else if (of_char c :: nat) < 32 then None
        else if utf8_len s = 0 then map_option (apfst ((@) replacement)) (parse_str cs)
        else map_option (apfst ((@) (take (utf8_len s) s))) (parse_str (drop (utf8_len s) s)))"
  by pat_completeness auto
termination
  by (relation "measure length") auto

declare parse_str.simps [simp del]

text \<open>A number literal: sign, digits without a leading zero, fraction, exponent.\<close>

definition span_digits :: "string \<Rightarrow> string \<times> string" where
  "span_digits s = (takeWhile is_digit s, dropWhile is_digit s)"

definition parse_exp :: "string \<Rightarrow> (string \<times> string) option" where
  "parse_exp s = (case s of
      c # cs \<Rightarrow>
        if c = CHR ''e'' \<or> c = CHR ''E'' then
          (let (sg, t) = (case cs of d # ds \<Rightarrow> if d = CHR ''+'' \<or> d = CHR ''-'' then ([d], ds) else ([], cs) | [] \<Rightarrow> ([], []));
               (ds, rest) = span_digits t
           in if ds = [] then None else Some (c # sg @ ds, rest))
        else Some ([], s)
    | [] \<Rightarrow> Some ([], []))"

definition parse_frac :: "string \<Rightarrow> (string \<times> string) option" where
  "parse_frac s = (case s of
      c # cs \<Rightarrow>
        if c = CHR ''.'' then (let (ds, rest) = span_digits cs in if ds = [] then None else Some (c # ds, rest))
        else Some ([], s)
    | [] \<Rightarrow> Some ([], []))"

definition parse_num :: "string \<Rightarrow> (string \<times> string) option" where
  "parse_num s =
    (let (sg, t) = (case s of c # cs \<Rightarrow> if c = CHR ''-'' then ([c], cs) else ([], s) | [] \<Rightarrow> ([], []));
         (ds, r) = span_digits t;
         (ds, r) = (case ds of d # e # es \<Rightarrow> if d = CHR ''0'' then ([d], e # es @ r) else (ds, r) | _ \<Rightarrow> (ds, r))
     in if ds = [] then None
        else case parse_frac r of None \<Rightarrow> None
         | Some (f, r) \<Rightarrow> (case parse_exp r of None \<Rightarrow> None
             | Some (x, r) \<Rightarrow> Some (sg @ ds @ f @ x, r)))"

text \<open>A value, with fuel for the number of steps and the nesting depth that the
  package allows.\<close>

fun parse_val :: "nat \<Rightarrow> nat \<Rightarrow> string \<Rightarrow> (json \<times> string) option"
  and parse_elems :: "nat \<Rightarrow> nat \<Rightarrow> string \<Rightarrow> (json list \<times> string) option"
  and parse_members :: "nat \<Rightarrow> nat \<Rightarrow> string \<Rightarrow> ((string \<times> json) list \<times> string) option" where
  "parse_val 0 depth s = None"
| "parse_val (Suc fuel) depth s =
    (case skip_ws s of [] \<Rightarrow> None
     | c # cs \<Rightarrow>
        if c = CHR 0x22 then map_option (apfst JStr) (parse_str cs)
        else if c = CHR ''{'' then
          (if depth = 0 then None
           else case skip_ws cs of
               CHR ''}'' # rest \<Rightarrow> Some (JObj [], rest)
             | t \<Rightarrow> map_option (apfst JObj) (parse_members fuel (depth - 1) t))
        else if c = CHR ''['' then
          (if depth = 0 then None
           else case skip_ws cs of
               CHR '']'' # rest \<Rightarrow> Some (JArr [], rest)
             | t \<Rightarrow> map_option (apfst JArr) (parse_elems fuel (depth - 1) t))
        else if prefix ''null'' (c # cs) then Some (JNull, drop 3 cs)
        else if prefix ''true'' (c # cs) then Some (JBool True, drop 3 cs)
        else if prefix ''false'' (c # cs) then Some (JBool False, drop 4 cs)
        else map_option (apfst JNum) (parse_num (c # cs)))"
| "parse_elems 0 depth s = None"
| "parse_elems (Suc fuel) depth s =
    (case parse_val fuel depth s of None \<Rightarrow> None
     | Some (v, t) \<Rightarrow>
        (case skip_ws t of
           CHR '','' # rest \<Rightarrow> map_option (apfst ((#) v)) (parse_elems fuel depth rest)
         | CHR '']'' # rest \<Rightarrow> Some ([v], rest)
         | _ \<Rightarrow> None))"
| "parse_members 0 depth s = None"
| "parse_members (Suc fuel) depth s =
    (case skip_ws s of
       CHR 0x22 # cs \<Rightarrow>
         (case parse_str cs of None \<Rightarrow> None
          | Some (k, t) \<Rightarrow>
             (case skip_ws t of
                CHR '':'' # u \<Rightarrow>
                  (case parse_val fuel depth u of None \<Rightarrow> None
                   | Some (v, w) \<Rightarrow>
                      (case skip_ws w of
                         CHR '','' # rest \<Rightarrow> map_option (apfst ((#) (k, v))) (parse_members fuel depth rest)
                       | CHR ''}'' # rest \<Rightarrow> Some ([(k, v)], rest)
                       | _ \<Rightarrow> None))
              | _ \<Rightarrow> None))
     | _ \<Rightarrow> None)"

text \<open>A whole text: one value and white space.  Each step consumes a character, so the
  fuel is enough.\<close>

definition json_parse :: "string \<Rightarrow> json option" where
  "json_parse s = (case parse_val (2 * length s + 2) 10000 s of
     Some (v, rest) \<Rightarrow> if skip_ws rest = [] then Some v else None
   | None \<Rightarrow> None)"

section \<open>Reading what was written\<close>

lemma hex_val_digit: "d < 16 \<Longrightarrow> hex_val (hex_digit d) = Some d"
  by (simp add: hex_val_def hex_digit_def Let_def)

lemma hex_val_0 [simp]: "hex_val (CHR ''0'') = Some 0"
  by (simp add: hex_val_def)

lemma unicode_escape_ascii:
  assumes "n < 128"
  shows "unicode_escape (CHR ''0'' # CHR ''0'' # hex_digit (n div 16) # hex_digit (n mod 16) # t) = Some ([char_of n], 4)"
proof -
  have d: "n div 16 < 16" "n mod 16 < 16" using assms by auto
  have "hex4 (CHR ''0'' # CHR ''0'' # hex_digit (n div 16) # hex_digit (n mod 16) # t) = Some n"
    by (simp add: hex4_def hex_val_digit [OF d(1)] hex_val_digit [OF d(2)])
  then show ?thesis
    using assms by (simp add: unicode_escape_def utf8_encode_def)
qed

lemma parse_str_u:
  "parse_str (CHR 0x5C # CHR ''u'' # es) =
    (case unicode_escape es of None \<Rightarrow> None | Some (r, k) \<Rightarrow> map_option (apfst ((@) r)) (parse_str (drop k es)))"
  by (subst parse_str.simps) simp

lemma parse_str_simple:
  "e \<noteq> CHR ''u'' \<Longrightarrow> parse_str (CHR 0x5C # e # es) =
    (case simple_escape e of None \<Rightarrow> None | Some x \<Rightarrow> map_option (apfst ((#) x)) (parse_str es))"
  by (subst parse_str.simps) simp

lemma parse_str_plain:
  assumes "c \<noteq> CHR 0x22" "c \<noteq> CHR 0x5C" "32 \<le> (of_char c :: nat)" "0 < utf8_len (c # cs)"
  shows "parse_str (c # cs) = map_option (apfst ((@) (take (utf8_len (c # cs)) (c # cs)))) (parse_str (drop (utf8_len (c # cs)) (c # cs)))"
  using assms by (subst parse_str.simps) simp

lemma append_one: "(@) [c] = (#) c"
  by (rule ext) simp

lemma char_of_codes: "char_of (226 :: nat) = CHR 0xE2" "char_of (128 :: nat) = CHR 0x80"
  "char_of (168 :: nat) = CHR 0xA8" "char_of (169 :: nat) = CHR 0xA9"
  by code_simp+

lemma ctrl_chars:
  "(of_char c :: nat) = 8 \<Longrightarrow> c = CHR 0x08" "(of_char c :: nat) = 9 \<Longrightarrow> c = CHR 0x09"
  "(of_char c :: nat) = 10 \<Longrightarrow> c = CHR 0x0A" "(of_char c :: nat) = 12 \<Longrightarrow> c = CHR 0x0C"
  "(of_char c :: nat) = 13 \<Longrightarrow> c = CHR 0x0D"
  by (rule of_char_eqI [where 'a = nat]; simp)+

lemma parse_str_ascii:
  assumes "(of_char c :: nat) < 128"
  shows "parse_str (esc_ascii c @ t) = map_option (apfst ((#) c)) (parse_str t)"
proof -
  let ?n = "of_char c :: nat"
  consider "c = CHR 0x22 \<or> c = CHR 0x5C" | "?n = 8" | "?n = 12" | "?n = 10" | "?n = 13" | "?n = 9"
    | (u) "c \<noteq> CHR 0x22" "c \<noteq> CHR 0x5C" "?n \<notin> {8, 9, 10, 12, 13}"
        "?n < 32 \<or> c = CHR ''<'' \<or> c = CHR ''>'' \<or> c = CHR ''&''"
    | (plain) "c \<noteq> CHR 0x22" "c \<noteq> CHR 0x5C" "?n \<notin> {8, 9, 10, 12, 13}" "32 \<le> ?n"
        "c \<noteq> CHR ''<''" "c \<noteq> CHR ''>''" "c \<noteq> CHR ''&''"
    by fastforce
  then show ?thesis
  proof cases
    case 1
    then show ?thesis by (auto simp: esc_ascii_def parse_str_simple simple_escape_def)
  next
    case u
    then show ?thesis
      using unicode_escape_ascii [OF assms, of t]
      by (auto simp: esc_ascii_def parse_str_u apfst_def map_prod_def Let_def)
  next
    case plain
    then show ?thesis
      using assms by (auto simp: esc_ascii_def parse_str_plain utf8_len_def Let_def append_one)
  qed (drule ctrl_chars, simp add: esc_ascii_def parse_str_simple simple_escape_def)+
qed

lemma utf8_len_le: "utf8_len s \<le> length s"
  by (cases s) (simp_all add: utf8_len_def)

lemma utf8_len_eq:
  "utf8_len s = 1 \<longleftrightarrow> 1 \<le> length s \<and> (of_char (s ! 0) :: nat) < 128"
  "utf8_len s = 2 \<longleftrightarrow> 2 \<le> length s \<and> \<not> (of_char (s ! 0) :: nat) < 128 \<and> rune2 (s ! 0) (s ! 1)"
  "utf8_len s = 3 \<longleftrightarrow> 3 \<le> length s \<and> \<not> (of_char (s ! 0) :: nat) < 128 \<and> rune3 (s ! 0) (s ! 1) (s ! 2)"
  "utf8_len s = 4 \<longleftrightarrow> 4 \<le> length s \<and> \<not> (of_char (s ! 0) :: nat) < 128 \<and> rune4 (s ! 0) (s ! 1) (s ! 2) (s ! 3)"
  by (cases s; auto simp: utf8_len_def dest: rune_disjoint)+

lemma utf8_len_take:
  assumes "0 < utf8_len s"
  shows "utf8_len (take (utf8_len s) s @ t) = utf8_len s"
proof -
  have nth: "(take n s @ t) ! i = s ! i" if "i < n" "n \<le> length s" for i n
    using that by (simp add: nth_append)
  consider "utf8_len s = 1" | "utf8_len s = 2" | "utf8_len s = 3" | "utf8_len s = 4"
    using assms by (auto simp: utf8_len_def split: if_splits)
  then show ?thesis
  proof cases
    case 1
    have "utf8_len (take 1 s @ t) = 1"
      unfolding utf8_len_eq using 1 [unfolded utf8_len_eq] nth [of 0 1] by auto
    then show ?thesis unfolding 1 .
  next
    case 2
    have "utf8_len (take 2 s @ t) = 2"
      unfolding utf8_len_eq using 2 [unfolded utf8_len_eq] nth [of 0 2] nth [of 1 2] by auto
    then show ?thesis unfolding 2 .
  next
    case 3
    have "utf8_len (take 3 s @ t) = 3"
      unfolding utf8_len_eq using 3 [unfolded utf8_len_eq] nth [of 0 3] nth [of 1 3] nth [of 2 3] by auto
    then show ?thesis unfolding 3 .
  next
    case 4
    have "utf8_len (take 4 s @ t) = 4"
      unfolding utf8_len_eq using 4 [unfolded utf8_len_eq] nth [of 0 4] nth [of 1 4] nth [of 2 4] nth [of 3 4] by auto
    then show ?thesis unfolding 4 .
  qed
qed

lemma parse_str_rune:
  assumes "0 < utf8_len s" "128 \<le> (of_char (hd s) :: nat)"
  shows "parse_str (take (utf8_len s) s @ t) = map_option (apfst ((@) (take (utf8_len s) s))) (parse_str t)"
proof -
  obtain c cs where s: "take (utf8_len s) s = c # cs" "c = hd s"
    using assms(1) utf8_len_le [of s] by (cases s; cases "utf8_len s") auto
  have k: "utf8_len (c # cs @ t) = utf8_len s"
    using utf8_len_take [OF assms(1), of t] s by simp
  have l: "length (c # cs) = utf8_len s" using utf8_len_le [of s] by (simp add: s(1) [symmetric])
  have "take (utf8_len s) (c # cs @ t) = c # cs" "drop (utf8_len s) (c # cs @ t) = t"
    by (simp_all add: l [symmetric])
  moreover have "c \<noteq> CHR 0x22" "c \<noteq> CHR 0x5C" using assms(2) s(2) by auto
  ultimately show ?thesis
    using assms s(2) parse_str_plain [of c "cs @ t"] k unfolding s(1) by simp
qed

lemma escape_2028:
  "parse_str (CHR 0x5C # ''u2028'' @ t) = map_option (apfst ((@) [CHR 0xE2, CHR 0x80, CHR 0xA8])) (parse_str t)"
  "parse_str (CHR 0x5C # ''u2029'' @ t) = map_option (apfst ((@) [CHR 0xE2, CHR 0x80, CHR 0xA9])) (parse_str t)"
  by (simp_all add: parse_str_u unicode_escape_def hex4_def hex_val_def utf8_encode_def char_of_codes)

lemma json_escape_hi:
  "\<lbrakk>s = c # cs; \<not> (of_char c :: nat) < 128; 0 < utf8_len s\<rbrakk> \<Longrightarrow> json_escape s =
    (if take 3 s = [CHR 0xE2, CHR 0x80, CHR 0xA8] then CHR 0x5C # ''u2028'' @ json_escape (drop 3 s)
     else if take 3 s = [CHR 0xE2, CHR 0x80, CHR 0xA9] then CHR 0x5C # ''u2029'' @ json_escape (drop 3 s)
     else take (utf8_len s) s @ json_escape (drop (utf8_len s) s))"
  by (simp add: json_escape.simps [of "c # cs"])

lemma parse_str_escape: "valid_utf8 s \<Longrightarrow> parse_str (json_escape s @ CHR 0x22 # rest) = Some (s, rest)"
proof (induction s rule: json_escape.induct)
  case (1 s)
  show ?case
  proof (cases s)
    case Nil
    then show ?thesis by (subst json_escape.simps) (simp add: parse_str.simps)
  next
    case (Cons c cs)
    have valid: "0 < utf8_len s" "valid_utf8 (drop (utf8_len s) s)"
      using "1.prems" valid_utf8.simps [of s] Cons by (auto split: if_splits)
    show ?thesis
    proof (cases "(of_char c :: nat) < 128")
      case True
      then have "valid_utf8 cs" using valid Cons by (simp add: utf8_len_def)
      with 1(1) [OF Cons True] show ?thesis
        using True Cons parse_str_ascii [OF True] by (subst json_escape.simps) simp
    next
      case hi: False
      show ?thesis
      proof (cases "take 3 s = [CHR 0xE2, CHR 0x80, CHR 0xA8] \<or> take 3 s = [CHR 0xE2, CHR 0x80, CHR 0xA9]")
        case True
        then obtain x where x: "take 3 s = [CHR 0xE2, CHR 0x80, x]" "x = CHR 0xA8 \<or> x = CHR 0xA9" by blast
        define r where "r = drop 3 s"
        have s: "s = CHR 0xE2 # CHR 0x80 # x # r"
          using append_take_drop_id [of 3 s] by (simp add: x(1) r_def)
        have l3: "utf8_len s = 3"
          unfolding utf8_len_eq using x(2) by (auto simp: s rune3_def between_def)
        have "valid_utf8 r" using valid(2) by (simp add: l3 r_def)
        then have "parse_str (json_escape r @ CHR 0x22 # rest) = Some (r, rest)"
          using 1(3,4) [OF Cons hi] valid(1) x r_def by auto
        moreover have "json_escape s = CHR 0x5C # (if x = CHR 0xA8 then ''u2028'' else ''u2029'') @ json_escape r"
          using x(2) unfolding json_escape_hi [OF Cons hi valid(1)] x(1) r_def by auto
        ultimately show ?thesis
          using x(2) escape_2028 [of "json_escape r @ CHR 0x22 # rest"] by (elim disjE) (simp_all add: s)
      next
        case False
        then have "json_escape s = take (utf8_len s) s @ json_escape (drop (utf8_len s) s)"
          unfolding json_escape_hi [OF Cons hi valid(1)] by simp
        moreover have "parse_str (json_escape (drop (utf8_len s) s) @ CHR 0x22 # rest) = Some (drop (utf8_len s) s, rest)"
          using 1(5) [OF Cons hi] valid False by auto
        ultimately show ?thesis
          using parse_str_rune [OF valid(1)] hi Cons by simp
      qed
    qed
  qed
qed

section \<open>Values of a record\<close>

lemma skip_ws_id: "\<not> is_ws c \<Longrightarrow> skip_ws (c # cs) = c # cs"
  by (simp add: skip_ws_def)

lemma parse_val_quote: "valid_utf8 s \<Longrightarrow> parse_val (Suc f) d (json_quote s @ rest) = Some (JStr s, rest)"
  by (simp add: json_quote_def skip_ws_id is_ws_def parse_str_escape)

lemma format_int_cases:
  "format_int n = dec_nat (nat n) \<and> 0 \<le> n \<or> format_int n = CHR ''-'' # dec_nat (nat (- n)) \<and> n < 0"
  by (auto simp: format_int_def)

lemma dec_nat_digit_hd: obtains d ds where "dec_nat n = d # ds" "is_digit d"
  using dec_nat_digits [of n] by (cases "dec_nat n") auto

definition num_end :: "string \<Rightarrow> bool" where
  "num_end rest \<longleftrightarrow> (case rest of [] \<Rightarrow> True | c # _ \<Rightarrow> c = CHR '','' \<or> c = CHR ''}'' \<or> c = CHR '']'')"

lemma num_end_simps [simp]: "num_end []" "num_end (CHR '','' # r)" "num_end (CHR ''}'' # r)" "num_end (CHR '']'' # r)"
  by (simp_all add: num_end_def)

lemma span_dec: "num_end rest \<Longrightarrow> span_digits (dec_nat n @ rest) = (dec_nat n, rest)"
  using dec_nat_digits [of n]
  by (cases rest) (auto simp: num_end_def is_digit_def span_digits_def list_all_iff takeWhile_append2 dropWhile_append2
      takeWhile_eq_all_conv [THEN iffD2] dropWhile_eq_Nil_conv [THEN iffD2])

lemma parse_num_int:
  assumes c: "num_end rest"
  shows "parse_num (format_int n @ rest) = Some (format_int n, rest)"
proof -
  have fe: "parse_frac rest = Some ([], rest)" "parse_exp rest = Some ([], rest)"
    using c by (auto simp: parse_frac_def parse_exp_def num_end_def split: list.splits)
  have num: "(case dec_nat m of d # e # es \<Rightarrow> if d = CHR ''0'' then ([d], e # es @ r) else (dec_nat m, r) | _ \<Rightarrow> (dec_nat m, r)) = (dec_nat m, r)" for m r
    using dec_nat_hd [of m] by (auto split: list.splits)
  show ?thesis
  proof (cases "n < 0")
    case True
    then show ?thesis by (simp add: parse_num_def format_int_def span_dec [OF c] num fe)
  next
    case False
    obtain d ds where d: "dec_nat (nat n) = d # ds" "is_digit d" by (rule dec_nat_digit_hd)
    then have "d \<noteq> CHR ''-''" by (auto simp: is_digit_def)
    then have sg: "(case dec_nat (nat n) @ rest of x # xs \<Rightarrow> if x = CHR ''-'' then ([x], xs) else ([], dec_nat (nat n) @ rest) | [] \<Rightarrow> ([], [])) = ([], dec_nat (nat n) @ rest)"
      using d(1) by simp
    have "format_int n = dec_nat (nat n)" using False by (simp add: format_int_def)
    then show ?thesis unfolding parse_num_def by (simp only: sg) (simp add: span_dec [OF c] num fe)
  qed
qed

lemma parse_val_int:
  assumes c: "num_end rest"
  shows "parse_val (Suc f) d (format_int n @ rest) = Some (JNum (format_int n), rest)"
proof -
  obtain x xs where x: "format_int n = x # xs" "is_digit x \<or> x = CHR ''-''"
    using format_int_cases [of n] dec_nat_digit_hd by metis
  then have "\<not> is_ws x" "x \<noteq> CHR 0x22" "x \<noteq> CHR ''{''" "x \<noteq> CHR ''[''" "x \<noteq> CHR ''n''" "x \<noteq> CHR ''t''" "x \<noteq> CHR ''f''"
    by (auto simp: is_digit_def is_ws_def)
  then show ?thesis
    using parse_num_int [OF c, of n] x(1) by (simp add: skip_ws_id)
qed

lemma parse_members_next:
  assumes "valid_utf8 k" "parse_val (Suc f) d (v @ CHR '','' # rest) = Some (j, CHR '','' # rest)"
  shows "parse_members (Suc (Suc f)) d (json_quote k @ CHR '':'' # v @ CHR '','' # rest) =
    map_option (apfst ((#) (k, j))) (parse_members (Suc f) d rest)"
  using assms by (simp add: json_quote_def skip_ws_id is_ws_def parse_str_escape del: parse_val.simps parse_members.simps(2) add: parse_members.simps(2) [of "Suc f"])

lemma parse_members_last:
  assumes "valid_utf8 k" "parse_val (Suc f) d (v @ CHR ''}'' # rest) = Some (j, CHR ''}'' # rest)"
  shows "parse_members (Suc (Suc f)) d (json_quote k @ CHR '':'' # v @ CHR ''}'' # rest) = Some ([(k, j)], rest)"
  using assms by (simp add: json_quote_def skip_ws_id is_ws_def parse_str_escape del: parse_val.simps parse_members.simps(2) add: parse_members.simps(2) [of "Suc f"])

end
