(* ===== verification/Go_Json_Print.thy ===== *)
theory Go_Json_Print
  imports Go_Json
begin

text \<open>
  \<open>json.Marshal\<close> of a tree of values without white space, and the round trip through the reader:
  what is printed is read back.  The marshalled structures of the program are such trees with the
  fields in the order of their declaration; \<open>field_is\<close> is how a field is found when reading.
\<close>

fun json_print :: "json \<Rightarrow> string"
  and print_elems :: "json list \<Rightarrow> string"
  and print_members :: "(string \<times> json) list \<Rightarrow> string" where
  "json_print JNull = ''null''"
| "json_print (JBool b) = (if b then ''true'' else ''false'')"
| "json_print (JNum l) = l"
| "json_print (JStr s) = json_quote s"
| "json_print (JArr vs) = CHR ''['' # print_elems vs @ '']''"
| "json_print (JObj ms) = CHR ''{'' # print_members ms @ ''}''"
| "print_elems [] = []"
| "print_elems (v # vs) = json_print v @ (if vs = [] then [] else CHR '','' # print_elems vs)"
| "print_members [] = []"
| "print_members ((k, v) # ms) = json_quote k @ CHR '':'' # json_print v @ (if ms = [] then [] else CHR '','' # print_members ms)"

text \<open>The trees \<open>json.Marshal\<close> prints faithfully: valid UTF-8, \<open>int64\<close> numbers.\<close>

fun json_ok :: "nat \<Rightarrow> json \<Rightarrow> bool" where
  "json_ok d (JNum l) = (case parse_int l of Some n \<Rightarrow> l = format_int n | None \<Rightarrow> False)"
| "json_ok d (JStr s) = valid_utf8 s"
| "json_ok d (JArr vs) = (d > 0 \<and> list_all (json_ok (d - 1)) vs)"
| "json_ok d (JObj ms) = (d > 0 \<and> list_all (\<lambda>(k, v). valid_utf8 k \<and> json_ok (d - 1) v) ms)"
| "json_ok d _ = True"

lemma json_quote_Cons: "json_quote s = CHR 0x22 # json_escape s @ [CHR 0x22]"
  by (simp add: json_quote_def)

lemma length_json_quote [simp]: "2 \<le> length (json_quote s)"
  by (simp add: json_quote_def)

lemma json_ok_num: "json_ok d (JNum l) \<Longrightarrow> \<exists>n. l = format_int n"
  by (auto split: option.splits)

definition value_start :: "string \<Rightarrow> bool" where
  "value_start s \<longleftrightarrow> s \<noteq> [] \<and> \<not> is_ws (hd s) \<and> hd s \<noteq> CHR '']'' \<and> hd s \<noteq> CHR ''}''"

lemma json_print_start: "json_ok d v \<Longrightarrow> value_start (json_print v)"
proof (cases v)
  case (JNum l)
  assume "json_ok d v"
  then obtain n where n: "l = format_int n" using JNum json_ok_num by blast
  obtain x xs where "format_int n = x # xs" "is_digit x \<or> x = CHR ''-''"
    using format_int_cases [of n] dec_nat_digit_hd by metis
  then show ?thesis using JNum n by (auto simp: value_start_def is_digit_def is_ws_def)
qed (simp_all add: value_start_def json_quote_Cons is_ws_def)

lemma print_elems_start:
  assumes "list_all (json_ok d) vs" "vs \<noteq> []"
  shows "value_start (print_elems vs)"
proof (cases vs)
  case (Cons v ws)
  then have "value_start (json_print v)" using assms json_print_start [of d v] by simp
  then show ?thesis using Cons by (simp add: value_start_def)
qed (use assms in simp)

lemma parse_val_arr:
  assumes "c \<noteq> CHR '']''" "\<not> is_ws c" "d > 0"
  shows "parse_val (Suc f) d (CHR ''['' # c # cs) = map_option (apfst JArr) (parse_elems f (d - 1) (c # cs))"
  using assms by (simp add: skip_ws_id is_ws_def del: parse_elems.simps split: char.splits bool.splits)

lemma parse_print:
  "\<lbrakk>json_ok d v; num_end rest; 2 * length (json_print v) \<le> f\<rbrakk>
    \<Longrightarrow> parse_val f d (json_print v @ rest) = Some (v, rest)"
  "\<lbrakk>list_all (json_ok d) vs; vs \<noteq> []; 2 * length (print_elems vs) \<le> f\<rbrakk>
    \<Longrightarrow> parse_elems (Suc f) d (print_elems vs @ CHR '']'' # rest) = Some (vs, rest)"
  "\<lbrakk>list_all (\<lambda>(k, v). valid_utf8 k \<and> json_ok d v) ms; ms \<noteq> []; 2 * length (print_members ms) \<le> f\<rbrakk>
    \<Longrightarrow> parse_members f d (print_members ms @ CHR ''}'' # rest) = Some (ms, rest)"
proof (induction v and vs and ms arbitrary: d rest f and d rest f and d rest f
    rule: json_print_print_elems_print_members.induct)
  case 1
  then show ?case by (cases f) (simp_all add: skip_ws_id is_ws_def)
next
  case (2 b)
  then show ?case by (cases f; cases b) (simp_all add: skip_ws_id is_ws_def)
next
  case (3 l)
  then obtain n where n: "l = format_int n" using json_ok_num by blast
  have "format_int n \<noteq> []" using format_int_cases [of n] by auto
  then obtain g where "f = Suc g" using 3 n by (cases f) auto
  then show ?case using 3 n by (simp add: parse_val_int del: parse_val.simps)
next
  case (4 s)
  then obtain g where "f = Suc g" using length_json_quote [of s] by (cases f) auto
  then show ?case using 4 by (simp add: parse_val_quote del: parse_val.simps)
next
  case (5 vs)
  then obtain g where g: "f = Suc (Suc g)" "2 * length (print_elems vs) \<le> g" by (cases f; cases "f - 1") auto
  show ?case
  proof (cases "vs = []")
    case True
    then show ?thesis using 5 g by (simp add: skip_ws_id is_ws_def)
  next
    case False
    then obtain c cs where c: "print_elems vs = c # cs" "\<not> is_ws c" "c \<noteq> CHR '']''"
      using print_elems_start [of "d - 1" vs] 5 by (cases "print_elems vs") (simp_all add: value_start_def)
    have "parse_elems (Suc g) (d - 1) (print_elems vs @ CHR '']'' # rest) = Some (vs, rest)"
      using 5 g False by simp
    moreover have "d > 0" using 5 by simp
    ultimately show ?thesis using g(1) c parse_val_arr [OF c(3) c(2), of d "Suc g" "cs @ CHR '']'' # rest"]
      by (simp del: parse_val.simps parse_elems.simps)
  qed
next
  case (6 ms)
  then obtain g where g: "f = Suc g" "2 * length (print_members ms) \<le> g" by (cases f) auto
  show ?case
  proof (cases ms)
    case Nil
    then show ?thesis using 6 g by (simp add: skip_ws_id is_ws_def)
  next
    case (Cons m ms')
    then obtain cs where c: "print_members ms = CHR 0x22 # cs" by (cases m) (simp add: json_quote_Cons)
    have "parse_members g (d - 1) (print_members ms @ CHR ''}'' # rest) = Some (ms, rest)"
      using 6 g Cons by simp
    then show ?thesis using 6 g c by (simp add: skip_ws_id is_ws_def del: parse_members.simps)
  qed
next
  case (8 v vs)
  have v: "parse_val f d (json_print v @ (if vs = [] then CHR '']'' # rest else CHR '','' # print_elems vs @ CHR '']'' # rest)) =
      Some (v, if vs = [] then CHR '']'' # rest else CHR '','' # print_elems vs @ CHR '']'' # rest)"
    using 8 by (cases "vs = []") auto
  show ?case
  proof (cases "vs = []")
    case True
    then show ?thesis using v by (simp add: skip_ws_id is_ws_def)
  next
    case False
    then obtain g where g: "f = Suc g" "2 * length (print_elems vs) \<le> g" using 8 by (cases f) auto
    have "parse_elems f d (print_elems vs @ CHR '']'' # rest) = Some (vs, rest)"
      using 8 False g by simp
    then show ?thesis using v False by (simp add: skip_ws_id is_ws_def)
  qed
next
  case (10 k v ms)
  then obtain g where g: "f = Suc g" "2 * length (json_print v) \<le> g" "2 * length (print_members ms) \<le> g"
    using length_json_quote [of k] by (cases f) (auto split: if_splits)
  have v: "parse_val g d (json_print v @ (if ms = [] then CHR ''}'' # rest else CHR '','' # print_members ms @ CHR ''}'' # rest)) =
      Some (v, if ms = [] then CHR ''}'' # rest else CHR '','' # print_members ms @ CHR ''}'' # rest)"
    using 10 g by (cases "ms = []") auto
  have k: "valid_utf8 k" using 10 by simp
  show ?case
  proof (cases "ms = []")
    case True
    then show ?thesis using v g k by (simp add: json_quote_def skip_ws_id is_ws_def parse_str_escape)
  next
    case False
    have "parse_members g d (print_members ms @ CHR ''}'' # rest) = Some (ms, rest)"
      using 10 False g by simp
    then show ?thesis using v g k False by (simp add: json_quote_def skip_ws_id is_ws_def parse_str_escape)
  qed
qed simp_all

lemma json_parse_print: "json_ok 10000 v \<Longrightarrow> json_parse (json_print v) = Some v"
  using parse_print(1) [of 10000 v "[]" "2 * length (json_print v) + 2"] by (simp add: json_parse_def skip_ws_def)

section \<open>Reading a structure\<close>

text \<open>\<open>encoding/json\<close> finds a field by its exact name, else by folding case; the Kelvin
  sign folds to a k and the long s to an s.\<close>

fun fold_name :: "string \<Rightarrow> string" where
  "fold_name [] = []"
| "fold_name (c # cs) =
    (if prefix [CHR 0xE2, CHR 0x84, CHR 0xAA] (c # cs) then CHR ''k'' # fold_name (drop 2 cs)
     else if prefix [CHR 0xC5, CHR 0xBF] (c # cs) then CHR ''s'' # fold_name (drop 1 cs)
     else lower_char c # fold_name cs)"

definition field_is :: "string \<Rightarrow> string \<Rightarrow> bool" where
  "field_is name k \<longleftrightarrow> k = name \<or> fold_name k = name"

text \<open>A value for a field: \<open>null\<close> leaves it alone, a value of another type is an error, after
  which the other fields are still read.\<close>

definition str_field :: "(string \<Rightarrow> 'a) \<Rightarrow> 'a \<Rightarrow> json \<Rightarrow> 'a \<times> bool" where
  "str_field put p v = (case v of JStr s \<Rightarrow> (put s, True) | JNull \<Rightarrow> (p, True) | _ \<Rightarrow> (p, False))"

definition int_field :: "(int \<Rightarrow> 'a) \<Rightarrow> 'a \<Rightarrow> json \<Rightarrow> 'a \<times> bool" where
  "int_field put p v =
    (case v of JNum l \<Rightarrow> (case parse_int l of Some n \<Rightarrow> (put n, True) | None \<Rightarrow> (p, False))
     | JNull \<Rightarrow> (p, True) | _ \<Rightarrow> (p, False))"

definition str_elem :: "string list \<Rightarrow> nat \<Rightarrow> json \<Rightarrow> string \<times> bool" where
  "str_elem old i v = str_field (\<lambda>s. s) (if i < length old then old ! i else []) v"

definition strs_field :: "(string list \<Rightarrow> 'a) \<Rightarrow> string list \<Rightarrow> 'a \<Rightarrow> json \<Rightarrow> 'a \<times> bool" where
  "strs_field put old p v =
    (case v of JArr vs \<Rightarrow> (let es = map2 (str_elem old) [0..<length vs] vs in (put (map fst es), list_all snd es))
     | JNull \<Rightarrow> (put [], True) | _ \<Rightarrow> (p, False))"

text \<open>\<open>map[string]string\<close>: a value of another type is an error and enters the empty string.\<close>

definition strmap_field :: "((string, string) gomap \<Rightarrow> 'a) \<Rightarrow> (string, string) gomap \<Rightarrow> 'a \<Rightarrow> json \<Rightarrow> 'a \<times> bool" where
  "strmap_field put old p v =
    (case v of
       JObj ms \<Rightarrow> (put (foldl (\<lambda>m (k, x). gm_set k (fst (str_field (\<lambda>s. s) [] x)) m) old ms),
                   list_all (\<lambda>(k, x). snd (str_field (\<lambda>s. s) [] x)) ms)
     | JNull \<Rightarrow> (put [], True) | _ \<Rightarrow> (p, False))"

text \<open>Unsigned integers of a given width.\<close>

definition uint_field :: "nat \<Rightarrow> (nat \<Rightarrow> 'a) \<Rightarrow> 'a \<Rightarrow> json \<Rightarrow> 'a \<times> bool" where
  "uint_field w put p v =
    (case v of JNum l \<Rightarrow> (case parse_digits l of Some n \<Rightarrow> if n < 2 ^ w then (put n, True) else (p, False) | None \<Rightarrow> (p, False))
     | JNull \<Rightarrow> (p, True) | _ \<Rightarrow> (p, False))"

definition read_member :: "('a \<Rightarrow> string \<Rightarrow> json \<Rightarrow> 'a \<times> bool) \<Rightarrow> 'a \<times> bool \<Rightarrow> string \<times> json \<Rightarrow> 'a \<times> bool" where
  "read_member set_field st kv =
    (case set_field (fst st) (fst kv) (snd kv) of (p, ok) \<Rightarrow> (p, snd st \<and> ok))"

definition read_value :: "('a \<Rightarrow> string \<Rightarrow> json \<Rightarrow> 'a \<times> bool) \<Rightarrow> 'a \<Rightarrow> json \<Rightarrow> 'a option" where
  "read_value set_field zero v =
    (case v of
       JObj ms \<Rightarrow> (case foldl (read_member set_field) (zero, True) ms of (p, ok) \<Rightarrow> if ok then Some p else None)
     | JNull \<Rightarrow> Some zero
     | _ \<Rightarrow> None)"

definition read_struct :: "('a \<Rightarrow> string \<Rightarrow> json \<Rightarrow> 'a \<times> bool) \<Rightarrow> 'a \<Rightarrow> string \<Rightarrow> 'a option" where
  "read_struct set_field zero s = (case json_parse s of Some v \<Rightarrow> read_value set_field zero v | None \<Rightarrow> None)"

text \<open>What is left in the structure when the error is ignored.\<close>

definition read_partial :: "('a \<Rightarrow> string \<Rightarrow> json \<Rightarrow> 'a \<times> bool) \<Rightarrow> 'a \<Rightarrow> string \<Rightarrow> 'a" where
  "read_partial set_field zero s =
    (case json_parse s of Some (JObj ms) \<Rightarrow> fst (foldl (read_member set_field) (zero, True) ms) | _ \<Rightarrow> zero)"

lemma read_struct_print:
  assumes "json_ok 10000 (JObj ms)"
  shows "read_struct set_field zero (json_print (JObj ms)) =
    (case foldl (read_member set_field) (zero, True) ms of (p, ok) \<Rightarrow> if ok then Some p else None)"
  using json_parse_print [OF assms] by (simp add: read_struct_def read_value_def del: json_print.simps)

lemma str_field_str [simp]: "str_field put p (JStr s) = (put s, True)"
  by (simp add: str_field_def)

lemma int_field_int [simp]: "is_i64 n \<Longrightarrow> int_field put p (JNum (format_int n)) = (put n, True)"
  by (simp add: int_field_def)

lemma strs_field_strs [simp]: "strs_field put old p (JArr (map JStr ss)) = (put ss, True)"
proof -
  have "map2 (str_elem old) [k..<k + length ss] (map JStr ss) = map (\<lambda>s. (s, True)) ss" for k
  proof (induction ss arbitrary: k)
    case (Cons s ss)
    have "[k..<k + length (s # ss)] = k # [Suc k..<Suc k + length ss]"
      using upt_conv_Cons [of k "k + length (s # ss)"] by simp
    then show ?case using Cons [of "Suc k"] by (simp add: str_elem_def)
  qed simp
  from this [of 0] show ?thesis by (simp add: strs_field_def Let_def comp_def list_all_iff)
qed

lemma json_ok_int [simp]: "is_i64 n \<Longrightarrow> json_ok d (JNum (format_int n))"
  by simp

lemma valid_utf8_ascii: "\<forall>c\<in>set s. (of_char c :: nat) < 128 \<Longrightarrow> valid_utf8 s"
proof (induction s)
  case (Cons c cs)
  then show ?case by (subst valid_utf8.simps) (simp add: utf8_len_def)
qed (simp add: valid_utf8.simps)

text \<open>Names of fields are lower-case letters, digits and underscores: they are found under themselves only.\<close>

definition plain_name :: "string \<Rightarrow> bool" where
  "plain_name k \<longleftrightarrow> list_all (\<lambda>c. c = CHR ''_'' \<or> is_digit c \<or> (97 \<le> (of_char c :: nat) \<and> (of_char c :: nat) \<le> 122)) k"

lemma fold_plain: "plain_name k \<Longrightarrow> fold_name k = k"
proof (induction k)
  case (Cons c cs)
  then have c: "c = CHR ''_'' \<or> is_digit c \<or> (97 \<le> (of_char c :: nat) \<and> (of_char c :: nat) \<le> 122)" by (simp add: plain_name_def)
  then have "c \<noteq> CHR 0xE2" "c \<noteq> CHR 0xC5" by (auto simp: is_digit_def Let_def)
  moreover have "lower_char c = c" using c by (auto simp: lower_char_def is_digit_def Let_def)
  ultimately show ?case using Cons by (simp add: plain_name_def)
qed simp

lemma field_is_plain [simp]: "plain_name k \<Longrightarrow> field_is name k \<longleftrightarrow> k = name"
  by (auto simp: field_is_def fold_plain)

lemma plain_name_ascii:
  assumes "plain_name k" "c \<in> set k" shows "(of_char c :: nat) < 128"
proof -
  have "c = CHR ''_'' \<or> is_digit c \<or> (97 \<le> (of_char c :: nat) \<and> (of_char c :: nat) \<le> 122)"
    using assms by (simp add: plain_name_def list_all_iff)
  then show ?thesis
  proof (elim disjE)
    assume "is_digit c"
    then have "(of_char c :: nat) \<le> 57" by (simp add: is_digit_def Let_def)
    then show ?thesis by simp
  qed simp_all
qed

lemma utf8_plain: "plain_name k \<Longrightarrow> valid_utf8 k"
  using plain_name_ascii by (intro valid_utf8_ascii) blast

end
