(* ===== verification/Go_Base64.thy ===== *)
theory Go_Base64
  imports Go_Binary Go_Strings "HOL-Library.Sublist"
begin

text \<open>
  Go's \<open>base64.RawURLEncoding\<close>: the URL alphabet without padding.  Decoding skips
  carriage returns and line feeds, as the package does, and fails on any other byte
  outside the alphabet and on a single left-over character.
\<close>

definition b64_alphabet :: string where
  "b64_alphabet = ''ABCDEFGHIJKLMNOPQRSTUVWXYZabcdefghijklmnopqrstuvwxyz0123456789-_''"

definition b64_char :: "nat \<Rightarrow> char" where
  "b64_char n = b64_alphabet ! n"

definition b64_val :: "char \<Rightarrow> nat option" where
  "b64_val c = (let i = index_byte b64_alphabet c in if i < 0 then None else Some (nat i))"

fun b64_encode :: "byte list \<Rightarrow> string" where
  "b64_encode (a # b # c # rest) =
    (let x = unat a; y = unat b; z = unat c
     in b64_char (x div 4) # b64_char (x mod 4 * 16 + y div 16) # b64_char (y mod 16 * 4 + z div 64)
        # b64_char (z mod 64) # b64_encode rest)"
| "b64_encode [a, b] =
    (let x = unat a; y = unat b
     in [b64_char (x div 4), b64_char (x mod 4 * 16 + y div 16), b64_char (y mod 16 * 4)])"
| "b64_encode [a] = (let x = unat a in [b64_char (x div 4), b64_char (x mod 4 * 16)])"
| "b64_encode [] = []"

fun b64_groups :: "nat list \<Rightarrow> byte list option" where
  "b64_groups (p # q # r # s # rest) =
    map_option (\<lambda>bs. of_nat (p * 4 + q div 16) # of_nat (q mod 16 * 16 + r div 4) # of_nat (r mod 4 * 64 + s) # bs)
      (b64_groups rest)"
| "b64_groups [p, q, r] = Some [of_nat (p * 4 + q div 16), of_nat (q mod 16 * 16 + r div 4)]"
| "b64_groups [p, q] = Some [of_nat (p * 4 + q div 16)]"
| "b64_groups [p] = None"
| "b64_groups [] = Some []"

definition b64_decode :: "string \<Rightarrow> byte list option" where
  "b64_decode s =
    (let cs = filter (\<lambda>c. c \<noteq> CHR 0x0A \<and> c \<noteq> CHR 0x0D) s; vs = map b64_val cs
     in if None \<in> set vs then None else b64_groups (map the vs))"

section \<open>Round trip\<close>

lemma b64_all: "list_all (\<lambda>n. b64_val (b64_char n) = Some n) [0..<64]"
  by code_simp

lemma b64_val_char: "n < 64 \<Longrightarrow> b64_val (b64_char n) = Some n"
  using b64_all by (simp add: list_all_iff)

lemma b64_chars: "n < 64 \<Longrightarrow> b64_char n \<in> set b64_alphabet"
  unfolding b64_char_def by (rule nth_mem) (simp add: b64_alphabet_def)

lemma b64_alphabet_avoids:
  "CHR ''.'' \<notin> set b64_alphabet" "CHR 0x0A \<notin> set b64_alphabet" "CHR 0x0D \<notin> set b64_alphabet"
  by (simp_all add: b64_alphabet_def)

lemma b64_encode_chars: "set (b64_encode bs) \<subseteq> set b64_alphabet"
proof (induction bs rule: b64_encode.induct)
  case (1 a b c rest)
  then show ?case
    using byte_bound [of a] byte_bound [of b] byte_bound [of c] by (auto simp: Let_def intro!: b64_chars)
next
  case (2 a b)
  then show ?case using byte_bound [of a] byte_bound [of b] by (auto simp: Let_def intro!: b64_chars)
next
  case (3 a)
  then show ?case using byte_bound [of a] by (auto simp: Let_def intro!: b64_chars)
qed simp

lemma b64_encode_no_dot: "CHR ''.'' \<notin> set (b64_encode bs)"
  using b64_encode_chars b64_alphabet_avoids(1) by blast

fun b64_sextets :: "byte list \<Rightarrow> nat list" where
  "b64_sextets (a # b # c # rest) =
    (let x = unat a; y = unat b; z = unat c
     in (x div 4) # (x mod 4 * 16 + y div 16) # (y mod 16 * 4 + z div 64) # (z mod 64) # b64_sextets rest)"
| "b64_sextets [a, b] = (let x = unat a; y = unat b in [x div 4, x mod 4 * 16 + y div 16, y mod 16 * 4])"
| "b64_sextets [a] = (let x = unat a in [x div 4, x mod 4 * 16])"
| "b64_sextets [] = []"

lemma b64_encode_sextets: "b64_encode bs = map b64_char (b64_sextets bs)"
  by (induction bs rule: b64_encode.induct) (simp_all add: Let_def)

lemma b64_sextets_bound: "n \<in> set (b64_sextets bs) \<Longrightarrow> n < 64"
proof (induction bs rule: b64_sextets.induct)
  case (1 a b c rest)
  then show ?case using byte_bound [of a] byte_bound [of b] byte_bound [of c] by (auto simp: Let_def)
next
  case (2 a b)
  then show ?case using byte_bound [of a] byte_bound [of b] by (auto simp: Let_def)
next
  case (3 a)
  then show ?case using byte_bound [of a] by (auto simp: Let_def)
qed simp

lemma split_byte:
  assumes "x < 256" "y < 256"
  shows "x div 4 * 4 + (x mod 4 * 16 + y div 16) div 16 = (x::nat)"
    "(x mod 4 * 16 + y div 16) mod 16 = y div 16" "(y mod 16 * 4 + x div 64) div 4 = y mod 16"
    "(y mod 16 * 4 + x div 64) mod 4 = x div 64" "x mod 4 * 16 div 16 = x mod 4" "y mod 16 * 4 div 4 = y mod 16"
    "x mod 4 * 16 mod 16 = 0"
proof -
  have d: "y div 16 < 16" "x div 64 < 4" using assms by auto
  then show "(x mod 4 * 16 + y div 16) mod 16 = y div 16" "(y mod 16 * 4 + x div 64) div 4 = y mod 16"
    "(y mod 16 * 4 + x div 64) mod 4 = x div 64" by simp_all
  have "(x mod 4 * 16 + y div 16) div 16 = x mod 4" using d by simp
  then show "x div 4 * 4 + (x mod 4 * 16 + y div 16) div 16 = x" by simp
qed simp_all

lemma b64_groups_sextets: "b64_groups (b64_sextets bs) = Some bs"
proof (induction bs rule: b64_sextets.induct)
  case (1 a b c rest)
  note B = byte_bound [of a] byte_bound [of b] byte_bound [of c]
  show ?case
    using 1 split_byte [OF B(1,2)] split_byte [OF B(3,2)] by (simp add: Let_def)
next
  case (2 a b)
  note B = byte_bound [of a] byte_bound [of b]
  show ?case using split_byte [OF B] split_byte [OF B(2,2)] by (simp add: Let_def)
next
  case (3 a)
  show ?case using split_byte [OF byte_bound [of a] byte_bound [of a]] by (simp add: Let_def)
qed simp

lemma b64_decode_encode [simp]: "b64_decode (b64_encode bs) = Some bs"
proof -
  have "filter (\<lambda>c. c \<noteq> CHR 0x0A \<and> c \<noteq> CHR 0x0D) (b64_encode bs) = b64_encode bs"
    using b64_encode_chars [of bs] b64_alphabet_avoids by (intro filter_True) blast
  moreover have "map b64_val (b64_encode bs) = map Some (b64_sextets bs)"
    using b64_sextets_bound [of _ bs] by (auto simp: b64_encode_sextets b64_val_char)
  ultimately show ?thesis
    unfolding b64_decode_def Let_def by (auto simp: b64_groups_sextets comp_def)
qed

section \<open>The standard alphabet\<close>

text \<open>\<open>base64.StdEncoding\<close>: \<open>+\<close> and \<open>/\<close> for the last two characters, and padding to groups of four.\<close>

definition std_of_url :: "char \<Rightarrow> char" where
  "std_of_url c = (if c = CHR ''-'' then CHR ''+'' else if c = CHR ''_'' then CHR ''/'' else c)"

definition url_of_std :: "char \<Rightarrow> char" where
  "url_of_std c = (if c = CHR ''+'' then CHR ''-'' else if c = CHR ''/'' then CHR ''_'' else c)"

definition std_encode :: "byte list \<Rightarrow> string" where
  "std_encode bs = map std_of_url (b64_encode bs) @ replicate ((3 - length bs mod 3) mod 3) (CHR ''='')"

definition std_decode :: "string \<Rightarrow> byte list option" where
  "std_decode s =
    (let cs = filter (\<lambda>c. c \<noteq> CHR 0x0A \<and> c \<noteq> CHR 0x0D) s;
         body = (if suffix ''=='' cs then take (length cs - 2) cs else if suffix ''='' cs then butlast cs else cs)
     in if length cs mod 4 \<noteq> 0 \<or> CHR ''-'' \<in> set body \<or> CHR ''_'' \<in> set body then None
        else b64_decode (map url_of_std body))"

lemma length_b64_encode: "length (b64_encode bs) + (3 - length bs mod 3) mod 3 = 4 * ((length bs + 2) div 3)"
proof (induction bs rule: b64_encode.induct)
  case (1 a b c rest)
  have "length (a # b # c # rest) mod 3 = length rest mod 3" by simp
  moreover have "(length (a # b # c # rest) + 2) div 3 = Suc ((length rest + 2) div 3)" by simp
  ultimately show ?case using 1 by (simp add: Let_def)
qed (simp_all add: Let_def)

lemma std_decode_encode: "std_decode (std_encode bs) = Some bs"
proof -
  let ?b = "map std_of_url (b64_encode bs)" and ?k = "(3 - length bs mod 3) mod 3"
  have ch: "c \<in> set b64_alphabet \<Longrightarrow> std_of_url c \<notin> {CHR 0x0A, CHR 0x0D, CHR ''='', CHR ''-'', CHR ''_''} \<and> url_of_std (std_of_url c) = c" for c
    by (auto simp: std_of_url_def url_of_std_def b64_alphabet_def)
  have b: "\<forall>c\<in>set ?b. c \<notin> {CHR 0x0A, CHR 0x0D, CHR ''='', CHR ''-'', CHR ''_''}" using ch b64_encode_chars [of bs] by auto
  have u: "map url_of_std ?b = b64_encode bs" using ch b64_encode_chars [of bs] by (auto intro!: map_idI)
  have f: "filter (\<lambda>c. c \<noteq> CHR 0x0A \<and> c \<noteq> CHR 0x0D) (std_encode bs) = std_encode bs"
    using b by (auto simp: std_encode_def intro!: filter_True)
  have l: "length (std_encode bs) mod 4 = 0" using length_b64_encode [of bs] by (simp add: std_encode_def)
  have no: "CHR ''='' \<notin> set ?b" using b by blast
  have ne: "\<not> suffix ''='' ?b"
  proof
    assume "suffix ''='' ?b"
    then obtain z where "?b = z @ ''=''" by (auto simp: suffix_def)
    then have "CHR ''='' \<in> set ?b" unfolding \<open>?b = z @ ''=''\<close> by simp
    then show False using no by blast
  qed
  consider "?k = 0" | "?k = 1" | "?k = 2" by linarith
  then have body: "(if suffix ''=='' (std_encode bs) then take (length (std_encode bs) - 2) (std_encode bs)
      else if suffix ''='' (std_encode bs) then butlast (std_encode bs) else std_encode bs) = ?b"
  proof cases
    case 1
    then have e: "std_encode bs = ?b" unfolding std_encode_def by simp
    have "\<not> suffix ''=='' ?b" using ne suffix_order.trans [of "''=''" "''==''" ?b] by (auto simp: suffix_def)
    then show ?thesis unfolding e using ne by simp
  next
    case 2
    then have e: "std_encode bs = ?b @ ''=''" unfolding std_encode_def by simp
    have "\<not> suffix ''=='' (?b @ ''='')"
    proof
      assume "suffix ''=='' (?b @ ''='')"
      then obtain z where "?b @ ''='' = z @ ''==''" by (auto simp: suffix_def)
      then have "?b = z @ ''=''" by simp
      then show False using ne by (simp add: suffix_def)
    qed
    then show ?thesis unfolding e by (simp add: suffix_def butlast_append)
  next
    case 3
    then have e: "std_encode bs = ?b @ ''==''" unfolding std_encode_def by (simp add: numeral_2_eq_2)
    show ?thesis unfolding e by (simp add: suffix_def)
  qed
  have "CHR ''-'' \<notin> set ?b" "CHR ''_'' \<notin> set ?b" using b by blast+
  then show ?thesis unfolding std_decode_def f Let_def body u using l by simp
qed

end
