(* ===== verification/Go_Net.thy ===== *)
theory Go_Net
  imports Go_Strings Go_Binary
begin

text \<open>
  Go's \<open>net\<close> package as the program uses it: \<open>ParseIP\<close>, \<open>ParseCIDR\<close>, masks, \<open>Contains\<close>
  and the printing of networks, for both address families.  An IP is a list of 4 or
  16 bytes; the parsers follow \<open>net/netip\<close>.
\<close>

unbundle bit_operations_syntax

section \<open>Parsing\<close>

definition parse_octet :: "string \<Rightarrow> byte option" where
  "parse_octet p =
    (case parse_digits p of None \<Rightarrow> None
     | Some n \<Rightarrow> if n > 255 \<or> (length p > 1 \<and> hd p = CHR ''0'') then None else Some (of_nat n))"

definition parse_ipv4 :: "string \<Rightarrow> byte list option" where
  "parse_ipv4 s = (case split_on (CHR ''.'') s of
     [a, b, c, d] \<Rightarrow>
       (case (parse_octet a, parse_octet b, parse_octet c, parse_octet d) of
          (Some p, Some q, Some r, Some t) \<Rightarrow> Some [p, q, r, t]
        | _ \<Rightarrow> None)
   | _ \<Rightarrow> None)"

definition hex_digit_val :: "char \<Rightarrow> nat option" where
  "hex_digit_val c =
    (let n = of_char c :: nat in
     if 48 \<le> n \<and> n \<le> 57 then Some (n - 48)
     else if 97 \<le> n \<and> n \<le> 102 then Some (n - 87)
     else if 65 \<le> n \<and> n \<le> 70 then Some (n - 55)
     else None)"

definition hex_span :: "string \<Rightarrow> string \<times> string" where
  "hex_span s = (takeWhile (\<lambda>c. hex_digit_val c \<noteq> None) s, dropWhile (\<lambda>c. hex_digit_val c \<noteq> None) s)"

definition hex_number :: "string \<Rightarrow> nat" where
  "hex_number ds = foldl (\<lambda>acc c. acc * 16 + (case hex_digit_val c of Some v \<Rightarrow> v | None \<Rightarrow> 0)) 0 ds"

text \<open>The loop over the groups of an IPv6 address: the bytes so far and the position of
  the ellipsis.  The result is the bytes and that position, with the whole string used.\<close>

function v6_loop :: "byte list \<Rightarrow> nat option \<Rightarrow> string \<Rightarrow> (byte list \<times> nat option) option" where
  "v6_loop ip ell s =
    (if length ip \<ge> 16 then (if s = [] then Some (ip, ell) else None)
     else
       (case hex_span s of (ds, t) \<Rightarrow>
        if ds = [] \<or> length ds > 4 then None
        else if t \<noteq> [] \<and> hd t = CHR ''.'' then
          (if ell = None \<and> length ip \<noteq> 12 then None
           else if length ip + 4 > 16 then None
           else (case parse_ipv4 s of None \<Rightarrow> None | Some bs \<Rightarrow> Some (ip @ bs, ell)))
        else
          (let acc = hex_number ds; ip' = ip @ [of_nat (acc div 256), of_nat (acc mod 256)] in
           case t of [] \<Rightarrow> Some (ip', ell)
           | c # u \<Rightarrow>
              if c \<noteq> CHR '':'' \<or> u = [] then None
              else if hd u = CHR '':'' then
                (if ell \<noteq> None then None
                 else if tl u = [] then Some (ip', Some (length ip'))
                 else v6_loop ip' (Some (length ip')) (tl u))
              else v6_loop ip' ell u)))"
  by pat_completeness auto
termination
proof (relation "measure (\<lambda>(ip, ell, s). length s)", goal_cases)
  case 1
  then show ?case by simp
next
  case (2 ip ell s ds t acc ip' c u)
  have "length t \<le> length s" using 2 by (auto simp: hex_span_def length_dropWhile_le)
  with 2 show ?case by auto
next
  case (3 ip ell s ds t acc ip' c u)
  have "length t \<le> length s" using 3 by (auto simp: hex_span_def length_dropWhile_le)
  with 3 show ?case by auto
qed

declare v6_loop.simps [simp del]

definition parse_ipv6 :: "string \<Rightarrow> byte list option" where
  "parse_ipv6 s =
    (let lead = (take 2 s = ''::''); t = (if lead then drop 2 s else s); ell0 = (if lead then Some 0 else None) in
     if lead \<and> t = [] then Some (replicate 16 0)
     else case v6_loop [] ell0 t of None \<Rightarrow> None
       | Some (ip, ell) \<Rightarrow>
          if length ip < 16 then
            (case ell of None \<Rightarrow> None
             | Some e \<Rightarrow> Some (take e ip @ replicate (16 - length ip) 0 @ drop e ip))
          else if ell \<noteq> None then None
          else Some ip)"

definition v4_in_v6 :: "byte list" where
  "v4_in_v6 = replicate 10 0 @ [255, 255]"

text \<open>\<open>netip.ParseAddr\<close> without zones: the family is decided by the first dot or colon.
  The boolean is that the address is IPv4; its bytes are always 16.\<close>

definition ParseAddr :: "string \<Rightarrow> (bool \<times> byte list) option" where
  "ParseAddr s =
    (if CHR ''%'' \<in> set s then None
     else case dropWhile (\<lambda>c. c \<noteq> CHR ''.'' \<and> c \<noteq> CHR '':'') s of
         [] \<Rightarrow> None
       | c # _ \<Rightarrow> if c = CHR ''.'' then map_option (\<lambda>bs. (True, v4_in_v6 @ bs)) (parse_ipv4 s)
           else map_option (Pair False) (parse_ipv6 s))"

definition ParseIP :: "string \<Rightarrow> byte list option" where
  "ParseIP s = map_option snd (ParseAddr s)"

definition To4 :: "byte list \<Rightarrow> byte list option" where
  "To4 ip = (if length ip = 4 then Some ip
     else if length ip = 16 \<and> take 12 ip = v4_in_v6 then Some (drop 12 ip) else None)"

section \<open>Networks\<close>

text \<open>The first \<open>n\<close> of \<open>8 * l\<close> bits set.\<close>

definition CIDRMask :: "nat \<Rightarrow> nat \<Rightarrow> byte list" where
  "CIDRMask n l = map (\<lambda>i. if n \<ge> 8 * (i + 1) then 255 else if n \<le> 8 * i then 0
     else of_nat (256 - 2 ^ (8 - (n - 8 * i)))) [0..<l]"

definition ip_Mask :: "byte list \<Rightarrow> byte list \<Rightarrow> byte list option" where
  "ip_Mask ip0 m0 =
    (let m = (if length m0 = 16 \<and> length ip0 = 4 \<and> take 12 m0 = replicate 12 255 then drop 12 m0 else m0);
         ip = (if length m = 4 \<and> length ip0 = 16 \<and> take 12 ip0 = v4_in_v6 then drop 12 ip0 else ip0)
     in if length ip = length m then Some (map2 (AND) ip m) else None)"

record ip_net =
  net_IP :: "byte list"
  net_Mask :: "byte list"

definition networkNumberAndMask :: "ip_net \<Rightarrow> (byte list \<times> byte list) option" where
  "networkNumberAndMask n =
    (let ip = (case To4 (net_IP n) of Some v4 \<Rightarrow> v4 | None \<Rightarrow> net_IP n); m = net_Mask n in
     if length ip \<noteq> 4 \<and> length ip \<noteq> 16 then None
     else if length m = 4 then (if length ip = 4 then Some (ip, m) else None)
     else if length m = 16 then Some (ip, if length ip = 4 then drop 12 m else m)
     else None)"

definition net_Contains :: "ip_net \<Rightarrow> byte list \<Rightarrow> bool" where
  "net_Contains n ip =
    (let ip = (case To4 ip of Some v4 \<Rightarrow> v4 | None \<Rightarrow> ip) in
     case networkNumberAndMask n of None \<Rightarrow> False
     | Some (nn, m) \<Rightarrow> length ip = length nn \<and> map2 (AND) nn m = map2 (AND) ip m)"

definition ParseCIDR :: "string \<Rightarrow> ip_net option" where
  "ParseCIDR s =
    (let i = index_byte s (CHR ''/'') in
     if i < 0 then None
     else
       (let addr = take (nat i) s; bits = drop (nat i + 1) s in
        case ParseAddr addr of None \<Rightarrow> None
        | Some (v4, bs) \<Rightarrow>
           (case parse_digits bits of None \<Rightarrow> None
            | Some n \<Rightarrow>
               if n > (if v4 then 32 else 128) then None
               else
                 (let m = CIDRMask n (if v4 then 4 else 16) in
                  case ip_Mask bs m of None \<Rightarrow> None
                  | Some ip \<Rightarrow> Some \<lparr>net_IP = ip, net_Mask = m\<rparr>))))"

section \<open>Printing\<close>

definition ipv4_string :: "byte list \<Rightarrow> string" where
  "ipv4_string bs = join_with (CHR ''.'') (map (\<lambda>b. dec_nat (unat b)) bs)"

fun hex_nat :: "nat \<Rightarrow> string" where
  "hex_nat n =
    (let d = (\<lambda>k. if k < 10 then char_of (48 + k) else char_of (87 + k)) in
     if n < 16 then [d n] else hex_nat (n div 16) @ [d (n mod 16)])"

declare hex_nat.simps [simp del]

fun groups16 :: "byte list \<Rightarrow> nat list" where
  "groups16 (a # b # rest) = (unat a * 256 + unat b) # groups16 rest"
| "groups16 _ = []"

text \<open>The longest run of at least two zero groups, the first of that length.\<close>

definition zero_run :: "nat list \<Rightarrow> nat \<Rightarrow> nat" where
  "zero_run gs i = length (takeWhile (\<lambda>g. g = 0) (drop i gs))"

definition best_run :: "nat list \<Rightarrow> (nat \<times> nat) option" where
  "best_run gs = foldl (\<lambda>best i. let l = zero_run gs i in
     if l \<ge> 2 \<and> l > (case best of None \<Rightarrow> 0 | Some (_, k) \<Rightarrow> k) then Some (i, l) else best) None [0..<length gs]"

definition ipv6_string :: "byte list \<Rightarrow> string" where
  "ipv6_string bs =
    (let gs = groups16 bs; h = (\<lambda>l. join_with (CHR '':'') (map hex_nat l)) in
     case best_run gs of None \<Rightarrow> h gs
     | Some (i, l) \<Rightarrow> h (take i gs) @ ''::'' @ h (drop (i + l) gs))"

definition IP_String :: "byte list \<Rightarrow> string" where
  "IP_String ip = (case To4 ip of Some v4 \<Rightarrow> ipv4_string v4 | None \<Rightarrow> ipv6_string ip)"

text \<open>\<open>IPNet.String\<close> for a mask that is a prefix of \<open>n\<close> ones.\<close>

definition mask_bits :: "byte list \<Rightarrow> nat" where
  "mask_bits m = length (takeWhile id (concat (map (\<lambda>b. map (\<lambda>i. bit b (7 - i)) [0..<8]) m)))"

definition IPNet_String :: "ip_net \<Rightarrow> string" where
  "IPNet_String n = (case networkNumberAndMask n of None \<Rightarrow> ''<nil>''
     | Some (nn, m) \<Rightarrow> IP_String nn @ ''/'' @ dec_nat (mask_bits m))"

section \<open>Dotted quads\<close>

lemma parse_octet_dec: "parse_octet (dec_nat (unat b)) = Some b"
  using byte_bound [of b] dec_nat_hd [of "unat b"] by (auto simp: parse_octet_def)

lemma dec_nat_no_dot: "CHR ''.'' \<notin> set (dec_nat n)" "CHR '':'' \<notin> set (dec_nat n)" "CHR ''%'' \<notin> set (dec_nat n)" "CHR ''/'' \<notin> set (dec_nat n)"
  using dec_nat_digits [of n] by (auto simp: list_all_iff is_digit_def)

lemma parse_ipv4_string: "parse_ipv4 (ipv4_string [a, b, c, d]) = Some [a, b, c, d]"
proof -
  have "split_on (CHR ''.'') (ipv4_string [a, b, c, d]) = map (\<lambda>b. dec_nat (unat b)) [a, b, c, d]"
    unfolding ipv4_string_def by (rule split_join) (auto simp: dec_nat_no_dot)
  then show ?thesis by (simp add: parse_ipv4_def parse_octet_dec)
qed

lemma ipv4_string_chars:
  "CHR '':'' \<notin> set (ipv4_string bs)" "CHR ''%'' \<notin> set (ipv4_string bs)" "CHR ''/'' \<notin> set (ipv4_string bs)"
  using join_with_set [of "CHR ''.''" "map (\<lambda>b. dec_nat (unat b)) bs"] dec_nat_no_dot
  by (fastforce simp: ipv4_string_def)+

lemma ParseAddr_ipv4: "ParseAddr (ipv4_string [a, b, c, d]) = Some (True, v4_in_v6 @ [a, b, c, d])"
proof -
  let ?rest = "join_with (CHR ''.'') (map (\<lambda>b. dec_nat (unat b)) [b, c, d])"
  have s: "ipv4_string [a, b, c, d] = dec_nat (unat a) @ CHR ''.'' # ?rest"
    by (simp add: ipv4_string_def)
  have "\<forall>x \<in> set (dec_nat (unat a)). x \<noteq> CHR ''.'' \<and> x \<noteq> CHR '':''"
    using dec_nat_no_dot [of "unat a"] by auto
  then have "dropWhile (\<lambda>c. c \<noteq> CHR ''.'' \<and> c \<noteq> CHR '':'') (ipv4_string [a, b, c, d]) = CHR ''.'' # ?rest"
    unfolding s by (subst dropWhile_append2) auto
  then show ?thesis
    using ipv4_string_chars(2) [of "[a, b, c, d]"] parse_ipv4_string [of a b c d] by (simp add: ParseAddr_def)
qed

lemma To4_mapped: "length bs = 4 \<Longrightarrow> To4 (v4_in_v6 @ bs) = Some bs"
  by (simp add: To4_def v4_in_v6_def)

lemma ParseIP_ipv4: "ParseIP (ipv4_string [a, b, c, d]) = Some (v4_in_v6 @ [a, b, c, d])"
  by (simp add: ParseIP_def ParseAddr_ipv4)

lemma CIDRMask_24: "CIDRMask 24 4 = [255, 255, 255, 0]"
  by (simp add: CIDRMask_def upt_rec)

lemma ParseCIDR_24:
  "ParseCIDR (ipv4_string [a, b, c, 0] @ ''/24'') = Some \<lparr>net_IP = [a, b, c, 0], net_Mask = [255, 255, 255, 0]\<rparr>"
proof -
  let ?s = "ipv4_string [a, b, c, 0]"
  have idx: "index_byte (?s @ ''/24'') (CHR ''/'') = int (length ?s)"
    using index_byte_append [OF ipv4_string_chars(3) [of "[a, b, c, 0]"], of "''24''"] by simp
  have "parse_digits ''24'' = Some 24"
    by (simp add: parse_digits_def is_digit_def nat_of_digits_def digit_val_def)
  moreover have m: "ip_Mask (v4_in_v6 @ [a, b, c, 0]) [255, 255, 255, 0] = Some [a, b, c, 0]"
  proof -
    have "(255 :: byte) = - 1" by simp
    then have "x AND 255 = x" for x :: byte by (metis and.right_neutral)
    then show ?thesis by (simp add: ip_Mask_def v4_in_v6_def)
  qed
  ultimately show ?thesis
    by (simp add: ParseCIDR_def idx ParseAddr_ipv4 CIDRMask_24)
qed

end
