(* ===== verification/Token.thy ===== *)
theory Token
  imports Go_Json_Print Go_Base64 Go_Net
begin

text \<open>
  \<open>internal/auth/token.go\<close>: dispatch tokens.  The payload is the JSON text of a
  \<open>TokenPayload\<close>, its base64 form is signed with HMAC-SHA256, and the token is the two
  parts around a dot.  \<open>now\<close> is \<open>time.Now().Unix()\<close>.
\<close>

record token_payload =
  tp_Key :: string
  tp_Exp :: int
  tp_IPPrefix :: string

datatype token_error =
    InvalidFormat | InvalidSignature | DecodePayload | UnmarshalPayload | TokenExpired
  | InvalidIPPrefix | InvalidClientIP | IPMismatch

section \<open>The payload as JSON\<close>

definition payload_members :: "token_payload \<Rightarrow> (string \<times> json) list" where
  "payload_members p =
    [(''key'', JStr (tp_Key p)), (''exp'', JNum (format_int (tp_Exp p)))] @
    (if tp_IPPrefix p = [] then [] else [(''ip_prefix'', JStr (tp_IPPrefix p))])"

definition marshal_payload :: "token_payload \<Rightarrow> string" where
  "marshal_payload p = json_print (JObj (payload_members p))"

definition payload_field :: "token_payload \<Rightarrow> string \<Rightarrow> json \<Rightarrow> token_payload \<times> bool" where
  "payload_field p k v =
    (if field_is ''key'' k then str_field (\<lambda>s. p\<lparr>tp_Key := s\<rparr>) p v
     else if field_is ''exp'' k then int_field (\<lambda>n. p\<lparr>tp_Exp := n\<rparr>) p v
     else if field_is ''ip_prefix'' k then str_field (\<lambda>s. p\<lparr>tp_IPPrefix := s\<rparr>) p v
     else (p, True))"

definition zero_payload :: token_payload where
  "zero_payload = \<lparr>tp_Key = [], tp_Exp = 0, tp_IPPrefix = []\<rparr>"

definition unmarshal_payload :: "string \<Rightarrow> token_payload option" where
  "unmarshal_payload s = read_struct payload_field zero_payload s"

section \<open>Signing and verifying\<close>

definition token_sig :: "string \<Rightarrow> string \<Rightarrow> string" where
  "token_sig secret encoded = b64_encode (hmac_sha256 (bytes_of secret) (bytes_of encoded))"

definition Sign :: "string \<Rightarrow> int \<Rightarrow> token_payload \<Rightarrow> string" where
  "Sign secret now p0 =
    (let p = (if tp_Exp p0 = 0 then p0\<lparr>tp_Exp := i64 (now + 300)\<rparr> else p0);
         encoded = b64_encode (bytes_of (marshal_payload p))
     in encoded @ ''.'' @ token_sig secret encoded)"

definition splitToken :: "string \<Rightarrow> string list" where
  "splitToken tok = (let i = index_byte tok (CHR ''.'') in
     if i < 0 then [tok] else [take (nat i) tok, drop (nat i + 1) tok])"

definition Verify :: "string \<Rightarrow> int \<Rightarrow> string \<Rightarrow> token_error + token_payload" where
  "Verify secret now tok =
    (case splitToken tok of
       [encoded, sig] \<Rightarrow>
         if sig \<noteq> token_sig secret encoded then Inl InvalidSignature
         else (case b64_decode encoded of None \<Rightarrow> Inl DecodePayload
          | Some bs \<Rightarrow>
             (case unmarshal_payload (string_of bs) of None \<Rightarrow> Inl UnmarshalPayload
              | Some p \<Rightarrow> if now > tp_Exp p then Inl TokenExpired else Inr p))
     | _ \<Rightarrow> Inl InvalidFormat)"

section \<open>IP binding\<close>

definition MatchesIP :: "token_payload \<Rightarrow> string \<Rightarrow> token_error + bool" where
  "MatchesIP p ip =
    (if tp_IPPrefix p = [] then Inr True
     else case ParseCIDR (tp_IPPrefix p) of None \<Rightarrow> Inl InvalidIPPrefix
      | Some cidr \<Rightarrow>
         (case ParseIP ip of None \<Rightarrow> Inl InvalidClientIP
          | Some parsed \<Rightarrow> Inr (net_Contains cidr parsed)))"

definition VerifyWithIP :: "string \<Rightarrow> int \<Rightarrow> string \<Rightarrow> string \<Rightarrow> token_error + token_payload" where
  "VerifyWithIP secret now tok clientIP =
    (case Verify secret now tok of Inl e \<Rightarrow> Inl e
     | Inr p \<Rightarrow>
        (case MatchesIP p clientIP of Inl e \<Rightarrow> Inl e
         | Inr ok \<Rightarrow> if ok then Inr p else Inl IPMismatch))"

definition net_of :: "byte list \<Rightarrow> byte list \<Rightarrow> ip_net" where
  "net_of ip m = \<lparr>net_IP = (case ip_Mask ip m of Some x \<Rightarrow> x | None \<Rightarrow> []), net_Mask = m\<rparr>"

definition ComputeIPPrefix :: "string \<Rightarrow> string" where
  "ComputeIPPrefix ip =
    (case ParseIP ip of None \<Rightarrow> []
     | Some parsed \<Rightarrow>
        (case To4 parsed of
           Some v4 \<Rightarrow> IPNet_String (net_of v4 (CIDRMask 24 4))
         | None \<Rightarrow> IPNet_String (net_of parsed (CIDRMask 64 16))))"

section \<open>Laws\<close>

lemma field_names: "plain_name ''key''" "plain_name ''exp''" "plain_name ''ip_prefix''"
  by (simp_all add: plain_name_def)

definition payload_ok :: "token_payload \<Rightarrow> bool" where
  "payload_ok p \<longleftrightarrow> valid_utf8 (tp_Key p) \<and> valid_utf8 (tp_IPPrefix p) \<and> is_i64 (tp_Exp p)"

lemma payload_members_ok: "payload_ok p \<Longrightarrow> json_ok 10000 (JObj (payload_members p))"
  by (simp add: payload_ok_def payload_members_def utf8_plain field_names del: json_ok.simps(1))

lemma unmarshal_marshal:
  assumes "payload_ok p"
  shows "unmarshal_payload (marshal_payload p) = Some p"
  unfolding unmarshal_payload_def marshal_payload_def read_struct_print [OF payload_members_ok [OF assms]]
  using assms by (cases p) (simp add: payload_members_def read_member_def payload_field_def field_names zero_payload_def payload_ok_def)

lemma splitToken_dot: "CHR ''.'' \<notin> set a \<Longrightarrow> splitToken (a @ CHR ''.'' # b) = [a, b]"
  by (simp add: splitToken_def index_byte_append)

lemma Verify_signed:
  "Verify secret now (b64_encode bs @ CHR ''.'' # token_sig secret (b64_encode bs)) =
    (case unmarshal_payload (string_of bs) of None \<Rightarrow> Inl UnmarshalPayload
     | Some p \<Rightarrow> if now > tp_Exp p then Inl TokenExpired else Inr p)"
  by (simp add: Verify_def splitToken_dot b64_encode_no_dot)

lemma Verify_Sign:
  assumes "payload_ok p" "tp_Exp p \<noteq> 0"
  shows "Verify secret now' (Sign secret now p) = (if now' > tp_Exp p then Inl TokenExpired else Inr p)"
  using assms by (simp add: Sign_def Let_def Verify_signed unmarshal_marshal)

definition signed_payload :: "int \<Rightarrow> token_payload \<Rightarrow> token_payload" where
  "signed_payload now p = (if tp_Exp p = 0 then p\<lparr>tp_Exp := i64 (now + 300)\<rparr> else p)"

lemma Sign_signed: "Sign secret now p = Sign secret now (signed_payload now p) \<or> i64 (now + 300) = 0"
  by (auto simp: Sign_def signed_payload_def)



text \<open>C2: whatever \<open>VerifyWithIP\<close> accepts is unexpired and carries the HMAC of its own first
  part under the secret: the text after the first dot is that signature, nothing else passes, and
  the client's address is inside the prefix of a bound token.\<close>

theorem VerifyWithIP_authentic:
  assumes "VerifyWithIP secret now tok clientIP = Inr p"
  shows "(\<exists>encoded bs. tok = encoded @ ''.'' @ b64_encode (hmac_sha256 (bytes_of secret) (bytes_of encoded)) \<and>
      CHR ''.'' \<notin> set encoded \<and> b64_decode encoded = Some bs \<and> unmarshal_payload (string_of bs) = Some p) \<and>
    now \<le> tp_Exp p \<and>
    (tp_IPPrefix p = [] \<or> (\<exists>cidr ip. ParseCIDR (tp_IPPrefix p) = Some cidr \<and> ParseIP clientIP = Some ip \<and> net_Contains cidr ip))"
proof -
  have v: "Verify secret now tok = Inr p" and m: "MatchesIP p clientIP = Inr True"
    using assms by (auto simp: VerifyWithIP_def split: sum.splits if_splits)
  have "\<not> index_byte tok (CHR ''.'') < 0" using v by (auto simp: Verify_def splitToken_def Let_def)
  then obtain a b where ab: "tok = a @ CHR ''.'' # b" "CHR ''.'' \<notin> set a"
    using split_list_first [of "CHR ''.''" tok] by (auto simp: index_byte_neg)
  then have "b = token_sig secret a \<and> now \<le> tp_Exp p \<and> (\<exists>bs. b64_decode a = Some bs \<and> unmarshal_payload (string_of bs) = Some p)"
    using v by (auto simp: Verify_def splitToken_dot split: if_splits option.splits)
  then show ?thesis
    using ab m by (auto simp: token_sig_def MatchesIP_def split: option.splits if_splits)
qed

lemma mask_bits_24: "mask_bits [255, 255, 255, 0] = 24"
proof -
  have "map (\<lambda>i. bit (255 :: byte) (7 - i)) [0..<8] = replicate 8 True"
    by (simp add: upt_rec bit_numeral_rec numeral_eq_Suc)
  moreover have "map (\<lambda>i. bit (0 :: byte) (7 - i)) [0..<8] = replicate 8 False"
    by (simp add: upt_rec numeral_eq_Suc)
  ultimately show ?thesis
    unfolding mask_bits_def by (simp del: upt_Suc add: numeral_eq_Suc)
qed

lemma and_255: "x AND 255 = (x :: byte)"
proof -
  have "(255 :: byte) = - 1" by simp
  then show ?thesis by (metis and.right_neutral)
qed

lemma ComputeIPPrefix_v4: "ComputeIPPrefix (ipv4_string [a, b, c, d]) = ipv4_string [a, b, c, 0] @ ''/24''"
  by (simp add: ComputeIPPrefix_def ParseIP_ipv4 To4_mapped CIDRMask_24 net_of_def ip_Mask_def
      IPNet_String_def networkNumberAndMask_def To4_def IP_String_def mask_bits_24 and_255 dec_nat.simps digit_char_codes v4_in_v6_def)

lemma net_Contains_24:
  "net_Contains \<lparr>net_IP = [a, b, c, 0], net_Mask = [255, 255, 255, 0]\<rparr> (v4_in_v6 @ [a', b', c', d']) \<longleftrightarrow> a' = a \<and> b' = b \<and> c' = c"
  by (auto simp: net_Contains_def To4_mapped networkNumberAndMask_def To4_def and_255 v4_in_v6_def)

lemma ipv4_string_ascii: "x \<in> set (ipv4_string bs) \<Longrightarrow> (of_char x :: nat) < 128"
proof -
  assume "x \<in> set (ipv4_string bs)"
  then consider "x = CHR ''.''" | n where "x \<in> set (dec_nat n)"
    using join_with_set [of "CHR ''.''" "map (\<lambda>b. dec_nat (unat b)) bs"] by (auto simp: ipv4_string_def)
  then show ?thesis
  proof cases
    case 2
    then have "is_digit x" using dec_nat_digits [of n] by (simp add: list_all_iff)
    then show ?thesis by (simp add: is_digit_def Let_def)
  qed simp
qed

lemma valid_prefix: "valid_utf8 (ipv4_string bs @ ''/24'')"
  by (rule valid_utf8_ascii) (auto dest: ipv4_string_ascii)

text \<open>A token bound to \<open>ComputeIPPrefix\<close> of an IPv4 client is accepted from exactly the
  addresses of that client's /24 network, and from no other IPv4 address.\<close>

theorem ComputeIPPrefix_binds:
  "MatchesIP \<lparr>tp_Key = key, tp_Exp = e, tp_IPPrefix = ComputeIPPrefix (ipv4_string [a, b, c, d])\<rparr>
     (ipv4_string [a', b', c', d']) = Inr (a' = a \<and> b' = b \<and> c' = c)"
  by (simp add: MatchesIP_def ComputeIPPrefix_v4 ParseCIDR_24 ParseIP_ipv4 net_Contains_24)

theorem VerifyWithIP_authentic_witness:
  "\<exists>tok encoded bs. let p = \<lparr>tp_Key = ''k'', tp_Exp = 50, tp_IPPrefix = ''10.0.0.0/24''\<rparr> in
     VerifyWithIP ''s'' 20 tok ''10.0.0.7'' = Inr p \<and>
     tok = encoded @ ''.'' @ b64_encode (hmac_sha256 (bytes_of ''s'') (bytes_of encoded)) \<and>
     b64_decode encoded = Some bs \<and> unmarshal_payload (string_of bs) = Some p"
proof -
  let ?p = "\<lparr>tp_Key = ''k'', tp_Exp = 50, tp_IPPrefix = ''10.0.0.0/24''\<rparr>"
  let ?tok = "Sign ''s'' 10 ?p"
  have dot: "''10.0.0.0/24'' = ipv4_string [10, 0, 0, 0] @ ''/24''" "''10.0.0.7'' = ipv4_string [10, 0, 0, 7]"
    by (simp_all add: ipv4_string_def dec_nat.simps digit_char_codes)
  have "payload_ok ?p" by (simp add: payload_ok_def valid_utf8_ascii is_i64_def)
  then have "Verify ''s'' 20 ?tok = Inr ?p" by (simp add: Verify_Sign)
  moreover have "MatchesIP ?p ''10.0.0.7'' = Inr True"
    unfolding MatchesIP_def by (simp add: dot ParseCIDR_24 ParseIP_ipv4 net_Contains_24)
  ultimately have v: "VerifyWithIP ''s'' 20 ?tok ''10.0.0.7'' = Inr ?p" by (simp add: VerifyWithIP_def)
  show ?thesis using VerifyWithIP_authentic [OF v] v by (auto simp: Let_def)
qed

end
