(* ===== verification/Scheduler.thy ===== *)
theory Scheduler
  imports Scored_Heap Node_Cache Content_Index Streaming_Strategy Token
begin

text \<open>
  \<open>internal/controlplane/scheduler.go\<close>: filtering and scoring the active nodes, the choice of the
  best candidates, the signed token and the fallback to the origin.  Scores are computed with the
  rounding of \<open>float64\<close>, without fused multiply-add.
\<close>

record scheduler_config =
  sc_MaxCandidates :: int
  sc_DefaultTTLMs :: int
  sc_DegradeToOrigin :: bool
  sc_OriginURL :: string
  sc_HotContentAwareWeight :: float64
  sc_ContentAwareWeight :: float64
  sc_SmallBandwidth :: bool
  sc_SmallBandwidthThreshold :: int

text \<open>The scheduler with the collaborators it is given: a nil interface is \<^const>\<open>None\<close>.\<close>

record scheduler =
  sch_contentIndex :: "content_index_lookup option"
  sch_secret :: string
  sch_cfg :: scheduler_config
  sch_tunnelMgr :: "(string \<Rightarrow> bool) option"
  sch_streamStrat :: "streaming_strategy option"

section \<open>Scoring\<close>

abbreviation has :: "(string, bool) gomap \<Rightarrow> string \<Rightarrow> bool" where
  "has m n \<equiv> gm_get m n = Some True"

definition region_isp_score :: "node \<Rightarrow> client_info \<Rightarrow> float64" where
  "region_isp_score n client =
    (let s = (if n_region n = ci_region client \<and> ci_region client \<noteq> [] then fadd 0 30 else 0) in
     if n_isp n = ci_isp client \<and> ci_isp client \<noteq> [] then fadd s 20 else s)"

definition health_score :: "node_scores \<Rightarrow> float64" where
  "health_score sc = fsub (fadd (fmul (sc_reachable sc) (f64 (3/10))) (fmul (sc_health sc) (f64 (2/10)))) (fmul (sc_risk sc) (f64 (5/10)))"

definition content_score :: "scheduler \<Rightarrow> node \<Rightarrow> string \<Rightarrow> (string, bool) gomap \<Rightarrow> (string, bool) gomap \<Rightarrow> float64 \<Rightarrow> float64" where
  "content_score sch n key hot bloom s =
    (let hw = sc_HotContentAwareWeight (sch_cfg sch); cw = sc_ContentAwareWeight (sch_cfg sch) in
     if has hot (n_node_id n) then fadd s hw
     else if has bloom (n_node_id n) then fadd s cw
     else case sch_contentIndex sch of None \<Rightarrow> s
      | Some ix \<Rightarrow> (case cl_IsCached ix (n_node_id n) key of (isHot, likelyCached) \<Rightarrow>
          if isHot then fadd s hw else if likelyCached then fadd s cw else s))"

definition stream_score :: "scheduler \<Rightarrow> node \<Rightarrow> string \<Rightarrow> (string, bool) gomap \<Rightarrow> float64 \<Rightarrow> float64" where
  "stream_score sch n key stream s =
    (if has stream (n_node_id n) then fadd s 20
     else case sch_streamStrat sch of None \<Rightarrow> s | Some ss \<Rightarrow> fadd s (StreamScore ss (n_node_id n) key))"

definition bandwidth_score :: "scheduler_config \<Rightarrow> node \<Rightarrow> bool \<Rightarrow> float64 \<Rightarrow> float64" where
  "bandwidth_score cfg n cached s =
    (if \<not> sc_SmallBandwidth cfg then s
     else
       (let bw = cap_max_uplink_mbps (n_capabilities n);
            s1 = (if bw > 0 then
                (let bwScore = fmul (float_of_int bw) (f64 (2/10));
                     s = fadd s (if bwScore > 20 then 20 else bwScore);
                     s = (if cap_current_egress_mbps (n_capabilities n) > fmul (float_of_int bw) (f64 (8/10)) then fsub s 15 else s)
                 in if bw < sc_SmallBandwidthThreshold cfg \<and> cached then fadd s 30 else s)
              else s)
        in if cap_shield_mode (n_capabilities n) then fadd s1 20 else s1))"

definition scoreKeyFast :: "scheduler \<Rightarrow> node \<Rightarrow> client_info \<Rightarrow> string \<Rightarrow> (string, bool) gomap \<Rightarrow> (string, bool) gomap \<Rightarrow> (string, bool) gomap \<Rightarrow> float64" where
  "scoreKeyFast sch n client key hot bloom stream =
    (let s = fadd (region_isp_score n client) (health_score (n_scores n));
         s = (if cap_tunnel_required (n_capabilities n) then fsub s 15 else s);
         s = (if key \<noteq> [] then stream_score sch n key stream (content_score sch n key hot bloom s) else s);
         s = bandwidth_score (sch_cfg sch) n (has hot (n_node_id n) \<or> has bloom (n_node_id n)) s
     in if s < 0 then 0 else s)"

definition scoreKey :: "scheduler \<Rightarrow> node \<Rightarrow> client_info \<Rightarrow> string \<Rightarrow> float64" where
  "scoreKey sch n client key = scoreKeyFast sch n client key [] [] []"

definition score :: "scheduler \<Rightarrow> node \<Rightarrow> client_info \<Rightarrow> float64" where
  "score sch n client = scoreKey sch n client []"

section \<open>Filtering\<close>

definition dispatchable :: "scheduler \<Rightarrow> node \<Rightarrow> bool" where
  "dispatchable sch n \<longleftrightarrow>
    \<not> (n_status n = Disabled \<or> n_status n = Maintenance) \<and>
    (if cap_inbound_reachable (n_capabilities n) then sc_reachable (n_scores n) \<ge> 10
     else cap_tunnel_required (n_capabilities n) \<and>
       (case sch_tunnelMgr sch of None \<Rightarrow> False | Some isConnected \<Rightarrow> isConnected (n_node_id n)))"

definition filter_nodes :: "scheduler \<Rightarrow> node list \<Rightarrow> node list" where
  "filter_nodes sch ns = filter (dispatchable sch) ns"

definition keep_small :: "scheduler \<Rightarrow> string \<Rightarrow> node \<Rightarrow> bool" where
  "keep_small sch key n =
    (let bw = cap_max_uplink_mbps (n_capabilities n) in
     if bw > 0 \<and> bw < sc_SmallBandwidthThreshold (sch_cfg sch) then
       (case sch_contentIndex sch of None \<Rightarrow> True
        | Some ix \<Rightarrow>
           if key = [] then True
           else (case cl_IsCached ix (n_node_id n) key of (isHot, likelyCached) \<Rightarrow>
             isHot \<or> likelyCached \<or>
             (float_of_int bw > 0 \<and> fdiv (cap_current_egress_mbps (n_capabilities n)) (float_of_int bw) < f64 (5/10))))
     else True)"

definition filterForSmallBandwidth :: "scheduler \<Rightarrow> node list \<Rightarrow> string \<Rightarrow> node list" where
  "filterForSmallBandwidth sch ns key =
    (if \<not> sc_SmallBandwidth (sch_cfg sch) then ns else filter (keep_small sch key) ns)"

section \<open>Responses\<close>

definition hex_int :: "int \<Rightarrow> string" where
  "hex_int n = (if n < 0 then CHR ''-'' # hex_nat (nat (- n)) else hex_nat (nat n))"

text \<open>\<open>%x-%x\<close> of the time in nanoseconds and the next value of the request counter.\<close>

definition request_id :: "int \<Rightarrow> nat \<Rightarrow> string" where
  "request_id nanos seq = hex_int nanos @ ''-'' @ hex_nat ((seq + 1) mod 18446744073709551616)"

definition no_meta :: candidate_meta where
  "no_meta = \<lparr>cm_region = [], cm_isp = [], cm_proxy_mode = [], cm_gateway_url = []\<rparr>"

definition no_token :: dispatch_token where
  "no_token = \<lparr>dt_type = [], dt_value = [], dt_exp = 0\<rparr>"

definition NoOriginFallback :: "scheduler \<Rightarrow> int \<Rightarrow> nat \<Rightarrow> dispatch_response" where
  "NoOriginFallback sch nanos seq =
    \<lparr>dr_request_id = request_id nanos seq, dr_ttl_ms = sc_DefaultTTLMs (sch_cfg sch), dr_token = no_token,
     dr_candidates =
       (if \<not> sc_DegradeToOrigin (sch_cfg sch) then None
        else Some [\<lparr>cd_id = ''origin'',
          cd_endpoint = (if sc_OriginURL (sch_cfg sch) = [] then ''http://localhost:7070'' else sc_OriginURL (sch_cfg sch)),
          cd_weight = 1, cd_meta = no_meta\<rparr>])\<rparr>"

definition scored :: "scheduler \<Rightarrow> client_info \<Rightarrow> string \<Rightarrow> (string, bool) gomap \<Rightarrow> (string, bool) gomap \<Rightarrow> (string, bool) gomap \<Rightarrow> node \<Rightarrow> scored_node" where
  "scored sch client key hot bloom stream n =
    \<lparr>sn_node = n, sn_score = scoreKeyFast sch n client key hot bloom stream,
     sn_endpoint = (if cap_inbound_reachable (n_capabilities n) \<and> n_endpoints n \<noteq> [] then endpoint_URL (hd (n_endpoints n)) else [])\<rparr>"

definition candidate_of :: "scored_node \<Rightarrow> candidate" where
  "candidate_of sn =
    \<lparr>cd_id = n_node_id (sn_node sn), cd_endpoint = sn_endpoint sn, cd_weight = int_of_float (sn_score sn),
     cd_meta = \<lparr>cm_region = n_region (sn_node sn), cm_isp = n_isp (sn_node sn),
       cm_proxy_mode = (if cap_tunnel_required (n_capabilities (sn_node sn)) then ''tunnel'' else ''direct''),
       cm_gateway_url = []\<rparr>\<rparr>"

definition candidates :: "scheduler \<Rightarrow> client_info \<Rightarrow> string \<Rightarrow> (string, bool) gomap \<Rightarrow> (string, bool) gomap \<Rightarrow> (string, bool) gomap \<Rightarrow> node list \<Rightarrow> candidate list" where
  "candidates sch client key hot bloom stream ns =
    map candidate_of (rev (scored_sorted
      (fold scored_push (map (scored sch client key hot bloom stream) ns) \<lparr>sh_nodes = [], sh_max = sc_MaxCandidates (sch_cfg sch)\<rparr>)))"

text \<open>The expiry in seconds of a token signed at \<open>nanos\<close> that lives for \<open>ttl\<close> milliseconds.\<close>

definition token_exp :: "int \<Rightarrow> int \<Rightarrow> int" where
  "token_exp nanos ttl = (nanos + i64 (ttl * 1000000)) div 1000000000"

definition dispatch_payload :: "dispatch_request \<Rightarrow> int \<Rightarrow> token_payload" where
  "dispatch_payload req e =
    \<lparr>tp_Key = res_key (dq_resource req), tp_Exp = e,
     tp_IPPrefix = (if ci_ip (dq_client req) \<noteq> [] then ComputeIPPrefix (ci_ip (dq_client req)) else [])\<rparr>"

text \<open>The nodes of a request that get scored, and the three maps looked up once per request.\<close>

definition eligible :: "scheduler \<Rightarrow> string \<Rightarrow> node list \<Rightarrow> node list" where
  "eligible sch key ns = filterForSmallBandwidth sch (filter_nodes sch ns) key"

definition index_maps :: "scheduler \<Rightarrow> string \<Rightarrow> (string, bool) gomap \<times> (string, bool) gomap" where
  "index_maps sch key =
    (case sch_contentIndex sch of None \<Rightarrow> ([], []) | Some ix \<Rightarrow> if key \<noteq> [] then cl_FindNodesWithKey ix key else ([], []))"

definition stream_map :: "scheduler \<Rightarrow> string \<Rightarrow> (string, bool) gomap" where
  "stream_map sch key =
    (case sch_streamStrat sch of None \<Rightarrow> []
     | Some ss \<Rightarrow> if key \<noteq> [] then
         (case InferStreamFromChunkKey key of None \<Rightarrow> [] | Some (streamKey, _) \<Rightarrow> FindNodesWithStream ss streamKey)
         else [])"

text \<open>\<open>Resolve\<close>: the node cache is asked at times \<open>t0, t1, t2\<close>, the expiry is computed at \<open>t3\<close>, the
  token signed at \<open>t4\<close> and the response stamped at \<open>t5\<close>.\<close>

definition Resolve :: "scheduler \<Rightarrow> (nat \<Rightarrow> int) \<Rightarrow> nat \<Rightarrow> pg_error + node list \<Rightarrow> node_cache \<Rightarrow> dispatch_request \<Rightarrow>
    node_cache \<times> (pg_error + dispatch_response)" where
  "Resolve sch clock seq listing cache req =
    (case GetActiveNodes (clock 0) (clock 1) (clock 2) listing cache of
       (cache', Inl e) \<Rightarrow> (cache', Inl e)
     | (cache', Inr ns) \<Rightarrow>
         (let key = res_key (dq_resource req) in
          if filter_nodes sch ns = [] \<or> eligible sch key ns = [] then (cache', Inr (NoOriginFallback sch (clock 5) seq))
          else
            (let (hot, bloom) = index_maps sch key;
                 e = token_exp (clock 3) (sc_DefaultTTLMs (sch_cfg sch))
             in (cache', Inr
                \<lparr>dr_request_id = request_id (clock 5) seq, dr_ttl_ms = sc_DefaultTTLMs (sch_cfg sch),
                 dr_token = \<lparr>dt_type = ''hmac'',
                   dt_value = Sign (sch_secret sch) (clock 4 div 1000000000) (dispatch_payload req e), dt_exp = e\<rparr>,
                 dr_candidates = Some (candidates sch (dq_client req) key hot bloom (stream_map sch key) (eligible sch key ns))\<rparr>))))"

section \<open>One pass instead of a lookup per node\<close>

definition index_ok :: "scheduler \<Rightarrow> bool" where
  "index_ok sch \<longleftrightarrow> (case sch_contentIndex sch of None \<Rightarrow> True | Some l \<Rightarrow> \<exists>ix. l = index_lookup ix \<and> index_wf ix)"

definition strat_ok :: "scheduler \<Rightarrow> bool" where
  "strat_ok sch \<longleftrightarrow> (case sch_streamStrat sch of None \<Rightarrow> True | Some ss \<Rightarrow> strategy_wf ss \<and> strategy_typed ss)"

lemma content_score_maps:
  assumes "index_ok sch" "key \<noteq> []" "index_maps sch key = (hot, bloom)"
  shows "content_score sch n key hot bloom s = content_score sch n key [] [] s"
proof (cases "sch_contentIndex sch")
  case None
  then show ?thesis using assms by (simp add: index_maps_def content_score_def)
next
  case (Some l)
  then obtain ix where ix: "l = index_lookup ix" "index_wf ix" using assms(1) by (auto simp: index_ok_def)
  then have "cl_FindNodesWithKey (index_lookup ix) key = (hot, bloom)"
    using assms(2,3) Some by (simp add: index_maps_def)
  note two = ci.two_step_lookup [OF ix(2) this, of "n_node_id n"]
  have "content_score sch n key [] [] s = (case cl_IsCached (index_lookup ix) (n_node_id n) key of (h, l) \<Rightarrow>
      if h then fadd s (sc_HotContentAwareWeight (sch_cfg sch)) else if l then fadd s (sc_ContentAwareWeight (sch_cfg sch)) else s)"
    using Some ix(1) by (simp add: content_score_def Let_def)
  then show ?thesis
    unfolding content_score_def Let_def Some ix(1) option.case two by simp
qed

lemma stream_score_maps:
  assumes "strat_ok sch" "key \<noteq> []"
  shows "stream_score sch n key (stream_map sch key) s = stream_score sch n key [] s"
proof (cases "sch_streamStrat sch")
  case None
  then show ?thesis by (simp add: stream_score_def stream_map_def)
next
  case (Some ss)
  then have ok: "strategy_wf ss" "strategy_typed ss" using assms(1) by (auto simp: strat_ok_def)
  show ?thesis
  proof (cases "InferStreamFromChunkKey key")
    case None
    then show ?thesis using Some assms(2) by (simp add: stream_score_def stream_map_def)
  next
    case inf: (Some p)
    obtain k i where p: "InferStreamFromChunkKey key = Some (k, i)" using inf by (cases p) auto
    show ?thesis
      using StreamScore_FindNodes [OF ok p, of "n_node_id n"] Some p assms(2)
      by (auto simp: stream_score_def stream_map_def)
  qed
qed


section \<open>Better nodes score higher\<close>

lemma health_score_mono:
  assumes "sc_reachable a \<le> sc_reachable b" "sc_health a \<le> sc_health b" "sc_risk b \<le> sc_risk a"
  shows "health_score a \<le> health_score b"
  unfolding health_score_def using assms by (intro fsub_mono fadd_mono fmul_mono_right) (simp_all add: f64_pos)

lemma content_score_mono: "s \<le> t \<Longrightarrow> content_score sch n key hot bloom s \<le> content_score sch n key hot bloom t"
  by (auto simp: content_score_def Let_def intro: fadd_mono split: option.splits prod.splits)

lemma stream_score_mono: "s \<le> t \<Longrightarrow> stream_score sch n key m s \<le> stream_score sch n key m t"
  by (auto simp: stream_score_def intro: fadd_mono split: option.splits)

lemma bandwidth_score_mono: "s \<le> t \<Longrightarrow> bandwidth_score cfg n c s \<le> bandwidth_score cfg n c t"
  by (simp add: bandwidth_score_def Let_def fadd_mono fsub_mono)

lemma score_scores:
  "content_score sch (n\<lparr>n_scores := sc\<rparr>) = content_score sch n" "stream_score sch (n\<lparr>n_scores := sc\<rparr>) = stream_score sch n"
  "bandwidth_score cfg (n\<lparr>n_scores := sc\<rparr>) = bandwidth_score cfg n" "region_isp_score (n\<lparr>n_scores := sc\<rparr>) = region_isp_score n"
  by (simp_all add: fun_eq_iff content_score_def stream_score_def bandwidth_score_def region_isp_score_def Let_def
      cong: if_cong option.case_cong)

definition raw_score :: "scheduler \<Rightarrow> node \<Rightarrow> client_info \<Rightarrow> string \<Rightarrow> (string, bool) gomap \<Rightarrow> (string, bool) gomap \<Rightarrow> (string, bool) gomap \<Rightarrow> float64 \<Rightarrow> float64" where
  "raw_score sch n client key hot bloom stream h =
    (let s = fadd (region_isp_score n client) h;
         s = (if cap_tunnel_required (n_capabilities n) then fsub s 15 else s);
         s = (if key \<noteq> [] then stream_score sch n key stream (content_score sch n key hot bloom s) else s)
     in bandwidth_score (sch_cfg sch) n (has hot (n_node_id n) \<or> has bloom (n_node_id n)) s)"

lemma scoreKeyFast_raw:
  "scoreKeyFast sch n client key hot bloom stream = max 0 (raw_score sch n client key hot bloom stream (health_score (n_scores n)))"
  by (simp add: scoreKeyFast_def raw_score_def Let_def max_def)

lemma raw_score_mono: "h \<le> h' \<Longrightarrow> raw_score sch n client key hot bloom stream h \<le> raw_score sch n client key hot bloom stream h'"
  by (simp add: raw_score_def Let_def bandwidth_score_mono stream_score_mono content_score_mono fadd_mono fsub_mono)

lemma raw_score_scores: "raw_score sch (n\<lparr>n_scores := sc\<rparr>) = raw_score sch n"
  by (simp add: fun_eq_iff raw_score_def score_scores Let_def cong: if_cong)

text \<open>The score is never negative, and it is monotone in the health of a node: raising the
  reachability or health score or lowering the risk score never lowers it, rounding included.\<close>

theorem scoreKeyFast_monotone:
  assumes "sc_reachable (n_scores n) \<le> sc_reachable sc" "sc_health (n_scores n) \<le> sc_health sc" "sc_risk sc \<le> sc_risk (n_scores n)"
  shows "0 \<le> scoreKeyFast sch n client key hot bloom stream \<and>
    scoreKeyFast sch n client key hot bloom stream \<le> scoreKeyFast sch (n\<lparr>n_scores := sc\<rparr>) client key hot bloom stream"
  using raw_score_mono [OF health_score_mono [OF assms], of sch n client key hot bloom stream]
  by (simp add: scoreKeyFast_raw raw_score_scores max.coboundedI2)

section \<open>What \<open>Resolve\<close> answers\<close>

lemma Resolve_nodes:
  assumes "Resolve sch clock seq listing cache req = (cache', Inr resp)"
  obtains ns where "GetActiveNodes (clock 0) (clock 1) (clock 2) listing cache = (cache', Inr ns)"
    "eligible sch (res_key (dq_resource req)) ns = [] \<Longrightarrow> resp = NoOriginFallback sch (clock 5) seq"
    "eligible sch (res_key (dq_resource req)) ns \<noteq> [] \<Longrightarrow>
      dr_candidates resp = Some (candidates sch (dq_client req) (res_key (dq_resource req))
        (fst (index_maps sch (res_key (dq_resource req)))) (snd (index_maps sch (res_key (dq_resource req))))
        (stream_map sch (res_key (dq_resource req))) (eligible sch (res_key (dq_resource req)) ns)) \<and>
      dr_token resp = \<lparr>dt_type = ''hmac'',
        dt_value = Sign (sch_secret sch) (clock 4 div 1000000000) (dispatch_payload req (token_exp (clock 3) (sc_DefaultTTLMs (sch_cfg sch)))),
        dt_exp = token_exp (clock 3) (sc_DefaultTTLMs (sch_cfg sch))\<rparr>"
proof -
  obtain c r where g: "GetActiveNodes (clock 0) (clock 1) (clock 2) listing cache = (c, r)" by fastforce
  then obtain ns where r: "r = Inr ns" using assms by (cases r) (auto simp: Resolve_def)
  have e: "filter_nodes sch ns = [] \<Longrightarrow> eligible sch key ns = []" for key
    by (simp add: eligible_def filterForSmallBandwidth_def)
  show ?thesis
    using assms g r e [of "res_key (dq_resource req)"]
    by (intro that [of ns]) (auto simp: Resolve_def Let_def split: prod.splits if_splits)
qed

lemma eligible_dispatchable: "n \<in> set (eligible sch key ns) \<Longrightarrow> n \<in> set ns \<and> dispatchable sch n"
  by (auto simp: eligible_def filterForSmallBandwidth_def filter_nodes_def split: if_splits)

lemma candidates_choice:
  fixes sch client key hot bloom stream ns
  defines "sc \<equiv> \<lambda>n. scoreKeyFast sch n client key hot bloom stream"
  shows "\<exists>chosen rest. mset ns = mset chosen + rest \<and> length chosen = min (nat (sc_MaxCandidates (sch_cfg sch))) (length ns) \<and>
    candidates sch client key hot bloom stream ns = map (\<lambda>n. candidate_of (scored sch client key hot bloom stream n)) chosen \<and>
    sorted (rev (map sc chosen)) \<and> (\<forall>n m. n \<in> set chosen \<and> m \<in># rest \<longrightarrow> sc m \<le> sc n)"
proof -
  let ?f = "scored sch client key hot bloom stream"
  define best where "best = rev (scored_sorted (fold scored_push (map ?f ns) \<lparr>sh_nodes = [], sh_max = sc_MaxCandidates (sch_cfg sch)\<rparr>))"
  note t = top_k_spec [of "map ?f ns" "sc_MaxCandidates (sch_cfg sch)", folded best_def]
  from t obtain D where D: "mset (map ?f ns) = mset best + D"
    and le: "\<And>x y. x \<in># mset best \<Longrightarrow> y \<in># D \<Longrightarrow> sn_score y \<le> sn_score x" by blast
  have f: "x = ?f (sn_node x)" if "x \<in># mset best + D" for x
  proof -
    have "x \<in> set (map ?f ns)" using that D by (metis set_mset_mset)
    then show ?thesis by (auto simp: scored_def)
  qed
  have node: "sn_node (?f n) = n" "sn_score (?f n) = sc n" for n by (simp_all add: scored_def sc_def)
  let ?chosen = "map sn_node best" and ?rest = "image_mset sn_node D"
  have "image_mset sn_node (mset (map ?f ns)) = mset ns"
    by (simp add: image_mset.compositionality comp_def node)
  then have ms: "mset ns = mset ?chosen + ?rest" using D by (metis image_mset_union mset_map)
  have cand: "candidates sch client key hot bloom stream ns = map (\<lambda>n. candidate_of (?f n)) ?chosen"
    unfolding candidates_def best_def [symmetric] using f by auto
  have sc: "sn_score x = sc (sn_node x)" if "x \<in># mset best + D" for x
    using f [OF that] node(2) [of "sn_node x"] by simp
  then have eq: "map sn_score best = map sc ?chosen" by simp
  have srt: "sorted (rev (map sc ?chosen))" using t unfolding eq [symmetric] by (rule conjunct1)
  have len: "length ?chosen = min (nat (sc_MaxCandidates (sch_cfg sch))) (length ns)" using t by simp
  have "sc m \<le> sc n" if n: "n \<in> set ?chosen" and m: "m \<in># ?rest" for n m
  proof -
    obtain x where "n = sn_node x" "x \<in># mset best" using n by auto
    moreover obtain y where "m = sn_node y" "y \<in># D" using m by auto
    ultimately show ?thesis using le [of x y] sc [of x] sc [of y] by simp
  qed
  with ms cand srt len show ?thesis by blast
qed


definition sample_config :: scheduler_config where
  "sample_config = \<lparr>sc_MaxCandidates = 3, sc_DefaultTTLMs = 30000, sc_DegradeToOrigin = True, sc_OriginURL = [],
     sc_HotContentAwareWeight = 40, sc_ContentAwareWeight = 20, sc_SmallBandwidth = False, sc_SmallBandwidthThreshold = 50\<rparr>"

definition sample_scheduler :: scheduler where
  "sample_scheduler = \<lparr>sch_contentIndex = Some (index_lookup sample_index), sch_secret = ''secret'', sch_cfg = sample_config,
     sch_tunnelMgr = None, sch_streamStrat = Some (NewStreamingStrategy (Some True))\<rparr>"

definition sample_node :: node where
  "sample_node = bare_node\<lparr>n_node_id := ''n1'', n_scores := \<lparr>sc_reachable = 100, sc_health = 100, sc_risk = 0\<rparr>\<rparr>"

definition sample_dispatch :: dispatch_request where
  "sample_dispatch = \<lparr>dq_client = \<lparr>ci_ip = ''10.0.0.7'', ci_region = [], ci_isp = []\<rparr>,
     dq_resource = \<lparr>res_type = [], res_key = ''a'', res_scheme = []\<rparr>, dq_need_range = False\<rparr>"

lemma sample_scheduler_ok: "index_ok sample_scheduler" "strat_ok sample_scheduler"
  using sample_index_wf strategy_wf_New by (auto simp: index_ok_def strat_ok_def sample_scheduler_def strategy_typed_def NewStreamingStrategy_def)


theorem scoreKeyFast_monotone_witness:
  "scoreKeyFast sample_scheduler bare_node (dq_client sample_dispatch) ''a'' [] [] []
   \<le> scoreKeyFast sample_scheduler (bare_node\<lparr>n_scores := \<lparr>sc_reachable = 100, sc_health = 100, sc_risk = 0\<rparr>\<rparr>)
       (dq_client sample_dispatch) ''a'' [] [] []"
  using scoreKeyFast_monotone [of bare_node "\<lparr>sc_reachable = 100, sc_health = 100, sc_risk = 0\<rparr>"] by (simp add: bare_node_def)

lemma sample_eligible: "eligible sample_scheduler ''a'' [sample_node] = [sample_node]"
  by (simp add: eligible_def filterForSmallBandwidth_def filter_nodes_def dispatchable_def sample_scheduler_def
      sample_config_def sample_node_def bare_node_def)

lemma sample_listing: "GetActiveNodes 1 1 1 (Inr [sample_node]) (NewNodeCache 0) =
  (\<lparr>nc_nodes = Some [sample_node], nc_cachedAt = 1, nc_ttl = 0\<rparr>, Inr [sample_node])"
  by (simp add: GetActiveNodes_def NewNodeCache_def fresh_def)


lemma Resolve_token:
  assumes "Resolve sch clock seq listing cache req = (cache', Inr resp)"
    and "GetActiveNodes (clock 0) (clock 1) (clock 2) listing cache = (cache', Inr ns)"
    and "eligible sch (res_key (dq_resource req)) ns \<noteq> []"
  shows "dr_token resp = \<lparr>dt_type = ''hmac'',
    dt_value = Sign (sch_secret sch) (clock 4 div 1000000000) (dispatch_payload req (token_exp (clock 3) (sc_DefaultTTLMs (sch_cfg sch)))),
    dt_exp = token_exp (clock 3) (sc_DefaultTTLMs (sch_cfg sch))\<rparr>"
  using Resolve_nodes [OF assms(1)] assms(2,3) by auto

lemma dispatch_token_good:
  assumes "valid_utf8 (res_key (dq_resource req))" "ci_ip (dq_client req) = ipv4_string [a, b, c, d]" "is_i64 e" "e \<noteq> 0"
  shows "VerifyWithIP secret now (Sign secret t (dispatch_payload req e)) (ipv4_string [a', b', c', d']) =
    (if now > e then Inl TokenExpired
     else if a' = a \<and> b' = b \<and> c' = c
       then Inr \<lparr>tp_Key = res_key (dq_resource req), tp_Exp = e, tp_IPPrefix = ipv4_string [a, b, c, 0] @ ''/24''\<rparr>
     else Inl IPMismatch)"
proof -
  have ne: "ci_ip (dq_client req) \<noteq> []" unfolding assms(2) by (simp add: ipv4_string_def)
  then have p: "dispatch_payload req e = \<lparr>tp_Key = res_key (dq_resource req), tp_Exp = e, tp_IPPrefix = ipv4_string [a, b, c, 0] @ ''/24''\<rparr>"
    by (simp add: dispatch_payload_def) (simp add: assms(2) ComputeIPPrefix_v4)
  then have "payload_ok (dispatch_payload req e)"
    using assms(1,3) by (simp add: p payload_ok_def valid_prefix)
  then have "Verify secret now (Sign secret t (dispatch_payload req e)) = (if now > e then Inl TokenExpired else Inr (dispatch_payload req e))"
    using Verify_Sign [of "dispatch_payload req e"] assms(4) by (simp add: p)
  moreover have "MatchesIP (dispatch_payload req e) (ipv4_string [a', b', c', d']) = Inr (a' = a \<and> b' = b \<and> c' = c)"
    by (simp add: p MatchesIP_def ParseCIDR_24 ParseIP_ipv4 net_Contains_24)
  ultimately show ?thesis by (simp add: VerifyWithIP_def p)
qed

lemma token_exp_i64: "is_i64 t \<Longrightarrow> is_i64 (token_exp t ttl)"
  using is_i64_i64 [of "ttl * 1000000"] unfolding token_exp_def is_i64_def by linarith



text \<open>C19: \<open>Resolve\<close> fails only when the listing does; when no node is eligible it answers with no token
  and, if degrading to the origin is enabled, with the origin as the only candidate, else with none.\<close>

theorem Resolve_degrades:
  "(case snd (GetActiveNodes (clock 0) (clock 1) (clock 2) listing cache) of
      Inl e \<Rightarrow> snd (Resolve sch clock seq listing cache req) = Inl e
    | Inr ns \<Rightarrow> \<exists>resp. snd (Resolve sch clock seq listing cache req) = Inr resp \<and>
        (if eligible sch (res_key (dq_resource req)) ns = []
         then dr_token resp = no_token \<and> map_option (map cd_id) (dr_candidates resp) =
           (if sc_DegradeToOrigin (sch_cfg sch) then Some [''origin''] else None)
         else dr_token resp \<noteq> no_token))"
proof -
  obtain c r where g: "GetActiveNodes (clock 0) (clock 1) (clock 2) listing cache = (c, r)" by fastforce
  have e: "filter_nodes sch ns = [] \<Longrightarrow> eligible sch key ns = []" for key ns
    by (simp add: eligible_def filterForSmallBandwidth_def)
  show ?thesis
  proof (cases r)
    case (Inr ns)
    show ?thesis
    proof (cases "eligible sch (res_key (dq_resource req)) ns = []")
      case True
      then have "Resolve sch clock seq listing cache req = (c, Inr (NoOriginFallback sch (clock 5) seq))"
        using g Inr by (simp add: Resolve_def Let_def)
      then show ?thesis using g Inr True by (simp add: NoOriginFallback_def)
    next
      case False
      then have "filter_nodes sch ns \<noteq> []" using e by auto
      then show ?thesis using g Inr False
        by (auto simp: Resolve_def Let_def no_token_def split: prod.splits)
    qed
  next
    case (Inl e)
    then show ?thesis using g by (simp add: Resolve_def)
  qed
qed

end
