(* ===== verification/Prober.thy ===== *)
theory Prober
  imports Scheduler
begin

text \<open>
  \<open>internal/controlplane/prober.go\<close>: probing the endpoints of the active nodes, saving the results and
  recomputing the scores.  What an endpoint answers is an argument; the results are saved in the
  order of the probes, which the tables do not depend on.
\<close>

datatype probe_outcome = TcpFail string | RequestFail string | HttpFail string | HttpStatus int

definition ProbeOne :: "int \<Rightarrow> int \<Rightarrow> probe_outcome \<Rightarrow> string \<Rightarrow> endpoint \<Rightarrow> probe_result" where
  "ProbeOne now elapsed_ms out nodeID ep =
    (let r = \<lparr>pr_node_id = nodeID, pr_endpoint = ep, pr_success = False, pr_rtt_ms = float_of_int elapsed_ms, pr_error = [], pr_probed_at = now\<rparr> in
     case out of
       TcpFail e \<Rightarrow> r\<lparr>pr_error := ''tcp connect: '' @ e\<rparr>
     | RequestFail e \<Rightarrow> r\<lparr>pr_error := ''create request: '' @ e\<rparr>
     | HttpFail e \<Rightarrow> r\<lparr>pr_error := ''http get: '' @ e\<rparr>
     | HttpStatus code \<Rightarrow>
         if code = 200 then r\<lparr>pr_success := True\<rparr> else r\<lparr>pr_error := ''healthz returned '' @ format_int code\<rparr>)"

definition scores_of :: "probe_score \<Rightarrow> node_scores" where
  "scores_of ps =
    (let risk = (if ps_rtt_p95 ps > 1000 then fadd 0 30 else if ps_rtt_p95 ps > 500 then fadd 0 15 else 0);
         risk = (if ps_success_5m ps < f64 (9/10) then fadd risk 20 else risk);
         risk = (if ps_success_5m ps < f64 (5/10) then fadd risk 30 else risk)
     in \<lparr>sc_reachable = fmul (ps_success_5m ps) 100, sc_health = fmul (ps_success_1m ps) 100, sc_risk = risk\<rparr>)"

definition computeScores :: "bool \<Rightarrow> int \<Rightarrow> string \<Rightarrow> pg_store \<Rightarrow> pg_error + node_scores" where
  "computeScores db now nodeID p =
    (case GetProbeScores db now nodeID p of Inl e \<Rightarrow> Inl e | Inr ps \<Rightarrow> Inr (scores_of ps))"

text \<open>Saving in batches of 32; a batch that fails is logged and dropped.\<close>

function save_batches :: "(nat \<Rightarrow> bool) \<Rightarrow> probe_result list \<Rightarrow> pg_store \<Rightarrow> pg_store" where
  "save_batches db rs p =
    (if rs = [] then p
     else save_batches (\<lambda>i. db (Suc i)) (drop 32 rs) (fst (BatchSaveProbeResults (db 0) (take 32 rs) p)))"
  by pat_completeness auto
termination
  by (relation "measure (\<lambda>(_, rs, _). length rs)") auto

declare save_batches.simps [simp del]

text \<open>The scores of every probed node are computed before the first of them is written.\<close>

definition write_scores :: "(string \<Rightarrow> bool) \<Rightarrow> int \<Rightarrow> (string \<times> (pg_error + node_scores)) list \<Rightarrow> pg_store \<Rightarrow> pg_store" where
  "write_scores db now scs p =
    fold (\<lambda>(i, r) p. case r of Inl _ \<Rightarrow> p | Inr sc \<Rightarrow> fst (UpdateNodeScores (db i) now i sc p)) scs p"

definition probe_nodes :: "(string \<Rightarrow> endpoint \<Rightarrow> probe_result) \<Rightarrow> node list \<Rightarrow> probe_result list" where
  "probe_nodes probe ns = concat (map (\<lambda>n. map (probe (n_node_id n)) (n_endpoints n)) ns)"

record probe_env =
  pe_clock :: "nat \<Rightarrow> int"
  pe_list :: bool
  pe_save :: "nat \<Rightarrow> bool"
  pe_read :: "string \<Rightarrow> bool"
  pe_write :: "string \<Rightarrow> bool"

definition probeAll :: "probe_env \<Rightarrow> (string \<Rightarrow> endpoint \<Rightarrow> probe_result) \<Rightarrow> node_cache \<times> pg_store \<Rightarrow> node_cache \<times> pg_store" where
  "probeAll env probe s =
    (case GetActiveNodes (pe_clock env 0) (pe_clock env 1) (pe_clock env 2) (ListActiveNodes (pe_list env) (snd s)) (fst s) of
       (c, Inl _) \<Rightarrow> (c, snd s)
     | (c, Inr ns) \<Rightarrow>
         (let p = save_batches (pe_save env) (probe_nodes probe ns) (snd s);
              scs = map (\<lambda>i. (i, computeScores (pe_read env i) (pe_clock env 3) i p)) (remdups (map n_node_id ns))
          in (Invalidate c, write_scores (pe_write env) (pe_clock env 4) scs p)))"

section \<open>Bounds of the scores\<close>

lemma f64_numeral: "f64 (numeral k) = numeral k" if "numeral k \<le> (2 ^ 53 :: int)"
  using f64_int_exact [of "numeral k"] that by simp

lemma f64_1 [simp]: "f64 1 = 1"
  using f64_int_exact [of 1] by simp

lemma rate_bounds: "k \<le> n \<Longrightarrow> 0 \<le> rate k n \<and> rate k n \<le> 1"
proof (cases "n = 0")
  case False
  assume "k \<le> n"
  then have "0 \<le> (of_nat k :: rat) / of_nat n" "(of_nat k :: rat) / of_nat n \<le> 1" using False by (auto simp: divide_le_eq)
  then show ?thesis using False f64_mono [of "of_nat k / of_nat n" 1] f64_pos by (simp add: rate_def fdiv_def)
qed (simp add: rate_def)

lemma percent_bounds: "0 \<le> x \<and> x \<le> 1 \<Longrightarrow> 0 \<le> fmul x 100 \<and> fmul x 100 \<le> 100"
  using f64_mono [of "x * 100" 100] f64_pos [of "x * 100"] by (simp add: fmul_def f64_numeral)

lemma risk_values:
  "fadd 0 30 = 30" "fadd 0 15 = 15" "fadd 0 20 = 20" "fadd 30 20 = 50" "fadd 15 20 = 35"
  "fadd 50 30 = 80" "fadd 35 30 = 65" "fadd 20 30 = 50" "fadd 30 30 = 60" "fadd 15 30 = 45"
  by (simp_all add: fadd_def f64_numeral)

lemma computeScores_spec:
  "case computeScores db now i p of
     Inl e \<Rightarrow> \<not> db
   | Inr sc \<Rightarrow> 0 \<le> sc_reachable sc \<and> sc_reachable sc \<le> 100 \<and> 0 \<le> sc_health sc \<and> sc_health sc \<le> 100 \<and>
       0 \<le> sc_risk sc \<and> sc_risk sc \<le> 80 \<and>
       (list_all (\<lambda>r. \<not> pr_success r \<or> pr_probed_at r \<le> now - 5 * minute \<or> pr_node_id r \<noteq> i) (read_probes p) \<longrightarrow> sc_reachable sc = 0)"
proof (cases db)
  case True
  define rows where "rows = filter (\<lambda>r. pr_node_id r = i \<and> pr_probed_at r > now - 5 * minute) (read_probes p)"
  define last where "last = filter (\<lambda>r. pr_probed_at r > now - minute) rows"
  obtain ps where ps: "GetProbeScores db now i p = Inr ps"
    and r1: "ps_success_1m ps = rate (length (filter pr_success last)) (length last)"
    and r5: "ps_success_5m ps = rate (length (filter pr_success rows)) (length rows)"
    using True by (simp add: GetProbeScores_def Let_def rows_def last_def)
  have b: "0 \<le> ps_success_1m ps \<and> ps_success_1m ps \<le> 1" "0 \<le> ps_success_5m ps \<and> ps_success_5m ps \<le> 1"
    unfolding r1 r5 by (rule rate_bounds, simp)+
  have z: "ps_success_5m ps = 0" if "list_all (\<lambda>r. \<not> pr_success r \<or> pr_probed_at r \<le> now - 5 * minute \<or> pr_node_id r \<noteq> i) (read_probes p)"
  proof -
    have "filter pr_success rows = []"
      using that by (auto simp: rows_def list_all_iff filter_empty_conv)
    then show ?thesis by (simp add: r5 rate_def fdiv_def)
  qed
  have "0 \<le> sc_risk (scores_of ps) \<and> sc_risk (scores_of ps) \<le> 80"
    by (simp add: scores_of_def Let_def risk_values)
  then show ?thesis
    using ps percent_bounds [OF b(1)] percent_bounds [OF b(2)] z
    by (auto simp: computeScores_def scores_of_def Let_def fmul_def)
qed (simp add: computeScores_def GetProbeScores_def)

text \<open>Whatever probe results are stored, the scores computed from them are within bounds:
  reachability and health between 0 and 100, risk between 0 and 80; and a node none of whose probes of
  the last five minutes succeeded gets reachability 0.\<close>

theorem computeScores_bounds:
  "case computeScores db now i p of
     Inl e \<Rightarrow> \<not> db
   | Inr sc \<Rightarrow> 0 \<le> sc_reachable sc \<and> sc_reachable sc \<le> 100 \<and> 0 \<le> sc_health sc \<and> sc_health sc \<le> 100 \<and>
       0 \<le> sc_risk sc \<and> sc_risk sc \<le> 80 \<and>
       (list_all (\<lambda>r. \<not> pr_success r \<or> pr_probed_at r \<le> now - 5 * minute \<or> pr_node_id r \<noteq> i) (read_probes p) \<longrightarrow> sc_reachable sc = 0)"
  by (rule computeScores_spec)

theorem computeScores_bounds_witness:
  "\<exists>sc. computeScores True 5 ''n'' pg_empty = Inr sc \<and> sc_reachable sc = 0 \<and> sc_risk sc \<le> 80"
proof -
  obtain sc where sc: "computeScores True 5 ''n'' pg_empty = Inr sc"
    by (simp add: computeScores_def GetProbeScores_def Let_def)
  then show ?thesis
    using computeScores_bounds [where db = True and now = 5 and i = "''n''" and p = pg_empty]
    by (simp add: read_probes_def pg_empty_def)
qed

lemma computeScores_total: "\<exists>sc. computeScores True now i p = Inr sc"
  by (simp add: computeScores_def GetProbeScores_def Let_def)

section \<open>Unreachable nodes are not dispatched\<close>

lemma save_batches_keeps:
  "pg_nodes (save_batches db rs p) = pg_nodes p \<and> pg_replica (save_batches db rs p) = pg_replica p \<and>
    set (pg_probes (save_batches db rs p)) \<subseteq> set (pg_probes p) \<union> set rs"
proof (induction db rs p rule: save_batches.induct)
  case (1 db rs p)
  show ?case
  proof (cases "rs = []")
    case False
    have "set (take 32 rs) \<union> set (drop 32 rs) = set rs" by (metis append_take_drop_id set_append)
    moreover have "pg_nodes (fst (BatchSaveProbeResults (db 0) (take 32 rs) p)) = pg_nodes p"
      "pg_replica (fst (BatchSaveProbeResults (db 0) (take 32 rs) p)) = pg_replica p"
      "set (pg_probes (fst (BatchSaveProbeResults (db 0) (take 32 rs) p))) \<subseteq> set (pg_probes p) \<union> set (take 32 rs)"
      by (auto simp: BatchSaveProbeResults_def)
    ultimately show ?thesis using 1 False by (subst (1 2 3) save_batches.simps) auto
  qed (simp add: save_batches.simps)
qed

definition row_scores :: "pg_store \<Rightarrow> string \<Rightarrow> node_scores option" where
  "row_scores p i = map_option (n_scores \<circ> fst) (gm_get (pg_nodes p) i)"

lemma row_scores_update:
  "row_scores (fst (UpdateNodeScores db now i sc p)) j =
    (if db \<and> j = i \<and> row_scores p i \<noteq> None then Some sc else row_scores p j)"
  by (auto simp: row_scores_def UpdateNodeScores_def update_node_def update_row_def InvalidateNodeCache_def split: option.splits)

lemma write_scores_other: "i \<notin> fst ` set scs \<Longrightarrow> row_scores (write_scores db now scs p) i = row_scores p i"
  unfolding write_scores_def
proof (induction scs arbitrary: p)
  case (Cons s scs)
  then show ?case by (cases s) (auto simp: row_scores_update split: sum.splits)
qed simp

lemma write_scores_at:
  "\<lbrakk>distinct (map fst scs); (i, Inr sc) \<in> set scs; db i; row_scores p i \<noteq> None\<rbrakk> \<Longrightarrow> row_scores (write_scores db now scs p) i = Some sc"
proof (induction scs arbitrary: p)
  case (Cons s scs)
  obtain j r where s: "s = (j, r)" by (cases s)
  let ?p = "case r of Inl _ \<Rightarrow> p | Inr sc \<Rightarrow> fst (UpdateNodeScores (db j) now j sc p)"
  have step: "write_scores db now (s # scs) p = write_scores db now scs ?p" by (simp add: write_scores_def s)
  show ?case
  proof (cases "j = i")
    case True
    then have "r = Inr sc" "i \<notin> fst ` set scs" using Cons.prems s by force+
    then show ?thesis
      using write_scores_other [of i scs db now ?p] Cons.prems True unfolding step by (auto simp: row_scores_update)
  next
    case False
    then have "row_scores ?p i \<noteq> None" using Cons.prems(4) by (auto simp: row_scores_update split: sum.splits)
    then show ?thesis unfolding step using Cons s False by auto
  qed
qed simp

lemma active_rows_scores:
  "\<lbrakk>gm_wf t; n \<in> set (active_rows t)\<rbrakk> \<Longrightarrow> \<exists>i m tok. gm_get t i = Some (m, tok) \<and> n = active_columns m"
  by (auto simp: active_rows_def gm_get_in intro: exI)

lemma write_scores_inv: "pg_inv p \<Longrightarrow> pg_inv (write_scores db now scs p)"
  unfolding write_scores_def
proof (induction scs arbitrary: p)
  case (Cons s scs)
  then show ?case by (cases s) (auto split: sum.splits intro: pg_inv_updates)
qed simp

lemma pg_inv_save: "pg_inv p \<Longrightarrow> pg_inv (save_batches db rs p)"
proof (induction db rs p rule: save_batches.induct)
  case (1 db rs p)
  show ?case
    using 1(1) [OF _ pg_inv_probe_ops(2) [OF "1.prems"]] "1.prems" by (cases "rs = []") (subst save_batches.simps, simp)+
qed


definition probed_store :: pg_store where
  "probed_store = pg_empty\<lparr>pg_nodes := [(''n1'', sample_node, ''t'')]\<rparr>"

definition probed_env :: probe_env where
  "probed_env = \<lparr>pe_clock = (\<lambda>_. 10), pe_list = True, pe_save = (\<lambda>_. True), pe_read = (\<lambda>_. True), pe_write = (\<lambda>_. True)\<rparr>"

definition failing_probe :: "string \<Rightarrow> endpoint \<Rightarrow> probe_result" where
  "failing_probe i ep = ProbeOne 10 3 (TcpFail ''refused'') i ep"


end
