(* ===== verification/Resource_Key.thy ===== *)
theory Resource_Key
  imports Go_Net Streaming_Keys
begin

text \<open>
  \<open>sanitizeResourceKey\<close> of \<open>internal/controlplane/scheduler.go\<close>, which cleans the resource key of a
  redirect request, with \<open>url.PathUnescape\<close>.
\<close>

fun path_unescape :: "string \<Rightarrow> string option" where
  "path_unescape [] = Some []"
| "path_unescape (c # cs) =
    (if c = CHR ''%'' then
       (case cs of a # b # rest \<Rightarrow>
          (case (hex_digit_val a, hex_digit_val b) of
             (Some x, Some y) \<Rightarrow> map_option ((#) (char_of (x * 16 + y))) (path_unescape rest)
           | _ \<Rightarrow> None)
        | _ \<Rightarrow> None)
     else map_option ((#) c) (path_unescape cs))"

definition forbidden :: "char \<Rightarrow> bool" where
  "forbidden c \<longleftrightarrow> c = CHR 0x00 \<or> c = CHR 0x0D \<or> c = CHR 0x0A \<or> c = CHR 0x5C"

definition sanitizeResourceKey :: "string \<Rightarrow> string" where
  "sanitizeResourceKey key0 =
    (let key = trim_space key0 in
     if key = [] \<or> list_ex forbidden key then []
     else
       (let key = (case path_unescape key of Some u \<Rightarrow> u | None \<Rightarrow> key);
            key = trim_prefix ''/'' key;
            parts = split_on (CHR ''/'') key
        in if list_ex (\<lambda>p. trim_space p = [] \<or> trim_space p = ''.'' \<or> trim_space p = ''..'') parts then []
           else join_with (CHR ''/'') (map trim_space parts)))"

text \<open>C21: a sanitised key is empty or a relative path whose components are all non-empty, trimmed and
  none of them \<open>.\<close> or \<open>..\<close>, however the input was escaped: it never climbs out of the tree it names a
  path in.\<close>

theorem sanitizeResourceKey_safe:
  "sanitizeResourceKey key = [] \<or>
   list_all (\<lambda>p. p \<noteq> [] \<and> p \<noteq> ''.'' \<and> p \<noteq> ''..'' \<and> trimmed p \<and> CHR ''/'' \<notin> set p) (split_on (CHR ''/'') (sanitizeResourceKey key))"
proof (cases "sanitizeResourceKey key = []")
  case False
  then obtain u where r: "sanitizeResourceKey key = join_with (CHR ''/'') (map trim_space (split_on (CHR ''/'') u))"
    and ok: "\<not> list_ex (\<lambda>p. trim_space p = [] \<or> trim_space p = ''.'' \<or> trim_space p = ''..'') (split_on (CHR ''/'') u)"
    by (auto simp: sanitizeResourceKey_def Let_def split: if_splits)
  have no: "CHR ''/'' \<notin> set (trim_space p)" if "p \<in> set (split_on (CHR ''/'') u)" for p
    using split_on_parts [OF that] trim_space_subset [of p] by blast
  have "split_on (CHR ''/'') (sanitizeResourceKey key) = map trim_space (split_on (CHR ''/'') u)"
    unfolding r by (rule split_join) (auto simp: no)
  then show ?thesis using ok no by (auto simp: list_all_iff list_ex_iff)
qed simp

end
