(* ===== verification/Go_Http.thy ===== *)
theory Go_Http
  imports Go_Json_Print Go_Net Go_Float Resource_Key
begin

text \<open>
  What the HTTP handlers use of Go's library: requests and their headers, \<open>mime.ParseMediaType\<close>,
  \<open>url.PathEscape\<close> and \<open>url.QueryEscape\<close>, the size-limited JSON decoder, and the replies.
\<close>

section \<open>Requests and replies\<close>

record http_request =
  rq_method :: string
  rq_path :: string
  rq_query :: string
  rq_headers :: "(string, string) gomap"
  rq_remote :: string
  rq_body :: string

text \<open>Header names are compared in their canonical form, so without regard to case.\<close>

definition header :: "http_request \<Rightarrow> string \<Rightarrow> string" where
  "header r name = (case gm_get (rq_headers r) (to_lower name) of Some v \<Rightarrow> v | None \<Rightarrow> [])"

definition set_header :: "string \<Rightarrow> string \<Rightarrow> http_request \<Rightarrow> http_request" where
  "set_header name v r = r\<lparr>rq_headers := gm_set (to_lower name) v (rq_headers r)\<rparr>"

lemma header_set: "header (set_header n v r) m = (if to_lower m = to_lower n then v else header r m)"
  by (simp add: header_def set_header_def)

text \<open>A reply: a JSON body with a status, an error with its code and message, a redirect.\<close>

datatype 'b reply = Reply int 'b | Error int string string | Redirect int string

fun status_code :: "'b reply \<Rightarrow> int" where
  "status_code (Reply s _) = s"
| "status_code (Error s _ _) = s"
| "status_code (Redirect s _) = s"

section \<open>Media types\<close>

definition is_tspecial :: "char \<Rightarrow> bool" where
  "is_tspecial c \<longleftrightarrow> c \<in> set ''()<>@,;:/[]?='' \<or> c = CHR 0x22 \<or> c = CHR 0x5C"

definition is_token_char :: "char \<Rightarrow> bool" where
  "is_token_char c \<longleftrightarrow> 0x20 < (of_char c :: nat) \<and> (of_char c :: nat) < 0x7F \<and> \<not> is_tspecial c"

definition consume_token :: "string \<Rightarrow> string \<times> string" where
  "consume_token v = (takeWhile is_token_char v, dropWhile is_token_char v)"

text \<open>The rest of a quoted value after its opening quote; \<open>None\<close> when it is broken off.\<close>

fun consume_quoted :: "string \<Rightarrow> (string \<times> string) option" where
  "consume_quoted [] = None"
| "consume_quoted (c # cs) =
    (if c = CHR 0x22 then Some ([], cs)
     else if c = CHR 0x5C \<and> cs \<noteq> [] \<and> is_tspecial (hd cs) then map_option (apfst ((#) (hd cs))) (consume_quoted (tl cs))
     else if c = CHR 0x0D \<or> c = CHR 0x0A then None
     else map_option (apfst ((#) c)) (consume_quoted cs))"

definition consume_value :: "string \<Rightarrow> string \<times> string" where
  "consume_value v =
    (case v of [] \<Rightarrow> ([], [])
     | c # cs \<Rightarrow> if c = CHR 0x22 then (case consume_quoted cs of Some r \<Rightarrow> r | None \<Rightarrow> ([], v)) else consume_token v)"

abbreviation trim_left_space :: "string \<Rightarrow> string" where
  "trim_left_space s \<equiv> trim_left space_seqs s"

definition consume_media_param :: "string \<Rightarrow> (string \<times> string \<times> string) option" where
  "consume_media_param v =
    (let rest = trim_left_space v in
     if \<not> prefix '';'' rest then None
     else let (param, rest) = consume_token (trim_left_space (tl rest)) in
     if param = [] then None
     else let rest = trim_left_space rest in
     if \<not> prefix ''='' rest then None
     else let rest = trim_left_space (tl rest); (value, rest2) = consume_value rest in
     if value = [] \<and> rest2 = rest then None else Some (to_lower param, value, rest2))"

text \<open>The loop over the parameters; each step consumes a character, so the length of the text is
  enough fuel.  Parameters with a star go to maps of their own, by the name in front of it.\<close>

fun media_params :: "nat \<Rightarrow> ((string \<times> string), string) gomap \<Rightarrow> string \<Rightarrow> bool" where
  "media_params 0 seen v = False"
| "media_params (Suc fuel) seen v =
    (let v = trim_left_space v in
     if v = [] then True
     else case consume_media_param v of
       None \<Rightarrow> trim_space v = '';''
     | Some (key, value, rest) \<Rightarrow>
         (let slot = (if CHR ''*'' \<in> set key then takeWhile (\<lambda>c. c \<noteq> CHR ''*'') key else [], key) in
          case gm_get seen slot of
            Some old \<Rightarrow> if old \<noteq> value then False else media_params fuel seen rest
          | None \<Rightarrow> media_params fuel (gm_set slot value seen) rest))"

definition media_type_ok :: "string \<Rightarrow> bool" where
  "media_type_ok s =
    (let (typ, rest) = consume_token s in
     if typ = [] then False
     else if rest = [] then True
     else if \<not> prefix ''/'' rest then False
     else let (sub, rest) = consume_token (tl rest) in sub \<noteq> [] \<and> rest = [])"

definition ParseMediaType :: "string \<Rightarrow> string option" where
  "ParseMediaType v =
    (let base = takeWhile (\<lambda>c. c \<noteq> CHR '';'') v; mt = trim_space (to_lower base) in
     if media_type_ok mt \<and> media_params (Suc (length v)) [] (drop (length base) v) then Some mt else None)"

section \<open>Escaping in URLs\<close>

definition upper_hex :: "nat \<Rightarrow> char" where
  "upper_hex n = (if n < 10 then char_of (48 + n) else char_of (55 + n))"

definition is_alnum :: "char \<Rightarrow> bool" where
  "is_alnum c \<longleftrightarrow> (let n = of_char c :: nat in (48 \<le> n \<and> n \<le> 57) \<or> (65 \<le> n \<and> n \<le> 90) \<or> (97 \<le> n \<and> n \<le> 122))"

definition unreserved :: "char \<Rightarrow> bool" where
  "unreserved c \<longleftrightarrow> is_alnum c \<or> c \<in> set ''-_.~''"

definition percent :: "char \<Rightarrow> string" where
  "percent c = (let n = of_char c :: nat in [CHR ''%'', upper_hex (n div 16), upper_hex (n mod 16)])"

definition PathEscape :: "string \<Rightarrow> string" where
  "PathEscape s = concat (map (\<lambda>c. if unreserved c \<or> c \<in> set ''$&+:=@'' then [c] else percent c) s)"

definition QueryEscape :: "string \<Rightarrow> string" where
  "QueryEscape s = concat (map (\<lambda>c. if c = CHR '' '' then ''+'' else if unreserved c then [c] else percent c) s)"

lemma upper_hex_val: "n < 16 \<Longrightarrow> hex_digit_val (upper_hex n) = Some n"
  by (simp add: hex_digit_val_def upper_hex_def Let_def)

lemma of_char_less: "(of_char c :: nat) < 256"
  by (cases c) (simp add: of_char_def)

lemma path_unescape_percent: "path_unescape (percent c @ t) = map_option ((#) c) (path_unescape t)"
proof -
  have "(of_char c :: nat) div 16 < 16" "(of_char c :: nat) mod 16 < 16" using of_char_less [of c] by (auto simp: less_mult_imp_div_less)
  moreover have "(of_char c :: nat) div 16 * 16 + of_char c mod 16 = of_char c" by simp
  ultimately show ?thesis unfolding percent_def Let_def by (simp add: upper_hex_val)
qed

lemma path_unescape_PathEscape: "path_unescape (PathEscape s @ t) = map_option ((@) s) (path_unescape t)"
proof (induction s)
  case Nil
  then show ?case by (simp add: PathEscape_def option.map_id [unfolded id_def])
next
  case (Cons c s)
  have e: "PathEscape (c # s) @ t = (if unreserved c \<or> c \<in> set ''$&+:=@'' then [c] else percent c) @ (PathEscape s @ t)"
    by (simp add: PathEscape_def)
  have "c \<noteq> CHR ''%''" if "unreserved c \<or> c \<in> set ''$&+:=@''" using that by (auto simp: unreserved_def is_alnum_def Let_def)
  then show ?case unfolding e using Cons by (auto simp: path_unescape_percent option.map_comp comp_def)
qed

section \<open>Query parameters\<close>

definition query_unescape :: "string \<Rightarrow> string option" where
  "query_unescape s = path_unescape (map (\<lambda>c. if c = CHR ''+'' then CHR '' '' else c) s)"

text \<open>The text before and after the first separator.\<close>

definition cut :: "char \<Rightarrow> string \<Rightarrow> string \<times> string" where
  "cut c s = (takeWhile (\<lambda>x. x \<noteq> c) s, drop 1 (dropWhile (\<lambda>x. x \<noteq> c) s))"

definition query_pair :: "string \<Rightarrow> (string \<times> string) list" where
  "query_pair p =
    (if CHR '';'' \<in> set p \<or> p = [] then []
     else case cut (CHR ''='') p of (k, v) \<Rightarrow>
       (case (query_unescape k, query_unescape v) of (Some k, Some v) \<Rightarrow> [(k, v)] | _ \<Rightarrow> []))"

text \<open>\<open>r.URL.Query().Get\<close>: the first value; malformed pairs are dropped.\<close>

definition query_get :: "http_request \<Rightarrow> string \<Rightarrow> string" where
  "query_get r name =
    (case map_of (concat (map query_pair (split_on (CHR ''&'') (rq_query r)))) name of Some v \<Rightarrow> v | None \<Rightarrow> [])"

text \<open>\<open>strconv.Atoi\<close>: the value and whether it was good; a syntax error gives 0, a number out of range the
  nearest one.\<close>

definition Atoi :: "string \<Rightarrow> int \<times> bool" where
  "Atoi s =
    (let neg = prefix ''-'' s; ds = (if neg \<or> prefix ''+'' s then tl s else s) in
     case parse_digits ds of None \<Rightarrow> (0, False)
     | Some n \<Rightarrow>
        (let v = (if neg then - int n else int n) in
         if v < - (2 ^ 63) then (- (2 ^ 63), False) else if v > 2 ^ 63 - 1 then (2 ^ 63 - 1, False) else (v, True)))"

lemma unreserved_plain: "unreserved c \<Longrightarrow> c \<notin> {CHR ''+'', CHR ''%'', CHR ''='', CHR '';'', CHR ''&'', CHR '' ''}"
  by (auto simp: unreserved_def is_alnum_def Let_def)

lemma percent_chars: "x \<in> set (percent c) \<Longrightarrow> x = CHR ''%'' \<or> unreserved x"
proof -
  assume x: "x \<in> set (percent c)"
  have h: "n < 16 \<Longrightarrow> unreserved (upper_hex n)" for n by (auto simp: unreserved_def is_alnum_def upper_hex_def Let_def)
  have "(of_char c :: nat) div 16 < 16" "(of_char c :: nat) mod 16 < 16" using of_char_less [of c] by (auto simp: less_mult_imp_div_less)
  with x h show ?thesis by (auto simp: percent_def Let_def)
qed

lemma QueryEscape_chars: "x \<in> set (QueryEscape s) \<Longrightarrow> x \<in> {CHR ''+'', CHR ''%''} \<or> unreserved x"
  by (auto simp: QueryEscape_def split: if_split_asm dest: percent_chars)

lemma QueryEscape_no: "c \<in> {CHR ''='', CHR '';'', CHR ''&''} \<Longrightarrow> c \<notin> set (QueryEscape s)"
  using QueryEscape_chars [of c s] unreserved_plain [of c] by auto

lemma query_unescape_QueryEscape: "query_unescape (QueryEscape v) = Some v"
proof (induction v)
  case (Cons c v)
  let ?f = "\<lambda>c. if c = CHR ''+'' then CHR '' '' else c"
  have q: "QueryEscape (c # v) = (if c = CHR '' '' then ''+'' else if unreserved c then [c] else percent c) @ QueryEscape v"
    by (simp add: QueryEscape_def)
  have pc: "map ?f (percent c) = percent c"
    using percent_chars [of "CHR ''+''" c] unreserved_plain [of "CHR ''+''"] by (intro map_idI) auto
  show ?case
  proof (cases "c = CHR '' '' \<or> unreserved c")
    case True
    then show ?thesis using Cons unreserved_plain [of c] unfolding q query_unescape_def by auto
  next
    case False
    then show ?thesis using Cons unfolding q query_unescape_def by (simp add: pc path_unescape_percent)
  qed
qed (simp add: QueryEscape_def query_unescape_def)

text \<open>A pair whose name needs no escaping, or is escaped as well, is read back.\<close>

lemma query_pair_name:
  assumes "query_unescape k = Some name" "CHR ''='' \<notin> set k" "CHR '';'' \<notin> set k"
  shows "query_pair (k @ ''='' @ QueryEscape v) = [(name, v)]"
proof -
  have "cut (CHR ''='') (k @ ''='' @ QueryEscape v) = (k, QueryEscape v)"
  proof -
    have "takeWhile (\<lambda>x. x \<noteq> CHR ''='') (k @ ''='' @ QueryEscape v) = k" "dropWhile (\<lambda>x. x \<noteq> CHR ''='') (k @ ''='' @ QueryEscape v) = ''='' @ QueryEscape v"
      using assms(2) by (subst takeWhile_append2 dropWhile_append2; force)+
    then show ?thesis unfolding cut_def by simp
  qed
  then show ?thesis using assms QueryEscape_no [of "CHR '';''" v] by (simp add: query_pair_def query_unescape_QueryEscape)
qed

lemma query_pair_escape:
  assumes "k \<noteq> []" "\<forall>c\<in>set k. unreserved c"
  shows "query_pair (k @ ''='' @ QueryEscape v) = [(k, v)]"
proof (rule query_pair_name)
  show "query_unescape k = Some k" using assms(2)
    by (induction k) (use unreserved_plain in \<open>force simp: query_unescape_def\<close>)+
qed (use assms(2) unreserved_plain in auto)

section \<open>The JSON decoder\<close>

text \<open>Readers of the remaining field types.  \<open>strict\<close> is \<open>DisallowUnknownFields\<close>.\<close>

definition bool_field :: "(bool \<Rightarrow> 'a) \<Rightarrow> 'a \<Rightarrow> json \<Rightarrow> 'a \<times> bool" where
  "bool_field put p v = (case v of JBool b \<Rightarrow> (put b, True) | JNull \<Rightarrow> (p, True) | _ \<Rightarrow> (p, False))"

definition struct_field :: "('b \<Rightarrow> string \<Rightarrow> json \<Rightarrow> 'b \<times> bool) \<Rightarrow> ('b \<Rightarrow> 'a) \<Rightarrow> 'b \<Rightarrow> 'a \<Rightarrow> json \<Rightarrow> 'a \<times> bool" where
  "struct_field rd put old p v =
    (case v of JObj ms \<Rightarrow> apfst put (foldl (read_member rd) (old, True) ms) | JNull \<Rightarrow> (p, True) | _ \<Rightarrow> (p, False))"

text \<open>The decimal value of a number literal, and its nearest \<open>float64\<close>; a literal whose rounded value
  has no \<open>float64\<close> is an error.\<close>

definition decimal :: "string \<Rightarrow> rat" where
  "decimal l =
    (let neg = prefix ''-'' l;
         u = (if neg then tl l else l);
         (m, x) = (takeWhile (\<lambda>c. c \<noteq> CHR ''e'' \<and> c \<noteq> CHR ''E'') u, dropWhile (\<lambda>c. c \<noteq> CHR ''e'' \<and> c \<noteq> CHR ''E'') u);
         i = takeWhile (\<lambda>c. c \<noteq> CHR ''.'') m; f = drop (Suc (length i)) m;
         e = (case x of [] \<Rightarrow> 0 | _ # es \<Rightarrow>
                (if prefix ''-'' es then - int (nat_of_digits (tl es))
                 else if prefix ''+'' es then int (nat_of_digits (tl es)) else int (nat_of_digits es)))
                - int (length f);
         n = of_nat (nat_of_digits (i @ f)) :: rat;
         a = (if 0 \<le> e then n * 10 ^ nat e else n / 10 ^ nat (- e))
     in if neg then - a else a)"

definition float_field :: "(float64 \<Rightarrow> 'a) \<Rightarrow> 'a \<Rightarrow> json \<Rightarrow> 'a \<times> bool" where
  "float_field put p v =
    (case v of JNum l \<Rightarrow> (let x = f64 (decimal l) in if \<bar>x\<bar> < pow2 1024 then (put x, True) else (p, False))
     | JNull \<Rightarrow> (p, True) | _ \<Rightarrow> (p, False))"

text \<open>A slice of structures: \<open>null\<close> makes it nil, an array is read element by element, into the elements
  that a first occurrence of the field left or into zero values.\<close>

definition slice_field :: "('e \<Rightarrow> string \<Rightarrow> json \<Rightarrow> 'e \<times> bool) \<Rightarrow> 'e \<Rightarrow> ('e list \<Rightarrow> 'a) \<Rightarrow> 'e list \<Rightarrow> 'a \<Rightarrow> json \<Rightarrow> 'a \<times> bool" where
  "slice_field rd zero put old p v =
    (case v of
       JArr vs \<Rightarrow>
         (let es = map2 (\<lambda>i. let e = (if i < length old then old ! i else zero) in struct_field rd id e e) [0..<length vs] vs
          in (put (map fst es), list_all snd es))
     | JNull \<Rightarrow> (put [], True) | _ \<Rightarrow> (p, False))"

text \<open>\<open>decodeJSON\<close> of \<open>api.go\<close>: the content type, one value of at most 32 KB without unknown fields, and
  nothing after it.  Where the text is longer than the limit and its first 32 KB hold no complete
  value, the decoder stops at the limit unless a syntax error comes first: \<open>broken\<close> says so.\<close>

definition maxJSONBodySize :: nat where
  "maxJSONBodySize = 32768"

datatype 'a decoded = DecodeError int string string | Decoded 'a

definition first_value :: "nat \<Rightarrow> string \<Rightarrow> (json \<times> string) option" where
  "first_value limit body = (let b = take limit body in parse_val (2 * length b + 2) 10000 b)"

definition decodeJSON :: "bool \<Rightarrow> ('a \<Rightarrow> string \<Rightarrow> json \<Rightarrow> 'a \<times> bool) \<Rightarrow> 'a \<Rightarrow> http_request \<Rightarrow> 'a decoded" where
  "decodeJSON broken rd zero r =
    (let ct = header r ''Content-Type'' in
     if ct \<noteq> [] \<and> ParseMediaType ct \<noteq> Some ''application/json''
       then DecodeError 415 ''UNSUPPORTED_MEDIA_TYPE'' ''Content-Type must be application/json''
     else
       (let over = maxJSONBodySize < length (rq_body r) in
        case first_value maxJSONBodySize (rq_body r) of
          None \<Rightarrow>
            (if over \<and> \<not> broken then DecodeError 413 ''TOO_LARGE'' ''request body exceeds 32KB limit''
             else DecodeError 400 ''BAD_REQUEST'' ''invalid request body'')
        | Some (v, rest) \<Rightarrow>
            (case read_value rd zero v of
               None \<Rightarrow> DecodeError 400 ''BAD_REQUEST'' ''invalid request body''
             | Some x \<Rightarrow>
                 if over \<or> skip_ws rest \<noteq> [] then DecodeError 400 ''BAD_REQUEST'' ''request body must contain a single JSON value''
                 else Decoded x)))"

lemma decodeJSON_rejects: "decodeJSON broken rd zero r = DecodeError s c m \<Longrightarrow> s \<in> {400, 413, 415}"
  by (auto simp: decodeJSON_def Let_def split: if_splits option.splits prod.splits)

lemma decodeJSON_single:
  assumes "decodeJSON broken rd zero r = Decoded x"
  shows "length (rq_body r) \<le> maxJSONBodySize" "read_struct rd zero (rq_body r) = Some x"
proof -
  obtain v rest where v: "length (rq_body r) \<le> maxJSONBodySize" "first_value maxJSONBodySize (rq_body r) = Some (v, rest)"
      "skip_ws rest = []" "read_value rd zero v = Some x"
    using assms by (auto simp: decodeJSON_def Let_def split: if_splits option.splits prod.splits)
  then have "json_parse (rq_body r) = Some v" unfolding json_parse_def first_value_def Let_def by (simp del: parse_val.simps)
  then show "length (rq_body r) \<le> maxJSONBodySize" "read_struct rd zero (rq_body r) = Some x" using v by (simp_all add: read_struct_def)
qed

lemma decodeJSON_accepts:
  assumes "header r ''Content-Type'' = []" "length (rq_body r) \<le> maxJSONBodySize" "read_struct rd zero (rq_body r) = Some x"
  shows "decodeJSON broken rd zero r = Decoded x"
proof -
  obtain v where v: "json_parse (rq_body r) = Some v" "read_value rd zero v = Some x"
    using assms(3) by (auto simp: read_struct_def split: option.splits)
  then obtain rest where "parse_val (2 * length (rq_body r) + 2) 10000 (rq_body r) = Some (v, rest)" "skip_ws rest = []"
    unfolding json_parse_def by (auto simp del: parse_val.simps split: option.splits prod.splits if_splits)
  then show ?thesis using assms(1,2) v by (simp add: decodeJSON_def first_value_def Let_def del: parse_val.simps)
qed

end
