(* ===== verification/Request_Json.thy ===== *)
theory Request_Json
  imports Go_Http Go_Base64 Models
begin

text \<open>
  How \<open>encoding/json\<close> fills the request structures of \<open>internal/models\<close>: one reader per structure, its
  fields under the names of their tags.  A decoder that disallows unknown fields is \<open>strict\<close>.
\<close>

definition client_field :: "bool \<Rightarrow> client_info \<Rightarrow> string \<Rightarrow> json \<Rightarrow> client_info \<times> bool" where
  "client_field strict c k v =
    (if field_is ''ip'' k then str_field (\<lambda>x. c\<lparr>ci_ip := x\<rparr>) c v
     else if field_is ''region'' k then str_field (\<lambda>x. c\<lparr>ci_region := x\<rparr>) c v
     else if field_is ''isp'' k then str_field (\<lambda>x. c\<lparr>ci_isp := x\<rparr>) c v
     else (c, \<not> strict))"

definition resource_field :: "bool \<Rightarrow> resource_info \<Rightarrow> string \<Rightarrow> json \<Rightarrow> resource_info \<times> bool" where
  "resource_field strict c k v =
    (if field_is ''type'' k then str_field (\<lambda>x. c\<lparr>res_type := x\<rparr>) c v
     else if field_is ''key'' k then str_field (\<lambda>x. c\<lparr>res_key := x\<rparr>) c v
     else if field_is ''scheme'' k then str_field (\<lambda>x. c\<lparr>res_scheme := x\<rparr>) c v
     else (c, \<not> strict))"

definition hints_field :: "bool \<Rightarrow> bool \<Rightarrow> string \<Rightarrow> json \<Rightarrow> bool \<times> bool" where
  "hints_field strict c k v = (if field_is ''need_range'' k then bool_field (\<lambda>x. x) c v else (c, \<not> strict))"

definition dispatch_field :: "bool \<Rightarrow> dispatch_request \<Rightarrow> string \<Rightarrow> json \<Rightarrow> dispatch_request \<times> bool" where
  "dispatch_field strict q k v =
    (if field_is ''client'' k then struct_field (client_field strict) (\<lambda>x. q\<lparr>dq_client := x\<rparr>) (dq_client q) q v
     else if field_is ''resource'' k then struct_field (resource_field strict) (\<lambda>x. q\<lparr>dq_resource := x\<rparr>) (dq_resource q) q v
     else if field_is ''hints'' k then struct_field (hints_field strict) (\<lambda>x. q\<lparr>dq_need_range := x\<rparr>) (dq_need_range q) q v
     else (q, \<not> strict))"

definition zero_dispatch :: dispatch_request where
  "zero_dispatch =
    \<lparr>dq_client = \<lparr>ci_ip = [], ci_region = [], ci_isp = []\<rparr>,
     dq_resource = \<lparr>res_type = [], res_key = [], res_scheme = []\<rparr>, dq_need_range = False\<rparr>"

definition endpoint_field :: "bool \<Rightarrow> endpoint \<Rightarrow> string \<Rightarrow> json \<Rightarrow> endpoint \<times> bool" where
  "endpoint_field strict e k v =
    (if field_is ''scheme'' k then str_field (\<lambda>x. e\<lparr>ep_scheme := x\<rparr>) e v
     else if field_is ''host'' k then str_field (\<lambda>x. e\<lparr>ep_host := x\<rparr>) e v
     else if field_is ''port'' k then int_field (\<lambda>x. e\<lparr>ep_port := x\<rparr>) e v
     else (e, \<not> strict))"

definition zero_endpoint :: endpoint where
  "zero_endpoint = \<lparr>ep_scheme = [], ep_host = [], ep_port = 0\<rparr>"

definition capabilities_field :: "bool \<Rightarrow> capabilities \<Rightarrow> string \<Rightarrow> json \<Rightarrow> capabilities \<times> bool" where
  "capabilities_field strict c k v =
    (if field_is ''inbound_reachable'' k then bool_field (\<lambda>x. c\<lparr>cap_inbound_reachable := x\<rparr>) c v
     else if field_is ''cache_disk_gb'' k then int_field (\<lambda>x. c\<lparr>cap_cache_disk_gb := x\<rparr>) c v
     else if field_is ''max_uplink_mbps'' k then int_field (\<lambda>x. c\<lparr>cap_max_uplink_mbps := x\<rparr>) c v
     else if field_is ''supports_https'' k then bool_field (\<lambda>x. c\<lparr>cap_supports_https := x\<rparr>) c v
     else if field_is ''nat_type'' k then str_field (\<lambda>x. c\<lparr>cap_nat_type := x\<rparr>) c v
     else if field_is ''tunnel_required'' k then bool_field (\<lambda>x. c\<lparr>cap_tunnel_required := x\<rparr>) c v
     else if field_is ''supports_p2p'' k then bool_field (\<lambda>x. c\<lparr>cap_supports_p2p := x\<rparr>) c v
     else if field_is ''current_egress_mbps'' k then float_field (\<lambda>x. c\<lparr>cap_current_egress_mbps := x\<rparr>) c v
     else if field_is ''current_ingress_mbps'' k then float_field (\<lambda>x. c\<lparr>cap_current_ingress_mbps := x\<rparr>) c v
     else if field_is ''shield_mode'' k then bool_field (\<lambda>x. c\<lparr>cap_shield_mode := x\<rparr>) c v
     else (c, \<not> strict))"

definition zero_capabilities :: capabilities where
  "zero_capabilities =
    \<lparr>cap_inbound_reachable = False, cap_cache_disk_gb = 0, cap_max_uplink_mbps = 0, cap_supports_https = False,
     cap_nat_type = [], cap_tunnel_required = False, cap_supports_p2p = False, cap_current_egress_mbps = 0,
     cap_current_ingress_mbps = 0, cap_shield_mode = False\<rparr>"

definition register_field :: "bool \<Rightarrow> register_request \<Rightarrow> string \<Rightarrow> json \<Rightarrow> register_request \<times> bool" where
  "register_field strict q k v =
    (if field_is ''node_name'' k then str_field (\<lambda>x. q\<lparr>rr_node_name := x\<rparr>) q v
     else if field_is ''public_endpoints'' k then
       slice_field (endpoint_field strict) zero_endpoint (\<lambda>x. q\<lparr>rr_endpoints := x\<rparr>) (rr_endpoints q) q v
     else if field_is ''region'' k then str_field (\<lambda>x. q\<lparr>rr_region := x\<rparr>) q v
     else if field_is ''isp'' k then str_field (\<lambda>x. q\<lparr>rr_isp := x\<rparr>) q v
     else if field_is ''tenant_id'' k then str_field (\<lambda>x. q\<lparr>rr_tenant_id := x\<rparr>) q v
     else if field_is ''project_id'' k then str_field (\<lambda>x. q\<lparr>rr_project_id := x\<rparr>) q v
     else if field_is ''capabilities'' k then
       struct_field (capabilities_field strict) (\<lambda>x. q\<lparr>rr_capabilities := x\<rparr>) (rr_capabilities q) q v
     else (q, \<not> strict))"

definition zero_register :: register_request where
  "zero_register =
    \<lparr>rr_node_name = [], rr_endpoints = [], rr_region = [], rr_isp = [], rr_tenant_id = [], rr_project_id = [],
     rr_capabilities = zero_capabilities\<rparr>"

text \<open>\<open>[]byte\<close>: base64, or an array of numbers.\<close>

definition bytes_field :: "(byte list option \<Rightarrow> 'a) \<Rightarrow> 'a \<Rightarrow> json \<Rightarrow> 'a \<times> bool" where
  "bytes_field put p v =
    (case v of
       JStr s \<Rightarrow> (case std_decode s of Some bs \<Rightarrow> (put (Some bs), True) | None \<Rightarrow> (p, False))
     | JArr vs \<Rightarrow> (let es = map (uint_field 8 (\<lambda>n. word_of_nat n) 0) vs in (put (Some (map fst es)), list_all snd es))
     | JNull \<Rightarrow> (put None, True)
     | _ \<Rightarrow> (p, False))"

definition summary_field :: "bool \<Rightarrow> content_summary \<Rightarrow> string \<Rightarrow> json \<Rightarrow> content_summary \<times> bool" where
  "summary_field strict c k v =
    (if field_is ''node_id'' k then str_field (\<lambda>x. c\<lparr>cs_node_id := x\<rparr>) c v
     else if field_is ''hot_keys'' k then
       (if v = JNull then (c\<lparr>cs_hot_keys := None\<rparr>, True)
        else strs_field (\<lambda>x. c\<lparr>cs_hot_keys := Some x\<rparr>) (case cs_hot_keys c of Some x \<Rightarrow> x | None \<Rightarrow> []) c v)
     else if field_is ''bloom_filter'' k then bytes_field (\<lambda>x. c\<lparr>cs_bloom_filter := x\<rparr>) c v
     else if field_is ''bloom_k'' k then uint_field 32 (\<lambda>x. c\<lparr>cs_bloom_k := word_of_nat x\<rparr>) c v
     else if field_is ''total_keys'' k then int_field (\<lambda>x. c\<lparr>cs_total_keys := x\<rparr>) c v
     else if field_is ''updated_at'' k then int_field (\<lambda>x. c\<lparr>cs_updated_at := x\<rparr>) c v
     else (c, \<not> strict))"

definition zero_summary :: content_summary where
  "zero_summary = \<lparr>cs_node_id = [], cs_hot_keys = None, cs_bloom_filter = None, cs_bloom_k = 0, cs_total_keys = 0, cs_updated_at = 0\<rparr>"

definition runtime_field :: "bool \<Rightarrow> node_runtime \<Rightarrow> string \<Rightarrow> json \<Rightarrow> node_runtime \<times> bool" where
  "runtime_field strict c k v =
    (if field_is ''cpu'' k then float_field (\<lambda>x. c\<lparr>rt_cpu := x\<rparr>) c v
     else if field_is ''mem_mb'' k then int_field (\<lambda>x. c\<lparr>rt_mem_mb := x\<rparr>) c v
     else if field_is ''disk_free_gb'' k then int_field (\<lambda>x. c\<lparr>rt_disk_free_gb := x\<rparr>) c v
     else if field_is ''conn'' k then int_field (\<lambda>x. c\<lparr>rt_conn := x\<rparr>) c v
     else (c, \<not> strict))"

definition traffic_field :: "bool \<Rightarrow> node_traffic \<Rightarrow> string \<Rightarrow> json \<Rightarrow> node_traffic \<times> bool" where
  "traffic_field strict c k v =
    (if field_is ''egress_mbps'' k then float_field (\<lambda>x. c\<lparr>tr_egress_mbps := x\<rparr>) c v
     else if field_is ''ingress_mbps'' k then float_field (\<lambda>x. c\<lparr>tr_ingress_mbps := x\<rparr>) c v
     else if field_is ''err_5xx_rate'' k then float_field (\<lambda>x. c\<lparr>tr_err_5xx_rate := x\<rparr>) c v
     else (c, \<not> strict))"

definition cache_field :: "bool \<Rightarrow> float64 \<Rightarrow> string \<Rightarrow> json \<Rightarrow> float64 \<times> bool" where
  "cache_field strict c k v = (if field_is ''hit_ratio'' k then float_field (\<lambda>x. x) c v else (c, \<not> strict))"

definition heartbeat_field :: "bool \<Rightarrow> heartbeat_request \<Rightarrow> string \<Rightarrow> json \<Rightarrow> heartbeat_request \<times> bool" where
  "heartbeat_field strict q k v =
    (if field_is ''node_id'' k then str_field (\<lambda>x. q\<lparr>hb_node_id := x\<rparr>) q v
     else if field_is ''ts'' k then int_field (\<lambda>x. q\<lparr>hb_ts := x\<rparr>) q v
     else if field_is ''runtime'' k then struct_field (runtime_field strict) (\<lambda>x. q\<lparr>hb_runtime := x\<rparr>) (hb_runtime q) q v
     else if field_is ''traffic'' k then struct_field (traffic_field strict) (\<lambda>x. q\<lparr>hb_traffic := x\<rparr>) (hb_traffic q) q v
     else if field_is ''cache'' k then struct_field (cache_field strict) (\<lambda>x. q\<lparr>hb_hit_ratio := x\<rparr>) (hb_hit_ratio q) q v
     else if field_is ''content_summary'' k then
       (if v = JNull then (q\<lparr>hb_content_summary := None\<rparr>, True)
        else let old = (case hb_content_summary q of Some c \<Rightarrow> c | None \<Rightarrow> zero_summary) in
          struct_field (summary_field strict) (\<lambda>x. q\<lparr>hb_content_summary := Some x\<rparr>) old (q\<lparr>hb_content_summary := Some old\<rparr>) v)
     else (q, \<not> strict))"

definition zero_heartbeat :: heartbeat_request where
  "zero_heartbeat =
    \<lparr>hb_node_id = [], hb_ts = 0, hb_runtime = \<lparr>rt_cpu = 0, rt_mem_mb = 0, rt_disk_free_gb = 0, rt_conn = 0\<rparr>,
     hb_traffic = \<lparr>tr_egress_mbps = 0, tr_ingress_mbps = 0, tr_err_5xx_rate = 0\<rparr>, hb_hit_ratio = 0, hb_content_summary = None\<rparr>"

text \<open>The members that \<open>json.Marshal\<close> writes for a dispatch request are read back as that request: the
  client library and the handlers agree on the names.\<close>

definition omit_empty :: "string \<Rightarrow> string \<Rightarrow> (string \<times> json) list" where
  "omit_empty k s = (if s = [] then [] else [(k, JStr s)])"

definition dispatch_members :: "dispatch_request \<Rightarrow> (string \<times> json) list" where
  "dispatch_members q =
    [(''client'', JObj ((''ip'', JStr (ci_ip (dq_client q))) # omit_empty ''region'' (ci_region (dq_client q)) @ omit_empty ''isp'' (ci_isp (dq_client q)))),
     (''resource'', JObj ((''type'', JStr (res_type (dq_resource q))) # (''key'', JStr (res_key (dq_resource q))) # omit_empty ''scheme'' (res_scheme (dq_resource q)))),
     (''hints'', JObj (if dq_need_range q then [(''need_range'', JBool True)] else []))]"

lemma read_dispatch: "read_value (dispatch_field strict) zero_dispatch (JObj (dispatch_members q)) = Some q"
  by (cases q; cases "dq_client q"; cases "dq_resource q")
    (simp add: read_value_def dispatch_members_def read_member_def dispatch_field_def struct_field_def client_field_def
      resource_field_def hints_field_def bool_field_def omit_empty_def zero_dispatch_def plain_name_def)

end
