(* ===== verification/Redis_Store.thy ===== *)
theory Redis_Store
  imports Models
begin

text \<open>
  The Redis side of \<open>internal/store/pg.go\<close>: heartbeats (hashes \<open>h:<node>\<close> with a time to live) and
  revocations (strings \<open>revoked:<node>\<close>).  A key space is a map from keys to values with an optional
  expiry time in nanoseconds, as the documentation of \<open>HSET\<close>, \<open>SET\<close>, \<open>GET\<close>, \<open>EXPIRE\<close>, \<open>DEL\<close> and
  \<open>EXISTS\<close> describes it; a key past its expiry does not exist.  The value of the field \<open>d\<close> is the
  heartbeat itself: its JSON and gzip encoding is not modelled.
\<close>

section \<open>Keys with a time to live\<close>

type_synonym 'v keyspace = "(string, 'v \<times> int option) gomap"

definition live :: "int \<Rightarrow> 'v \<times> int option \<Rightarrow> bool" where
  "live now e = (case snd e of None \<Rightarrow> True | Some t \<Rightarrow> now < t)"

definition key_get :: "int \<Rightarrow> string \<Rightarrow> 'v keyspace \<Rightarrow> 'v option" where
  "key_get now k m = (case gm_get m k of None \<Rightarrow> None | Some e \<Rightarrow> if live now e then Some (fst e) else None)"

text \<open>Setting a value keeps the expiry of a live key, as \<open>HSET\<close> does; \<open>key_put\<close> replaces it.\<close>

definition key_hset :: "int \<Rightarrow> string \<Rightarrow> 'v \<Rightarrow> 'v keyspace \<Rightarrow> 'v keyspace" where
  "key_hset now k v m =
    gm_set k (v, case gm_get m k of None \<Rightarrow> None | Some e \<Rightarrow> if live now e then snd e else None) m"

definition key_put :: "string \<Rightarrow> 'v \<Rightarrow> int option \<Rightarrow> 'v keyspace \<Rightarrow> 'v keyspace" where
  "key_put k v t m = gm_set k (v, t) m"

text \<open>\<open>EXPIRE\<close> counts in seconds; the client rounds a positive duration below one second up.\<close>

definition expire_seconds :: "int \<Rightarrow> int" where
  "expire_seconds ttl = (if 0 < ttl \<and> ttl < 1000000000 then 1
     else if 0 \<le> ttl then ttl div 1000000000 else - ((- ttl) div 1000000000))"

definition key_expire :: "int \<Rightarrow> string \<Rightarrow> int \<Rightarrow> 'v keyspace \<Rightarrow> 'v keyspace" where
  "key_expire now k secs m =
    (case key_get now k m of None \<Rightarrow> m
     | Some v \<Rightarrow> if secs \<le> 0 then gm_del k m else gm_set k (v, Some (now + secs * 1000000000)) m)"

lemma key_get_hset: "key_get now k' (key_hset now k v m) = (if k' = k then Some v else key_get now k' m)"
  by (auto simp: key_get_def key_hset_def live_def split: option.splits)

lemma key_get_put: "key_get now k' (key_put k v t m) = (if k' = k then (if live now (v, t) then Some v else None) else key_get now k' m)"
  by (simp add: key_get_def key_put_def)

lemma key_get_del: "key_get now k' (gm_del k m) = (if k' = k then None else key_get now k' m)"
  by (simp add: key_get_def)

lemma key_get_expire:
  "key_get t k' (key_expire now k secs m) =
    (if k' = k \<and> key_get now k m \<noteq> None then (if secs > 0 \<and> t < now + secs * 1000000000 then key_get now k m else None)
     else key_get t k' m)"
proof (cases "key_get now k m")
  case (Some v)
  then have "key_expire now k secs m = (if secs \<le> 0 then gm_del k m else key_put k v (Some (now + secs * 1000000000)) m)"
    by (simp add: key_expire_def key_put_def)
  then show ?thesis using Some by (simp add: key_get_del key_get_put live_def)
qed (simp add: key_expire_def)

section \<open>Heartbeats and revocations\<close>

record hb_hash =
  hh_d :: heartbeat_request
  hh_ts :: int
  hh_lseen :: int

record redis_store =
  rd_heartbeats :: "hb_hash keyspace"
  rd_revoked :: "string keyspace"

text \<open>The two commands of the pipeline succeed or fail on their own.\<close>

definition SaveHeartbeat :: "bool \<Rightarrow> bool \<Rightarrow> int \<Rightarrow> heartbeat_request \<Rightarrow> int \<Rightarrow> redis_store \<Rightarrow> redis_store \<times> bool" where
  "SaveHeartbeat ok1 ok2 now hb ttl r =
    (let k = hb_node_id hb; v = \<lparr>hh_d = hb, hh_ts = hb_ts hb, hh_lseen = hb_ts hb\<rparr>;
         m = (if ok1 then key_hset now k v (rd_heartbeats r) else rd_heartbeats r);
         m = (if ok2 then key_expire now k (expire_seconds ttl) m else m)
     in (r\<lparr>rd_heartbeats := m\<rparr>, ok1 \<and> ok2))"

fun PipelineSaveHeartbeats :: "int \<Rightarrow> heartbeat_request list \<Rightarrow> int \<Rightarrow> redis_store \<Rightarrow> redis_store" where
  "PipelineSaveHeartbeats now [] ttl r = r"
| "PipelineSaveHeartbeats now (hb # hbs) ttl r = PipelineSaveHeartbeats now hbs ttl (fst (SaveHeartbeat True True now hb ttl r))"

definition GetHeartbeat :: "int \<Rightarrow> string \<Rightarrow> redis_store \<Rightarrow> redis_store \<times> heartbeat_request option" where
  "GetHeartbeat now nodeID r =
    (case key_get now nodeID (rd_heartbeats r) of None \<Rightarrow> (r, None)
     | Some v \<Rightarrow> (r\<lparr>rd_heartbeats := key_expire now nodeID 60 (rd_heartbeats r)\<rparr>, Some (hh_d v)))"

fun GetAllHeartbeats :: "int \<Rightarrow> string list \<Rightarrow> redis_store \<Rightarrow> redis_store \<times> (string, heartbeat_request) gomap" where
  "GetAllHeartbeats now [] r = (r, [])"
| "GetAllHeartbeats now (i # is) r =
    (case GetHeartbeat now i r of
       (r', None) \<Rightarrow> GetAllHeartbeats now is r'
     | (r', Some hb) \<Rightarrow> (case GetAllHeartbeats now is r' of (r'', m) \<Rightarrow> (r'', gm_set i hb m)))"

text \<open>The check script: an existing hash gets a fresh \<open>lseen\<close> and sixty more seconds.  When the script
  cannot run, \<open>EXISTS\<close> is asked, and counts as absent when it fails too.\<close>

definition HasHeartbeat :: "bool \<Rightarrow> bool \<Rightarrow> int \<Rightarrow> string \<Rightarrow> redis_store \<Rightarrow> redis_store \<times> bool" where
  "HasHeartbeat script_ok exists_ok now nodeID r =
    (if script_ok then
       (case key_get now nodeID (rd_heartbeats r) of None \<Rightarrow> (r, False)
        | Some v \<Rightarrow> (r\<lparr>rd_heartbeats := key_expire now nodeID 60
            (key_hset now nodeID (v\<lparr>hh_lseen := now div 1000000000\<rparr>) (rd_heartbeats r))\<rparr>, True))
     else (r, exists_ok \<and> key_get now nodeID (rd_heartbeats r) \<noteq> None))"

definition cleanupStale :: "int \<Rightarrow> redis_store \<Rightarrow> redis_store" where
  "cleanupStale now r = r\<lparr>rd_heartbeats :=
     filter (\<lambda>(k, e). \<not> (live now e \<and> i64 (now div 1000000000 - hh_ts (fst e)) > 300)) (rd_heartbeats r)\<rparr>"

definition day_ns :: int where
  "day_ns = 86400000000000"

definition MarkNodeRevoked :: "bool \<Rightarrow> int \<Rightarrow> string \<Rightarrow> redis_store \<Rightarrow> redis_store \<times> bool" where
  "MarkNodeRevoked ok now nodeID r =
    (if ok then (r\<lparr>rd_revoked := key_put nodeID ''1'' (Some (now + day_ns)) (rd_revoked r)\<rparr>, True) else (r, False))"

definition IsNodeRevoked :: "bool \<Rightarrow> int \<Rightarrow> string \<Rightarrow> redis_store \<Rightarrow> bool" where
  "IsNodeRevoked ok now nodeID r \<longleftrightarrow> ok \<and> key_get now nodeID (rd_revoked r) = Some ''1''"

definition UnrevokeNode :: "bool \<Rightarrow> string \<Rightarrow> redis_store \<Rightarrow> redis_store \<times> bool" where
  "UnrevokeNode ok nodeID r = (if ok then (r\<lparr>rd_revoked := gm_del nodeID (rd_revoked r)\<rparr>, True) else (r, False))"

section \<open>Presence\<close>

lemma HasHeartbeat_extends:
  assumes "snd (HasHeartbeat True e now i r)"
  shows "key_get t i (rd_heartbeats (fst (HasHeartbeat True e now i r))) \<noteq> None \<longleftrightarrow> t < now + 60000000000"
  using assms by (auto simp: HasHeartbeat_def key_get_expire key_get_hset split: option.splits)

text \<open>Once a heartbeat is saved, the presence check keeps the node alive: the node is present until
  the time to live has passed, and every check that finds it present extends its life to sixty
  seconds after the check, whether or not another heartbeat arrives.\<close>

theorem HasHeartbeat_keeps_alive:
  assumes "0 < ttl" "now \<le> t" "t < now + expire_seconds ttl * 1000000000"
  shows "let r1 = fst (SaveHeartbeat True True now hb ttl r);
             (r2, present) = HasHeartbeat True e t (hb_node_id hb) r1
         in present \<and> (\<forall>u. snd (HasHeartbeat True e u (hb_node_id hb) r2) \<longleftrightarrow> u < t + 60000000000)"
proof -
  define r1 where "r1 = fst (SaveHeartbeat True True now hb ttl r)"
  have "expire_seconds ttl > 0" using assms by (auto simp: expire_seconds_def)
  then have "key_get t (hb_node_id hb) (rd_heartbeats r1) \<noteq> None"
    using assms by (simp add: r1_def SaveHeartbeat_def Let_def key_get_expire key_get_hset)
  then have p: "snd (HasHeartbeat True e t (hb_node_id hb) r1)"
    by (auto simp: HasHeartbeat_def split: option.splits)
  have "snd (HasHeartbeat True e u i s) \<longleftrightarrow> key_get u i (rd_heartbeats s) \<noteq> None" for u i s
    by (auto simp: HasHeartbeat_def split: option.splits)
  then show ?thesis
    using p HasHeartbeat_extends [OF p] unfolding Let_def r1_def [symmetric] by (simp add: case_prod_beta)
qed

definition sample_heartbeat :: heartbeat_request where
  "sample_heartbeat = \<lparr>hb_node_id = ''n1'', hb_ts = 1, hb_runtime = \<lparr>rt_cpu = 0, rt_mem_mb = 0, rt_disk_free_gb = 0, rt_conn = 0\<rparr>,
     hb_traffic = \<lparr>tr_egress_mbps = 0, tr_ingress_mbps = 0, tr_err_5xx_rate = 0\<rparr>, hb_hit_ratio = 0, hb_content_summary = None\<rparr>"

definition redis_empty :: redis_store where
  "redis_empty = \<lparr>rd_heartbeats = [], rd_revoked = []\<rparr>"

theorem HasHeartbeat_keeps_alive_witness:
  "let r1 = fst (SaveHeartbeat True True 0 sample_heartbeat 30000000000 redis_empty);
       (r2, present) = HasHeartbeat True True 29000000000 (hb_node_id sample_heartbeat) r1
   in present \<and> (\<forall>u. snd (HasHeartbeat True True u (hb_node_id sample_heartbeat) r2) \<longleftrightarrow> u < 29000000000 + 60000000000)"
  by (rule HasHeartbeat_keeps_alive) (simp_all add: expire_seconds_def)

end
