(* ===== verification/Rate_Limit.thy ===== *)
theory Rate_Limit
  imports Redis_Store
begin

text \<open>
  The rate limiters of the control plane: the token bucket of \<open>internal/controlplane/api.go\<close>, kept in
  atomic \<open>int64\<close>s, and the bucket per tenant of \<open>tenant_ratelimit.go\<close>, kept by a script in Redis.
\<close>

section \<open>The token bucket in memory\<close>

record rate_limiter =
  rl_rate :: int
  rl_burst :: int
  rl_tokens :: int
  rl_lastTime :: int

definition newRateLimiter :: "int \<Rightarrow> int \<Rightarrow> int \<Rightarrow> rate_limiter" where
  "newRateLimiter now rate burst = \<lparr>rl_rate = rate, rl_burst = burst, rl_tokens = burst, rl_lastTime = now\<rparr>"

text \<open>A call reads the clock and the time of the last refill, and then takes a token; the loop around
  \<open>CompareAndSwap\<close> repeats until it has seen no other update, so it acts as one step.\<close>

definition allow_load :: "int \<Rightarrow> rate_limiter \<Rightarrow> int" where
  "allow_load now rl = quot (i64 (i64 (now - rl_lastTime rl) * rl_rate rl)) 1000000000"

definition allow_take :: "int \<Rightarrow> int \<Rightarrow> rate_limiter \<Rightarrow> rate_limiter \<times> bool" where
  "allow_take now newTokens rl =
    (if newTokens \<le> 0 then
       (if rl_tokens rl \<le> 0 then (rl, False) else (rl\<lparr>rl_tokens := i64 (rl_tokens rl - 1)\<rparr>, True))
     else
       (let nv = i64 (rl_tokens rl + newTokens);
            nv = (if nv > rl_burst rl then rl_burst rl else nv)
        in if nv \<le> 0 then (rl, False) else (rl\<lparr>rl_tokens := nv - 1, rl_lastTime := now\<rparr>, True)))"

definition Allow :: "int \<Rightarrow> rate_limiter \<Rightarrow> rate_limiter \<times> bool" where
  "Allow now rl = allow_take now (allow_load now rl) rl"

text \<open>The answers to calls at the given times, one after the other.\<close>

fun allow_all :: "int list \<Rightarrow> rate_limiter \<Rightarrow> rate_limiter \<times> bool list" where
  "allow_all [] rl = (rl, [])"
| "allow_all (t # ts) rl = (case Allow t rl of (rl', b) \<Rightarrow> apsnd ((#) b) (allow_all ts rl'))"

definition admitted :: "bool list \<Rightarrow> int" where
  "admitted bs = int (length (filter id bs))"

definition limiter_ok :: "rate_limiter \<Rightarrow> bool" where
  "limiter_ok rl \<longleftrightarrow> 0 < rl_rate rl \<and> 0 \<le> rl_tokens rl \<and> rl_tokens rl \<le> rl_burst rl \<and> rl_burst rl < 2 ^ 62"

lemma quot_nonpos: "a < 0 \<Longrightarrow> 0 < b \<Longrightarrow> quot a b \<le> 0"
  by (simp add: quot_def pos_imp_zdiv_nonneg_iff)

lemma is_i64_small: "0 \<le> x \<Longrightarrow> x < 2 ^ 63 \<Longrightarrow> is_i64 x"
  by (simp add: is_i64_def)

lemma le_last: "sorted xs \<Longrightarrow> x \<in> set xs \<Longrightarrow> x \<le> last xs"
  by (induction xs) (auto split: if_splits)

lemma allow_load_exact:
  assumes "0 < rl_rate rl" "rl_lastTime rl \<le> now" "rl_rate rl * (now - rl_lastTime rl) < 2 ^ 63"
  shows "allow_load now rl = rl_rate rl * (now - rl_lastTime rl) div 1000000000"
proof -
  let ?d = "now - rl_lastTime rl"
  have "0 \<le> ?d" "?d \<le> rl_rate rl * ?d" using assms(1,2) by (simp_all add: mult_le_cancel_right1)
  then have "is_i64 ?d" using assms(3) by (intro is_i64_small) linarith+
  moreover have "is_i64 (?d * rl_rate rl)" using assms by (intro is_i64_small) (simp_all add: mult.commute)
  ultimately show ?thesis using assms(1,2) by (simp add: allow_load_def quot_nonneg mult.commute)
qed

text \<open>One call: the bucket stays within its bounds, the last refill does not move back, and what is
  taken or kept has been there or flowed in since.\<close>

lemma Allow_step:
  assumes ok: "limiter_ok rl" and t: "rl_lastTime rl \<le> now" "rl_rate rl * (now - rl_lastTime rl) < 2 ^ 63"
    and r: "Allow now rl = (rl', b)"
  shows "limiter_ok rl'" "rl_rate rl' = rl_rate rl" "rl_burst rl' = rl_burst rl" "rl_lastTime rl \<le> rl_lastTime rl'" "rl_lastTime rl' \<le> now"
    "(rl_tokens rl' + of_bool b) * 1000000000 \<le> rl_tokens rl * 1000000000 + rl_rate rl * (rl_lastTime rl' - rl_lastTime rl)"
proof -
  define n where "n = rl_rate rl * (now - rl_lastTime rl) div 1000000000"
  have nn: "0 \<le> n" "n * 1000000000 \<le> rl_rate rl * (now - rl_lastTime rl)"
    using ok t(1) by (simp_all add: n_def limiter_ok_def pos_imp_zdiv_nonneg_iff minus_mod_eq_div_mult [symmetric])
  then have "n * 1000000000 < 2 ^ 63" using t(2) by linarith
  then have nb: "n < 2 ^ 62" by simp
  have r': "allow_take now n rl = (rl', b)" using r allow_load_exact [of rl now] ok t by (simp add: Allow_def n_def limiter_ok_def)
  have tok: "is_i64 (rl_tokens rl + n)" "is_i64 (rl_tokens rl - 1)" using ok nn nb by (auto simp: limiter_ok_def is_i64_def)
  show "limiter_ok rl'" "rl_rate rl' = rl_rate rl" "rl_burst rl' = rl_burst rl" "rl_lastTime rl \<le> rl_lastTime rl'" "rl_lastTime rl' \<le> now"
    "(rl_tokens rl' + of_bool b) * 1000000000 \<le> rl_tokens rl * 1000000000 + rl_rate rl * (rl_lastTime rl' - rl_lastTime rl)"
    using r' ok t(1) nn tok by (auto simp: allow_take_def limiter_ok_def Let_def algebra_simps split: if_splits)
qed

lemma allow_all_bound:
  "\<lbrakk>limiter_ok rl; sorted (rl_lastTime rl # ts); \<forall>t\<in>set ts. rl_rate rl * (t - rl_lastTime rl) < 2 ^ 63; allow_all ts rl = (rl', bs)\<rbrakk>
    \<Longrightarrow> limiter_ok rl' \<and> rl_burst rl' = rl_burst rl \<and> rl_lastTime rl \<le> rl_lastTime rl' \<and> rl_lastTime rl' \<le> last (rl_lastTime rl # ts) \<and>
      (rl_tokens rl' + admitted bs) * 1000000000 \<le> rl_tokens rl * 1000000000 + rl_rate rl * (rl_lastTime rl' - rl_lastTime rl)"
proof (induction ts arbitrary: rl bs)
  case Nil
  then show ?case by (simp add: admitted_def)
next
  case (Cons t ts)
  obtain rl1 b where s: "Allow t rl = (rl1, b)" by fastforce
  obtain bs1 where a: "allow_all ts rl1 = (rl', bs1)" "bs = b # bs1" using Cons.prems(4) s by (auto simp: apsnd_def map_prod_def split: prod.splits)
  have t: "rl_lastTime rl \<le> t" "rl_rate rl * (t - rl_lastTime rl) < 2 ^ 63" using Cons.prems(2,3) by simp_all
  note st = Allow_step [OF Cons.prems(1) t s]
  have pos: "0 < rl_rate rl" using Cons.prems(1) by (simp add: limiter_ok_def)
  have "\<forall>u\<in>set ts. rl_rate rl1 * (u - rl_lastTime rl1) < 2 ^ 63"
  proof
    fix u assume u: "u \<in> set ts"
    have "rl_rate rl * (u - rl_lastTime rl1) \<le> rl_rate rl * (u - rl_lastTime rl)" using pos st(4) by simp
    moreover have "rl_rate rl * (u - rl_lastTime rl) < 2 ^ 63" using Cons.prems(3) u by simp
    ultimately show "rl_rate rl1 * (u - rl_lastTime rl1) < 2 ^ 63" unfolding st(2) by linarith
  qed
  moreover have "sorted (rl_lastTime rl1 # ts)" using Cons.prems(2) st(5) by auto
  ultimately have IH: "limiter_ok rl' \<and> rl_burst rl' = rl_burst rl1 \<and> rl_lastTime rl1 \<le> rl_lastTime rl' \<and> rl_lastTime rl' \<le> last (rl_lastTime rl1 # ts) \<and>
      (rl_tokens rl' + admitted bs1) * 1000000000 \<le> rl_tokens rl1 * 1000000000 + rl_rate rl1 * (rl_lastTime rl' - rl_lastTime rl1)"
    using Cons.IH [OF st(1) _ _ a(1)] by blast
  have "last (rl_lastTime rl1 # ts) \<le> last (rl_lastTime rl # t # ts)" using st(5) by (cases ts) auto
  moreover have "admitted bs = of_bool b + admitted bs1" using a(2) by (simp add: admitted_def)
  moreover have "rl_rate rl * (rl_lastTime rl1 - rl_lastTime rl) + rl_rate rl * (rl_lastTime rl' - rl_lastTime rl1) = rl_rate rl * (rl_lastTime rl' - rl_lastTime rl)"
    by (simp add: algebra_simps)
  ultimately show ?case using IH st(2-4,6) by (auto simp: algebra_simps)
qed

text \<open>C25: the token bucket limits the rate.  Of the calls at times \<open>ts\<close> after the limiter was made, one after
  the other, at most \<open>burst\<close> plus \<open>rate\<close> per second elapsed are admitted, as long as \<open>rate\<close> times the time
  elapsed in nanoseconds fits an \<open>int64\<close>; the bucket never holds less than zero or more than \<open>burst\<close> tokens.\<close>

theorem rate_limiter_bound:
  assumes "0 < rate" "0 \<le> burst" "burst < 2 ^ 62" "sorted (t0 # ts)" "rate * (last (t0 # ts) - t0) < 2 ^ 63"
    and "allow_all ts (newRateLimiter t0 rate burst) = (rl, bs)"
  shows "admitted bs \<le> burst + rate * (last (t0 # ts) - t0) div 1000000000 \<and> 0 \<le> rl_tokens rl \<and> rl_tokens rl \<le> burst"
proof -
  let ?r = "newRateLimiter t0 rate burst" and ?T = "last (t0 # ts)"
  have "\<forall>t\<in>set ts. rate * (t - t0) < 2 ^ 63"
  proof
    fix t assume "t \<in> set ts"
    then have "t \<le> ?T" using le_last [OF assms(4)] by simp
    then have "rate * (t - t0) \<le> rate * (?T - t0)" using assms(1) by simp
    then show "rate * (t - t0) < 2 ^ 63" using assms(5) by linarith
  qed
  then have b: "limiter_ok rl \<and> rl_burst rl = burst \<and> rl_lastTime rl \<le> ?T \<and>
      (rl_tokens rl + admitted bs) * 1000000000 \<le> burst * 1000000000 + rate * (rl_lastTime rl - t0)"
    using allow_all_bound [of ?r ts rl bs] assms by (simp add: newRateLimiter_def limiter_ok_def)
  then have "rate * (rl_lastTime rl - t0) \<le> rate * (?T - t0)" "0 \<le> rl_tokens rl" using assms(1) by (simp_all add: limiter_ok_def)
  then have "(admitted bs - burst) * 1000000000 \<le> rate * (?T - t0)" using b by (simp add: algebra_simps)
  then have "(admitted bs - burst) * 1000000000 div 1000000000 \<le> rate * (?T - t0) div 1000000000" by (rule zdiv_mono1) simp
  then show ?thesis using b by (simp add: limiter_ok_def)
qed

theorem rate_limiter_bound_witness:
  "allow_all [0, 100000000, 500000000, 500000000] (newRateLimiter 0 2 1) =
      (\<lparr>rl_rate = 2, rl_burst = 1, rl_tokens = 0, rl_lastTime = 500000000\<rparr>, [True, False, True, False]) \<and>
    admitted [True, False, True, False] \<le> 1 + 2 * 500000000 div 1000000000"
proof -
  have r: "allow_all [0, 100000000, 500000000, 500000000] (newRateLimiter 0 2 1) =
      (\<lparr>rl_rate = 2, rl_burst = 1, rl_tokens = 0, rl_lastTime = 500000000\<rparr>, [True, False, True, False])"
    by code_simp
  then show ?thesis using rate_limiter_bound [OF _ _ _ _ _ r] by simp
qed

section \<open>The buckets of the tenants\<close>

record tenant_limit =
  tl_ReqPerSec :: int
  tl_Burst :: int

record bucket =
  bk_tokens :: float64
  bk_last_refill :: float64

record tenant_limiter =
  trl_limits :: "(string, tenant_limit) gomap"

definition NewTenantRateLimiter :: tenant_limiter where
  "NewTenantRateLimiter = \<lparr>trl_limits = []\<rparr>"

definition SetLimit :: "string \<Rightarrow> int \<Rightarrow> int \<Rightarrow> tenant_limiter \<Rightarrow> tenant_limiter" where
  "SetLimit tenantID reqPerSec burst trl =
    trl\<lparr>trl_limits := gm_set tenantID \<lparr>tl_ReqPerSec = reqPerSec, tl_Burst = burst\<rparr> (trl_limits trl)\<rparr>"

definition getLimit :: "tenant_limiter \<Rightarrow> string \<Rightarrow> int \<times> int" where
  "getLimit trl tenantID =
    (case gm_get (trl_limits trl) tenantID of Some l \<Rightarrow> (tl_ReqPerSec l, tl_Burst l) | None \<Rightarrow> (100, 200))"

text \<open>The script computes with Lua's doubles, which Redis stores with 17 digits and so without loss.
  \<open>clock\<close> is the server's clock, which decides on expiry, \<open>now\<close> the caller's in milliseconds.\<close>

definition rateLimitScript :: "int \<Rightarrow> string \<Rightarrow> int \<Rightarrow> int \<Rightarrow> int \<Rightarrow> bucket keyspace \<Rightarrow> bucket keyspace \<times> int" where
  "rateLimitScript clock key rateArg burstArg nowArg m =
    (let rate = float_of_int rateArg; burst = float_of_int burstArg; now = float_of_int nowArg;
         tokens = (case key_get clock key m of Some b \<Rightarrow> bk_tokens b | None \<Rightarrow> burst);
         last_refill = (case key_get clock key m of Some b \<Rightarrow> bk_last_refill b | None \<Rightarrow> now);
         elapsed = fsub now last_refill;
         (tokens, last_refill) =
           (if elapsed > 0 then (min burst (fadd tokens (fdiv (fmul elapsed rate) 1000)), now) else (tokens, last_refill));
         (tokens, answer) = (if tokens \<ge> 1 then (fsub tokens 1, 1) else (tokens, 0))
     in (key_expire clock key 10 (key_hset clock key \<lparr>bk_tokens = tokens, bk_last_refill = last_refill\<rparr> m), answer))"

text \<open>\<open>ok\<close> says whether Redis answers; a limiter that cannot reach it admits.\<close>

definition tenant_Allow :: "bool \<Rightarrow> int \<Rightarrow> int \<Rightarrow> string \<Rightarrow> tenant_limiter \<Rightarrow> bucket keyspace \<Rightarrow> bucket keyspace \<times> bool" where
  "tenant_Allow ok clock nowMs tenantID trl m =
    (if \<not> ok then (m, True)
     else let (reqPerSec, burst) = getLimit trl tenantID;
              (m', allowed) = rateLimitScript clock (''rl:tenant:'' @ tenantID) reqPerSec burst nowMs m
          in (m', allowed = 1))"

text \<open>A bucket holds between zero tokens and its burst, whatever the clocks said; the buckets of other
  tenants are left alone; and a limiter that cannot reach Redis admits.\<close>

definition bucket_ok :: "int \<Rightarrow> bucket \<Rightarrow> bool" where
  "bucket_ok burst b \<longleftrightarrow> 0 \<le> bk_tokens b \<and> bk_tokens b \<le> of_int burst"

lemma fsub_one_bounds:
  assumes "1 \<le> x" "x \<le> of_int n" "n \<le> 2 ^ 53"
  shows "0 \<le> fsub x 1" "fsub x 1 \<le> of_int n"
proof -
  have "1 \<le> n" using assms(1,2) by linarith
  then have "f64 (of_int n) = of_int n" using float_of_int_exact [of n] assms(3) by (simp add: float_of_int_def)
  then show "fsub x 1 \<le> of_int n" using f64_mono [of "x - 1" "of_int n"] assms(2) by (simp add: fsub_def)
  show "0 \<le> fsub x 1" using f64_pos [of "x - 1"] assms(1) by (simp add: fsub_def)
qed

lemma refill_nonneg: "0 \<le> t \<Longrightarrow> 0 < e \<Longrightarrow> 0 \<le> r \<Longrightarrow> 0 \<le> fadd t (fdiv (fmul e (float_of_int r)) 1000)"
  by (simp add: fadd_def fdiv_def fmul_def float_of_int_def f64_pos)

lemma rateLimitScript_keeps:
  assumes "0 \<le> rate" "0 \<le> burst" "burst \<le> 2 ^ 53" and old: "\<And>b. key_get clock key m = Some b \<Longrightarrow> bucket_ok burst b"
    and r: "rateLimitScript clock key rate burst now m = (m', a)"
  shows "(\<exists>b. key_get clock key m' = Some b \<and> bucket_ok burst b) \<and> (\<forall>t k. k \<noteq> key \<longrightarrow> key_get t k m' = key_get t k m)"
proof -
  have bf: "float_of_int burst = of_int burst" using assms(2,3) by (simp add: float_of_int_exact)
  define t0 l0 where "t0 = (case key_get clock key m of Some b \<Rightarrow> bk_tokens b | None \<Rightarrow> float_of_int burst)"
    and "l0 = (case key_get clock key m of Some b \<Rightarrow> bk_last_refill b | None \<Rightarrow> float_of_int now)"
  define e where "e = fsub (float_of_int now) l0"
  define t1 where "t1 = (if e > 0 then min (float_of_int burst) (fadd t0 (fdiv (fmul e (float_of_int rate)) 1000)) else t0)"
  define t2 where "t2 = (if t1 \<ge> 1 then fsub t1 1 else t1)"
  have "0 \<le> t0" "t0 \<le> of_int burst" using old assms(2) bf by (auto simp: t0_def bucket_ok_def split: option.splits)
  then have t1: "0 \<le> t1" "t1 \<le> of_int burst" using refill_nonneg [of t0 e rate] assms(1,2) bf by (auto simp: t1_def)
  then have t2: "0 \<le> t2" "t2 \<le> of_int burst" using fsub_one_bounds [of t1 burst] assms(3) by (auto simp: t2_def)
  obtain l2 where m': "m' = key_expire clock key 10 (key_hset clock key \<lparr>bk_tokens = t2, bk_last_refill = l2\<rparr> m)"
    using r unfolding rateLimitScript_def Let_def t2_def t1_def e_def t0_def l0_def by (auto split: if_splits)
  have "key_get t k (key_hset clock key v m) = key_get t k m" if "k \<noteq> key" for t k and v :: bucket
    using that by (simp add: key_get_def key_hset_def)
  then show ?thesis using t2 by (auto simp: m' key_get_expire key_get_hset bucket_ok_def)
qed

lemma tenant_Allow_other_tenants:
  assumes "tenant_Allow ok clock nowMs tenant trl m = (m', a)" "key \<noteq> ''rl:tenant:'' @ tenant"
  shows "key_get t key m' = key_get t key m"
proof -
  have "key_get t key (key_expire clock k 10 (key_hset clock k v m)) = key_get t key m" if "key \<noteq> k" for k and v :: bucket
    using that by (simp add: key_get_expire) (simp add: key_get_def key_hset_def)
  then show ?thesis using assms by (auto simp: tenant_Allow_def rateLimitScript_def Let_def split: if_splits prod.splits)
qed

end
