(* ===== verification/Admin_Store.thy ===== *)
theory Admin_Store
  imports Go_Json Models
begin

text \<open>
  The tables behind the admin console in \<open>internal/store/pg.go\<close>: tenants, projects, users, policies and
  their versions, ingresses, tasks and the audit log.  A table with a primary key is a map from the key
  to the row.  Reads go to the replica when one is configured, another copy of the tables that may lag.
  \<open>db\<close> says whether the statement reaches the database, \<open>now\<close> is the clock, \<open>uid\<close> the eight characters
  cut from a fresh UUID and \<open>jsonb\<close> what PostgreSQL makes of a JSON value for a \<open>JSONB\<close> column
  (\<^const>\<open>None\<close>: it refuses it).
\<close>

section \<open>Rows\<close>

record tenant =
  tn_TenantID :: string
  tn_Name :: string
  tn_Description :: string
  tn_CreatedAt :: int
  tn_UpdatedAt :: int

record project =
  pj_ProjectID :: string
  pj_TenantID :: string
  pj_Name :: string
  pj_Description :: string
  pj_CreatedAt :: int
  pj_UpdatedAt :: int

record role_binding =
  rb_Role :: string
  rb_TenantID :: string
  rb_ProjectID :: string

record user =
  us_UserID :: string
  us_TenantID :: string
  us_Email :: string
  us_DisplayName :: string
  us_Roles :: "role_binding list"
  us_MustChange :: bool
  us_CreatedAt :: int
  us_UpdatedAt :: int

record user_row =
  ur_user :: user
  ur_password_hash :: string
  ur_refresh_token_hash :: string

record admin_policy =
  ap_PolicyID :: string
  ap_TenantID :: string
  ap_ProjectID :: string
  ap_Name :: string
  ap_Type :: string
  ap_Content :: "json option"
  ap_Version :: int
  ap_IsPublished :: bool
  ap_Description :: string
  ap_CreatedAt :: int
  ap_UpdatedAt :: int

record policy_version =
  pv_VersionID :: string
  pv_PolicyID :: string
  pv_Version :: int
  pv_Content :: "json option"
  pv_CreatedAt :: int

record ingress =
  ig_IngressID :: string
  ig_TenantID :: string
  ig_ProjectID :: string
  ig_Name :: string
  ig_Type :: string
  ig_Domain :: string
  ig_Config :: "json option"
  ig_CreatedAt :: int
  ig_UpdatedAt :: int

record task =
  tk_TaskID :: string
  tk_TenantID :: string
  tk_ProjectID :: string
  tk_CreatorID :: string
  tk_Type :: string
  tk_Status :: string
  tk_Params :: "json option"
  tk_Result :: "json option"
  tk_Progress :: int
  tk_TotalNodes :: int
  tk_DoneNodes :: int
  tk_CreatedAt :: int
  tk_UpdatedAt :: int

record audit_event =
  ae_ID :: int
  ae_TenantID :: string
  ae_ProjectID :: string
  ae_ActorID :: string
  ae_ActorEmail :: string
  ae_Action :: string
  ae_ResourceType :: string
  ae_ResourceID :: string
  ae_Before :: "json option"
  ae_After :: "json option"
  ae_RequestID :: string
  ae_SourceIP :: string
  ae_UserAgent :: string
  ae_Result :: string
  ae_CreatedAt :: int

section \<open>Tables\<close>

type_synonym 'r table = "(string, 'r) gomap"

record admin_tables =
  tb_tenants :: "tenant table"
  tb_projects :: "project table"
  tb_users :: "user_row table"
  tb_policies :: "admin_policy table"
  tb_versions :: "policy_version table"
  tb_ingresses :: "ingress table"
  tb_tasks :: "task table"
  tb_audit :: "audit_event list"

record admin_store =
  as_primary :: admin_tables
  as_replica :: "admin_tables option"

definition reads :: "admin_store \<Rightarrow> admin_tables" where
  "reads s = (case as_replica s of Some t \<Rightarrow> t | None \<Rightarrow> as_primary s)"

datatype admin_error = AdminDb | AdminNoRows | AdminEmptyHash

text \<open>\<open>INSERT\<close> fails on a key that is taken; \<open>UPDATE\<close> and \<open>DELETE\<close> of a missing row succeed.\<close>

definition tbl_insert :: "string \<Rightarrow> 'r \<Rightarrow> 'r table \<Rightarrow> 'r table option" where
  "tbl_insert k r t = (if gm_get t k = None then Some (gm_set k r t) else None)"

definition tbl_update :: "string \<Rightarrow> ('r \<Rightarrow> 'r) \<Rightarrow> 'r table \<Rightarrow> 'r table" where
  "tbl_update k f t = (case gm_get t k of None \<Rightarrow> t | Some r \<Rightarrow> gm_set k (f r) t)"

definition tbl_get :: "bool \<Rightarrow> string \<Rightarrow> 'r table \<Rightarrow> admin_error + 'r" where
  "tbl_get db k t = (if \<not> db then Inl AdminDb else case gm_get t k of None \<Rightarrow> Inl AdminNoRows | Some r \<Rightarrow> Inr r)"

text \<open>\<open>WHERE\<close> and \<open>ORDER BY created_at DESC\<close>.\<close>

definition tbl_list :: "('r \<Rightarrow> bool) \<Rightarrow> ('r \<Rightarrow> int) \<Rightarrow> 'r table \<Rightarrow> 'r list" where
  "tbl_list P created t = sort_key (\<lambda>r. - created r) (filter P (map snd t))"

definition matches :: "string \<Rightarrow> string \<Rightarrow> bool" where
  "matches given value \<longleftrightarrow> given = [] \<or> value = given"

definition json_col :: "(json \<Rightarrow> json option) \<Rightarrow> json option \<Rightarrow> json option" where
  "json_col jsonb v = jsonb (case v of None \<Rightarrow> JNull | Some j \<Rightarrow> j)"

abbreviation prim :: "(admin_tables \<Rightarrow> admin_tables) \<Rightarrow> admin_store \<Rightarrow> admin_store" where
  "prim f s \<equiv> s\<lparr>as_primary := f (as_primary s)\<rparr>"

section \<open>Tenants and projects\<close>

definition CreateTenant :: "bool \<Rightarrow> int \<Rightarrow> string \<Rightarrow> tenant \<Rightarrow> admin_store \<Rightarrow> admin_store \<times> (admin_error + tenant)" where
  "CreateTenant db now uid t s =
    (let t = t\<lparr>tn_TenantID := ''t_'' @ uid, tn_CreatedAt := now, tn_UpdatedAt := now\<rparr> in
     case (if db then tbl_insert (tn_TenantID t) t (tb_tenants (as_primary s)) else None) of
       None \<Rightarrow> (s, Inl AdminDb)
     | Some tb \<Rightarrow> (prim (\<lambda>p. p\<lparr>tb_tenants := tb\<rparr>) s, Inr t))"

definition GetTenant :: "bool \<Rightarrow> string \<Rightarrow> admin_store \<Rightarrow> admin_error + tenant" where
  "GetTenant db i s = tbl_get db i (tb_tenants (reads s))"

definition ListTenants :: "bool \<Rightarrow> admin_store \<Rightarrow> admin_error + tenant list" where
  "ListTenants db s = (if db then Inr (tbl_list (\<lambda>_. True) tn_CreatedAt (tb_tenants (reads s))) else Inl AdminDb)"

definition UpdateTenant :: "bool \<Rightarrow> int \<Rightarrow> tenant \<Rightarrow> admin_store \<Rightarrow> admin_store \<times> admin_error option" where
  "UpdateTenant db now t s =
    (if \<not> db then (s, Some AdminDb)
     else (prim (\<lambda>p. p\<lparr>tb_tenants := tbl_update (tn_TenantID t)
       (\<lambda>r. r\<lparr>tn_Name := tn_Name t, tn_Description := tn_Description t, tn_UpdatedAt := now\<rparr>) (tb_tenants p)\<rparr>) s, None))"

text \<open>A tenant that a project refers to cannot be deleted.\<close>

definition DeleteTenant :: "bool \<Rightarrow> string \<Rightarrow> admin_store \<Rightarrow> admin_store \<times> admin_error option" where
  "DeleteTenant db i s =
    (if \<not> db \<or> list_ex (\<lambda>(_, p). pj_TenantID p = i) (tb_projects (as_primary s)) \<and> gm_get (tb_tenants (as_primary s)) i \<noteq> None
     then (s, Some AdminDb)
     else (prim (\<lambda>p. p\<lparr>tb_tenants := gm_del i (tb_tenants p)\<rparr>) s, None))"

definition CreateProject :: "bool \<Rightarrow> int \<Rightarrow> string \<Rightarrow> project \<Rightarrow> admin_store \<Rightarrow> admin_store \<times> (admin_error + project)" where
  "CreateProject db now uid p s =
    (let p = p\<lparr>pj_ProjectID := ''p_'' @ uid, pj_CreatedAt := now, pj_UpdatedAt := now\<rparr> in
     case (if db \<and> gm_get (tb_tenants (as_primary s)) (pj_TenantID p) \<noteq> None
           then tbl_insert (pj_ProjectID p) p (tb_projects (as_primary s)) else None) of
       None \<Rightarrow> (s, Inl AdminDb)
     | Some tb \<Rightarrow> (prim (\<lambda>q. q\<lparr>tb_projects := tb\<rparr>) s, Inr p))"

definition GetProject :: "bool \<Rightarrow> string \<Rightarrow> admin_store \<Rightarrow> admin_error + project" where
  "GetProject db i s = tbl_get db i (tb_projects (reads s))"

definition ListProjects :: "bool \<Rightarrow> string \<Rightarrow> admin_store \<Rightarrow> admin_error + project list" where
  "ListProjects db tenant s =
    (if db then Inr (tbl_list (\<lambda>p. pj_TenantID p = tenant) pj_CreatedAt (tb_projects (reads s))) else Inl AdminDb)"

definition UpdateProject :: "bool \<Rightarrow> int \<Rightarrow> project \<Rightarrow> admin_store \<Rightarrow> admin_store \<times> admin_error option" where
  "UpdateProject db now p s =
    (if \<not> db then (s, Some AdminDb)
     else (prim (\<lambda>q. q\<lparr>tb_projects := tbl_update (pj_ProjectID p)
       (\<lambda>r. r\<lparr>pj_Name := pj_Name p, pj_Description := pj_Description p, pj_UpdatedAt := now\<rparr>) (tb_projects q)\<rparr>) s, None))"

definition DeleteProject :: "bool \<Rightarrow> string \<Rightarrow> admin_store \<Rightarrow> admin_store \<times> admin_error option" where
  "DeleteProject db i s =
    (if \<not> db then (s, Some AdminDb) else (prim (\<lambda>q. q\<lparr>tb_projects := gm_del i (tb_projects q)\<rparr>) s, None))"

section \<open>Users\<close>

definition CreateUser :: "bool \<Rightarrow> int \<Rightarrow> string \<Rightarrow> user \<Rightarrow> string \<Rightarrow> admin_store \<Rightarrow> admin_store \<times> (admin_error + user)" where
  "CreateUser db now uid u hash s =
    (let u = u\<lparr>us_UserID := ''u_'' @ uid, us_CreatedAt := now, us_UpdatedAt := now\<rparr> in
     case (if db \<and> \<not> list_ex (\<lambda>(_, r). us_Email (ur_user r) = us_Email u) (tb_users (as_primary s))
           then tbl_insert (us_UserID u) \<lparr>ur_user = u, ur_password_hash = hash, ur_refresh_token_hash = []\<rparr> (tb_users (as_primary s))
           else None) of
       None \<Rightarrow> (s, Inl AdminDb)
     | Some tb \<Rightarrow> (prim (\<lambda>q. q\<lparr>tb_users := tb\<rparr>) s, Inr u))"

definition GetUserByEmail :: "bool \<Rightarrow> string \<Rightarrow> admin_store \<Rightarrow> admin_error + user \<times> string" where
  "GetUserByEmail db email s =
    (if \<not> db then Inl AdminDb
     else case filter (\<lambda>(_, r). us_Email (ur_user r) = email) (tb_users (reads s)) of
        [] \<Rightarrow> Inl AdminNoRows | (_, r) # _ \<Rightarrow> Inr (ur_user r, ur_password_hash r))"

definition GetUser :: "bool \<Rightarrow> string \<Rightarrow> admin_store \<Rightarrow> admin_error + user" where
  "GetUser db i s = map_sum (\<lambda>e. e) ur_user (tbl_get db i (tb_users (reads s)))"

definition ListUsers :: "bool \<Rightarrow> string \<Rightarrow> admin_store \<Rightarrow> admin_error + user list" where
  "ListUsers db tenant s =
    (if db then Inr (map ur_user (tbl_list (\<lambda>r. us_TenantID (ur_user r) = tenant) (us_CreatedAt \<circ> ur_user) (tb_users (reads s)))) else Inl AdminDb)"

definition upd_user :: "bool \<Rightarrow> string \<Rightarrow> (user_row \<Rightarrow> user_row) \<Rightarrow> admin_store \<Rightarrow> admin_store \<times> admin_error option" where
  "upd_user db i f s =
    (if \<not> db then (s, Some AdminDb) else (prim (\<lambda>q. q\<lparr>tb_users := tbl_update i f (tb_users q)\<rparr>) s, None))"

definition UpdateUser :: "bool \<Rightarrow> int \<Rightarrow> user \<Rightarrow> admin_store \<Rightarrow> admin_store \<times> admin_error option" where
  "UpdateUser db now u s = upd_user db (us_UserID u)
    (\<lambda>r. r\<lparr>ur_user := (ur_user r)\<lparr>us_DisplayName := us_DisplayName u, us_Roles := us_Roles u, us_UpdatedAt := now\<rparr>\<rparr>) s"

definition DeleteUser :: "bool \<Rightarrow> string \<Rightarrow> admin_store \<Rightarrow> admin_store \<times> admin_error option" where
  "DeleteUser db i s =
    (if \<not> db then (s, Some AdminDb) else (prim (\<lambda>q. q\<lparr>tb_users := gm_del i (tb_users q)\<rparr>) s, None))"

definition UpdateUserRefreshToken :: "bool \<Rightarrow> int \<Rightarrow> string \<Rightarrow> string \<Rightarrow> admin_store \<Rightarrow> admin_store \<times> admin_error option" where
  "UpdateUserRefreshToken db now i hash s = upd_user db i
    (\<lambda>r. r\<lparr>ur_refresh_token_hash := hash, ur_user := (ur_user r)\<lparr>us_UpdatedAt := now\<rparr>\<rparr>) s"

definition UpdateUserPassword :: "bool \<Rightarrow> int \<Rightarrow> string \<Rightarrow> string \<Rightarrow> admin_store \<Rightarrow> admin_store \<times> admin_error option" where
  "UpdateUserPassword db now i hash s = upd_user db i
    (\<lambda>r. r\<lparr>ur_password_hash := hash, ur_user := (ur_user r)\<lparr>us_MustChange := False, us_UpdatedAt := now\<rparr>\<rparr>) s"

definition GetUserPasswordHash :: "bool \<Rightarrow> string \<Rightarrow> admin_store \<Rightarrow> admin_error + string" where
  "GetUserPasswordHash db i s = map_sum (\<lambda>e. e) ur_password_hash (tbl_get db i (tb_users (reads s)))"

definition GetUserIDByRefreshToken :: "bool \<Rightarrow> string \<Rightarrow> admin_store \<Rightarrow> admin_error + string" where
  "GetUserIDByRefreshToken db hash s =
    (if hash = [] then Inl AdminEmptyHash
     else if \<not> db then Inl AdminDb
     else case filter (\<lambda>(_, r). ur_refresh_token_hash r = hash) (tb_users (reads s)) of
        [] \<Rightarrow> Inl AdminNoRows | (_, r) # _ \<Rightarrow> Inr (us_UserID (ur_user r)))"

section \<open>Policies and their versions\<close>

definition CreateAdminPolicy :: "bool \<Rightarrow> int \<Rightarrow> string \<Rightarrow> (json \<Rightarrow> json option) \<Rightarrow> admin_policy \<Rightarrow> admin_store \<Rightarrow> admin_store \<times> (admin_error + admin_policy)" where
  "CreateAdminPolicy db now uid jsonb p s =
    (let p = p\<lparr>ap_PolicyID := ''pol_'' @ uid, ap_Version := 1, ap_CreatedAt := now, ap_UpdatedAt := now\<rparr> in
     case (if db then json_col jsonb (ap_Content p) else None) of
       None \<Rightarrow> (s, Inl AdminDb)
     | Some c \<Rightarrow>
        (case tbl_insert (ap_PolicyID p) (p\<lparr>ap_Content := Some c\<rparr>) (tb_policies (as_primary s)) of
           None \<Rightarrow> (s, Inl AdminDb)
         | Some tb \<Rightarrow> (prim (\<lambda>q. q\<lparr>tb_policies := tb\<rparr>) s, Inr p)))"

definition GetAdminPolicy :: "bool \<Rightarrow> string \<Rightarrow> admin_store \<Rightarrow> admin_error + admin_policy" where
  "GetAdminPolicy db i s = tbl_get db i (tb_policies (reads s))"

definition ListAdminPolicies :: "bool \<Rightarrow> string \<Rightarrow> string \<Rightarrow> admin_store \<Rightarrow> admin_error + admin_policy list" where
  "ListAdminPolicies db tenant project s =
    (if db then Inr (tbl_list (\<lambda>p. matches tenant (ap_TenantID p) \<and> matches project (ap_ProjectID p)) ap_CreatedAt (tb_policies (reads s)))
     else Inl AdminDb)"

definition upd_policy :: "bool \<Rightarrow> string \<Rightarrow> (admin_policy \<Rightarrow> admin_policy) \<Rightarrow> admin_store \<Rightarrow> admin_store \<times> admin_error option" where
  "upd_policy db i f s =
    (if \<not> db then (s, Some AdminDb) else (prim (\<lambda>q. q\<lparr>tb_policies := tbl_update i f (tb_policies q)\<rparr>) s, None))"

definition UpdateAdminPolicy :: "bool \<Rightarrow> int \<Rightarrow> (json \<Rightarrow> json option) \<Rightarrow> admin_policy \<Rightarrow> admin_store \<Rightarrow> admin_store \<times> admin_error option" where
  "UpdateAdminPolicy db now jsonb p s =
    (case json_col jsonb (ap_Content p) of
       None \<Rightarrow> (s, Some AdminDb)
     | Some c \<Rightarrow> upd_policy db (ap_PolicyID p)
         (\<lambda>r. r\<lparr>ap_Name := ap_Name p, ap_Type := ap_Type p, ap_Content := Some c, ap_Version := ap_Version r + 1,
               ap_Description := ap_Description p, ap_UpdatedAt := now\<rparr>) s)"

definition PublishAdminPolicy :: "bool \<Rightarrow> int \<Rightarrow> string \<Rightarrow> admin_store \<Rightarrow> admin_store \<times> admin_error option" where
  "PublishAdminPolicy db now i s = upd_policy db i (\<lambda>r. r\<lparr>ap_IsPublished := True, ap_UpdatedAt := now\<rparr>) s"

text \<open>The versions of a policy go with it (\<open>ON DELETE CASCADE\<close>).\<close>

definition DeleteAdminPolicy :: "bool \<Rightarrow> string \<Rightarrow> admin_store \<Rightarrow> admin_store \<times> admin_error option" where
  "DeleteAdminPolicy db i s =
    (if \<not> db then (s, Some AdminDb)
     else (prim (\<lambda>q. q\<lparr>tb_policies := gm_del i (tb_policies q),
             tb_versions := filter (\<lambda>(_, v). pv_PolicyID v \<noteq> i) (tb_versions q)\<rparr>) s, None))"

definition SavePolicyVersion :: "bool \<Rightarrow> int \<Rightarrow> string \<Rightarrow> (json \<Rightarrow> json option) \<Rightarrow> policy_version \<Rightarrow> admin_store \<Rightarrow> admin_store \<times> admin_error option" where
  "SavePolicyVersion db now uid jsonb v s =
    (let v = v\<lparr>pv_VersionID := ''pv_'' @ uid, pv_CreatedAt := now\<rparr> in
     case (if db \<and> gm_get (tb_policies (as_primary s)) (pv_PolicyID v) \<noteq> None then json_col jsonb (pv_Content v) else None) of
       None \<Rightarrow> (s, Some AdminDb)
     | Some c \<Rightarrow>
        (case tbl_insert (pv_VersionID v) (v\<lparr>pv_Content := Some c\<rparr>) (tb_versions (as_primary s)) of
           None \<Rightarrow> (s, Some AdminDb)
         | Some tb \<Rightarrow> (prim (\<lambda>q. q\<lparr>tb_versions := tb\<rparr>) s, None)))"

definition GetPolicyVersions :: "bool \<Rightarrow> string \<Rightarrow> admin_store \<Rightarrow> admin_error + policy_version list" where
  "GetPolicyVersions db i s =
    (if db then Inr (tbl_list (\<lambda>v. pv_PolicyID v = i) pv_Version (tb_versions (reads s))) else Inl AdminDb)"

definition RollbackPolicy :: "bool \<Rightarrow> int \<Rightarrow> (json \<Rightarrow> json option) \<Rightarrow> string \<Rightarrow> int \<Rightarrow> json option \<Rightarrow> admin_store \<Rightarrow> admin_store \<times> admin_error option" where
  "RollbackPolicy db now jsonb i version content s =
    (case json_col jsonb content of
       None \<Rightarrow> (s, Some AdminDb)
     | Some c \<Rightarrow> upd_policy db i (\<lambda>r. r\<lparr>ap_Content := Some c, ap_Version := version, ap_IsPublished := True, ap_UpdatedAt := now\<rparr>) s)"

section \<open>Ingresses\<close>

definition CreateIngress :: "bool \<Rightarrow> int \<Rightarrow> string \<Rightarrow> (json \<Rightarrow> json option) \<Rightarrow> ingress \<Rightarrow> admin_store \<Rightarrow> admin_store \<times> (admin_error + ingress)" where
  "CreateIngress db now uid jsonb g s =
    (let g = g\<lparr>ig_IngressID := ''ing_'' @ uid, ig_CreatedAt := now, ig_UpdatedAt := now\<rparr> in
     case (if db then json_col jsonb (ig_Config g) else None) of
       None \<Rightarrow> (s, Inl AdminDb)
     | Some c \<Rightarrow>
        (case tbl_insert (ig_IngressID g) (g\<lparr>ig_Config := Some c\<rparr>) (tb_ingresses (as_primary s)) of
           None \<Rightarrow> (s, Inl AdminDb)
         | Some tb \<Rightarrow> (prim (\<lambda>q. q\<lparr>tb_ingresses := tb\<rparr>) s, Inr g)))"

definition GetIngress :: "bool \<Rightarrow> string \<Rightarrow> admin_store \<Rightarrow> admin_error + ingress" where
  "GetIngress db i s = tbl_get db i (tb_ingresses (reads s))"

definition ListIngresses :: "bool \<Rightarrow> string \<Rightarrow> string \<Rightarrow> admin_store \<Rightarrow> admin_error + ingress list" where
  "ListIngresses db tenant project s =
    (if db then Inr (tbl_list (\<lambda>g. matches tenant (ig_TenantID g) \<and> matches project (ig_ProjectID g)) ig_CreatedAt (tb_ingresses (reads s)))
     else Inl AdminDb)"

definition UpdateIngress :: "bool \<Rightarrow> int \<Rightarrow> (json \<Rightarrow> json option) \<Rightarrow> ingress \<Rightarrow> admin_store \<Rightarrow> admin_store \<times> admin_error option" where
  "UpdateIngress db now jsonb g s =
    (case (if db then json_col jsonb (ig_Config g) else None) of
       None \<Rightarrow> (s, Some AdminDb)
     | Some c \<Rightarrow> (prim (\<lambda>q. q\<lparr>tb_ingresses := tbl_update (ig_IngressID g)
         (\<lambda>r. r\<lparr>ig_Name := ig_Name g, ig_Type := ig_Type g, ig_Domain := ig_Domain g, ig_Config := Some c, ig_UpdatedAt := now\<rparr>)
         (tb_ingresses q)\<rparr>) s, None))"

definition DeleteIngress :: "bool \<Rightarrow> string \<Rightarrow> admin_store \<Rightarrow> admin_store \<times> admin_error option" where
  "DeleteIngress db i s =
    (if \<not> db then (s, Some AdminDb) else (prim (\<lambda>q. q\<lparr>tb_ingresses := gm_del i (tb_ingresses q)\<rparr>) s, None))"

section \<open>Tasks\<close>

definition CreateTask :: "bool \<Rightarrow> int \<Rightarrow> string \<Rightarrow> (json \<Rightarrow> json option) \<Rightarrow> task \<Rightarrow> admin_store \<Rightarrow> admin_store \<times> (admin_error + task)" where
  "CreateTask db now uid jsonb t s =
    (let t = t\<lparr>tk_TaskID := ''task_'' @ uid, tk_CreatedAt := now, tk_UpdatedAt := now\<rparr> in
     case (if db then (json_col jsonb (tk_Params t), json_col jsonb (tk_Result t)) else (None, None)) of
       (Some p, Some r) \<Rightarrow>
        (case tbl_insert (tk_TaskID t) (t\<lparr>tk_Params := Some p, tk_Result := Some r\<rparr>) (tb_tasks (as_primary s)) of
           None \<Rightarrow> (s, Inl AdminDb)
         | Some tb \<Rightarrow> (prim (\<lambda>q. q\<lparr>tb_tasks := tb\<rparr>) s, Inr t))
     | _ \<Rightarrow> (s, Inl AdminDb))"

definition GetTask :: "bool \<Rightarrow> string \<Rightarrow> admin_store \<Rightarrow> admin_error + task" where
  "GetTask db i s = tbl_get db i (tb_tasks (reads s))"

text \<open>The count comes from a statement of its own (\<open>db1\<close>).  PostgreSQL refuses a negative limit or offset.\<close>

definition page :: "int \<Rightarrow> int \<Rightarrow> 'r list \<Rightarrow> 'r list option" where
  "page limit offset xs = (if limit < 0 \<or> offset < 0 then None else Some (take (nat limit) (drop (nat offset) xs)))"

definition ListTasks :: "bool \<Rightarrow> bool \<Rightarrow> string \<Rightarrow> string \<Rightarrow> string \<Rightarrow> int \<Rightarrow> int \<Rightarrow> admin_store \<Rightarrow> admin_error + task list \<times> int" where
  "ListTasks db1 db2 tenant status ty limit offset s =
    (let all = tbl_list (\<lambda>t. matches tenant (tk_TenantID t) \<and> matches status (tk_Status t) \<and> matches ty (tk_Type t)) tk_CreatedAt (tb_tasks (reads s)) in
     if \<not> db1 \<or> \<not> db2 then Inl AdminDb
     else case page limit offset all of None \<Rightarrow> Inl AdminDb | Some ts \<Rightarrow> Inr (ts, int (length all)))"

definition UpdateTaskStatus :: "bool \<Rightarrow> int \<Rightarrow> (json \<Rightarrow> json option) \<Rightarrow> string \<Rightarrow> string \<Rightarrow> json option \<Rightarrow> int \<Rightarrow> int \<Rightarrow> admin_store \<Rightarrow> admin_store \<times> admin_error option" where
  "UpdateTaskStatus db now jsonb i status result progress done_nodes s =
    (case (if db then json_col jsonb result else None) of
       None \<Rightarrow> (s, Some AdminDb)
     | Some r \<Rightarrow> (prim (\<lambda>q. q\<lparr>tb_tasks := tbl_update i
         (\<lambda>t. t\<lparr>tk_Status := status, tk_Result := Some r, tk_Progress := progress, tk_DoneNodes := done_nodes, tk_UpdatedAt := now\<rparr>)
         (tb_tasks q)\<rparr>) s, None))"

section \<open>Audit log\<close>

text \<open>\<open>serial\<close> is the next value of the sequence behind the \<open>BIGSERIAL\<close> column.\<close>

definition CreateAuditEvent :: "bool \<Rightarrow> int \<Rightarrow> int \<Rightarrow> (json \<Rightarrow> json option) \<Rightarrow> audit_event \<Rightarrow> admin_store \<Rightarrow> admin_store \<times> admin_error option" where
  "CreateAuditEvent db now serial jsonb e s =
    (case (if db then (json_col jsonb (ae_Before e), json_col jsonb (ae_After e)) else (None, None)) of
       (Some b, Some a) \<Rightarrow>
         (prim (\<lambda>q. q\<lparr>tb_audit := tb_audit q @ [e\<lparr>ae_ID := serial, ae_Before := Some b, ae_After := Some a, ae_CreatedAt := now\<rparr>]\<rparr>) s, None)
     | _ \<Rightarrow> (s, Some AdminDb))"

record audit_query =
  aq_ActorID :: string
  aq_Action :: string
  aq_ResourceType :: string
  aq_ResourceID :: string
  aq_Result :: string
  aq_TenantID :: string
  aq_ProjectID :: string
  aq_Since :: "int option"
  aq_Until :: "int option"
  aq_Limit :: int
  aq_Offset :: int

definition audit_matches :: "audit_query \<Rightarrow> audit_event \<Rightarrow> bool" where
  "audit_matches q e \<longleftrightarrow>
    matches (aq_ActorID q) (ae_ActorID e) \<and> matches (aq_Action q) (ae_Action e) \<and>
    matches (aq_ResourceType q) (ae_ResourceType e) \<and> matches (aq_ResourceID q) (ae_ResourceID e) \<and>
    matches (aq_Result q) (ae_Result e) \<and> matches (aq_TenantID q) (ae_TenantID e) \<and> matches (aq_ProjectID q) (ae_ProjectID e) \<and>
    (case aq_Since q of None \<Rightarrow> True | Some t \<Rightarrow> t \<le> ae_CreatedAt e) \<and>
    (case aq_Until q of None \<Rightarrow> True | Some t \<Rightarrow> ae_CreatedAt e \<le> t)"

definition QueryAuditEvents :: "bool \<Rightarrow> bool \<Rightarrow> audit_query \<Rightarrow> admin_store \<Rightarrow> admin_error + audit_event list \<times> int" where
  "QueryAuditEvents db1 db2 q s =
    (let limit = (if aq_Limit q \<le> 0 then 50 else aq_Limit q);
         all = sort_key (\<lambda>e. - ae_CreatedAt e) (filter (audit_matches q) (tb_audit (reads s))) in
     if \<not> db1 \<or> \<not> db2 then Inl AdminDb
     else case page limit (aq_Offset q) all of None \<Rightarrow> Inl AdminDb | Some es \<Rightarrow> Inr (es, int (length all)))"

section \<open>Integrity\<close>

text \<open>Rows are stored under their own key, the keys of tenants and policies that other rows refer to
  exist, and no two users share an address.\<close>

definition keyed :: "('r \<Rightarrow> string) \<Rightarrow> 'r table \<Rightarrow> bool" where
  "keyed key t \<longleftrightarrow> gm_wf t \<and> list_all (\<lambda>(k, r). key r = k) t"

definition tables_ok :: "admin_tables \<Rightarrow> bool" where
  "tables_ok t \<longleftrightarrow>
    keyed tn_TenantID (tb_tenants t) \<and> keyed pj_ProjectID (tb_projects t) \<and> keyed (us_UserID \<circ> ur_user) (tb_users t) \<and>
    keyed ap_PolicyID (tb_policies t) \<and> keyed pv_VersionID (tb_versions t) \<and> keyed ig_IngressID (tb_ingresses t) \<and> keyed tk_TaskID (tb_tasks t) \<and>
    list_all (\<lambda>(_, p). gm_get (tb_tenants t) (pj_TenantID p) \<noteq> None) (tb_projects t) \<and>
    list_all (\<lambda>(_, v). gm_get (tb_policies t) (pv_PolicyID v) \<noteq> None) (tb_versions t) \<and>
    distinct (map (us_Email \<circ> ur_user \<circ> snd) (tb_users t))"

definition no_tables :: admin_tables where
  "no_tables = \<lparr>tb_tenants = [], tb_projects = [], tb_users = [], tb_policies = [], tb_versions = [], tb_ingresses = [], tb_tasks = [], tb_audit = []\<rparr>"

lemma keyed_Nil [simp]: "keyed key []"
  by (simp add: keyed_def)

lemma keyed_wf: "keyed key t \<Longrightarrow> gm_wf t"
  by (simp add: keyed_def)

lemma keyed_get: "keyed key t \<Longrightarrow> gm_get t k = Some r \<Longrightarrow> key r = k"
  using map_of_SomeD [of t k r] by (auto simp: keyed_def list_all_iff)

lemma keyed_set: "keyed key t \<Longrightarrow> key r = k \<Longrightarrow> keyed key (gm_set k r t)"
  by (auto simp: keyed_def list_all_iff gm_set_pairs)

lemma keyed_insert: "\<lbrakk>keyed key t; tbl_insert k r t = Some t'; key r = k\<rbrakk> \<Longrightarrow> keyed key t' \<and> t' = t @ [(k, r)]"
  using keyed_set [of key t r k] by (auto simp: tbl_insert_def gm_set_new split: if_splits)

lemma keyed_update: "\<lbrakk>keyed key t; \<And>r. key (f r) = key r\<rbrakk> \<Longrightarrow> keyed key (tbl_update k f t)"
  using keyed_get [of key t k] by (auto simp: tbl_update_def keyed_set split: option.splits)

lemma keyed_del: "keyed key t \<Longrightarrow> keyed key (gm_del k t)"
  by (auto simp: keyed_def list_all_iff gm_del_pairs)

lemma keyed_filter: "keyed key t \<Longrightarrow> keyed key (filter P t)"
  by (auto simp: keyed_def list_all_iff)

lemma gm_get_update: "gm_get (tbl_update k f t) k' = (if k' = k then map_option f (gm_get t k) else gm_get t k')"
  by (auto simp: tbl_update_def split: option.splits)

lemma set_tbl_update: "(k', r) \<in> set (tbl_update k f t) \<Longrightarrow> gm_wf t \<Longrightarrow> (\<exists>r0. (k', r0) \<in> set t \<and> (r = r0 \<or> r = f r0))"
  using map_of_SomeD [of t k] by (auto simp: tbl_update_def gm_set_pairs split: option.splits)

text \<open>The statements that change the tables.\<close>

datatype admin_op =
    OpCreateTenant bool int string tenant | OpUpdateTenant bool int tenant | OpDeleteTenant bool string
  | OpCreateProject bool int string project | OpUpdateProject bool int project | OpDeleteProject bool string
  | OpCreateUser bool int string user string | OpUpdateUser bool int user | OpDeleteUser bool string
  | OpRefreshToken bool int string string | OpPassword bool int string string
  | OpCreatePolicy bool int string "json \<Rightarrow> json option" admin_policy | OpUpdatePolicy bool int "json \<Rightarrow> json option" admin_policy
  | OpPublish bool int string | OpDeletePolicy bool string
  | OpSaveVersion bool int string "json \<Rightarrow> json option" policy_version
  | OpRollback bool int "json \<Rightarrow> json option" string int "json option"
  | OpCreateIngress bool int string "json \<Rightarrow> json option" ingress | OpUpdateIngress bool int "json \<Rightarrow> json option" ingress | OpDeleteIngress bool string
  | OpCreateTask bool int string "json \<Rightarrow> json option" task | OpTaskStatus bool int "json \<Rightarrow> json option" string string "json option" int int
  | OpAudit bool int int "json \<Rightarrow> json option" audit_event

fun admin_exec :: "admin_op \<Rightarrow> admin_store \<Rightarrow> admin_store" where
  "admin_exec (OpCreateTenant db now uid t) s = fst (CreateTenant db now uid t s)"
| "admin_exec (OpUpdateTenant db now t) s = fst (UpdateTenant db now t s)"
| "admin_exec (OpDeleteTenant db i) s = fst (DeleteTenant db i s)"
| "admin_exec (OpCreateProject db now uid p) s = fst (CreateProject db now uid p s)"
| "admin_exec (OpUpdateProject db now p) s = fst (UpdateProject db now p s)"
| "admin_exec (OpDeleteProject db i) s = fst (DeleteProject db i s)"
| "admin_exec (OpCreateUser db now uid u h) s = fst (CreateUser db now uid u h s)"
| "admin_exec (OpUpdateUser db now u) s = fst (UpdateUser db now u s)"
| "admin_exec (OpDeleteUser db i) s = fst (DeleteUser db i s)"
| "admin_exec (OpRefreshToken db now i h) s = fst (UpdateUserRefreshToken db now i h s)"
| "admin_exec (OpPassword db now i h) s = fst (UpdateUserPassword db now i h s)"
| "admin_exec (OpCreatePolicy db now uid jb p) s = fst (CreateAdminPolicy db now uid jb p s)"
| "admin_exec (OpUpdatePolicy db now jb p) s = fst (UpdateAdminPolicy db now jb p s)"
| "admin_exec (OpPublish db now i) s = fst (PublishAdminPolicy db now i s)"
| "admin_exec (OpDeletePolicy db i) s = fst (DeleteAdminPolicy db i s)"
| "admin_exec (OpSaveVersion db now uid jb v) s = fst (SavePolicyVersion db now uid jb v s)"
| "admin_exec (OpRollback db now jb i v c) s = fst (RollbackPolicy db now jb i v c s)"
| "admin_exec (OpCreateIngress db now uid jb g) s = fst (CreateIngress db now uid jb g s)"
| "admin_exec (OpUpdateIngress db now jb g) s = fst (UpdateIngress db now jb g s)"
| "admin_exec (OpDeleteIngress db i) s = fst (DeleteIngress db i s)"
| "admin_exec (OpCreateTask db now uid jb t) s = fst (CreateTask db now uid jb t s)"
| "admin_exec (OpTaskStatus db now jb i st r p d) s = fst (UpdateTaskStatus db now jb i st r p d s)"
| "admin_exec (OpAudit db now serial jb e) s = fst (CreateAuditEvent db now serial jb e s)"

lemma list_all_tbl_update:
  "\<lbrakk>gm_wf t; list_all (\<lambda>(_, r). P r) t; \<And>r. P (f r) = P r\<rbrakk> \<Longrightarrow> list_all (\<lambda>(_, r). P r) (tbl_update k f t)"
proof -
  assume a: "gm_wf t" "list_all (\<lambda>(_, r). P r) t" "\<And>r. P (f r) = P r"
  have "P r" if "(k', r) \<in> set (tbl_update k f t)" for k' r
    using set_tbl_update [OF that a(1)] a(2,3) by (auto simp: list_all_iff)
  then show ?thesis by (auto simp: list_all_iff)
qed

lemma map_tbl_update: "\<lbrakk>\<And>r. g (f r) = g r\<rbrakk> \<Longrightarrow> map (g \<circ> snd) (tbl_update k f t) = map (g \<circ> snd) t"
proof -
  assume g: "\<And>r. g (f r) = g r"
  have "gm_get t k = Some r \<Longrightarrow> g r' = g r \<Longrightarrow> map (g \<circ> snd) (gm_set k r' t) = map (g \<circ> snd) t" for r r'
    by (induction t) (auto split: if_splits)
  then show ?thesis using g by (auto simp: tbl_update_def split: option.splits)
qed

lemma distinct_map_del: "distinct (map (g \<circ> snd) t) \<Longrightarrow> distinct (map (g \<circ> snd) (gm_del k t))"
  by (simp add: AList.delete_eq distinct_map_filter)

lemma policies_update_ok:
  assumes "tables_ok t" "\<And>r. ap_PolicyID (f r) = ap_PolicyID r"
  shows "tables_ok (t\<lparr>tb_policies := tbl_update i f (tb_policies t)\<rparr>)"
proof -
  have "gm_get (tbl_update i f (tb_policies t)) k \<noteq> None" if "gm_get (tb_policies t) k \<noteq> None" for k
    using that by (auto simp: gm_get_update)
  then show ?thesis using assms by (auto simp: tables_ok_def keyed_update list_all_iff)
qed

lemma users_update_ok:
  assumes "tables_ok t" "\<And>r. us_UserID (ur_user (f r)) = us_UserID (ur_user r)" "\<And>r. us_Email (ur_user (f r)) = us_Email (ur_user r)"
  shows "tables_ok (t\<lparr>tb_users := tbl_update i f (tb_users t)\<rparr>)"
  using assms map_tbl_update [of "us_Email \<circ> ur_user" f i "tb_users t"] by (simp add: tables_ok_def keyed_update comp_def)

lemma tenants_update_ok:
  assumes "tables_ok t" "\<And>r. tn_TenantID (f r) = tn_TenantID r"
  shows "tables_ok (t\<lparr>tb_tenants := tbl_update i f (tb_tenants t)\<rparr>)"
proof -
  have "gm_get (tbl_update i f (tb_tenants t)) k \<noteq> None" if "gm_get (tb_tenants t) k \<noteq> None" for k
    using that by (auto simp: gm_get_update)
  then show ?thesis using assms by (auto simp: tables_ok_def keyed_update list_all_iff)
qed

lemma projects_update_ok:
  assumes "tables_ok t" "\<And>r. pj_ProjectID (f r) = pj_ProjectID r" "\<And>r. pj_TenantID (f r) = pj_TenantID r"
  shows "tables_ok (t\<lparr>tb_projects := tbl_update i f (tb_projects t)\<rparr>)"
proof -
  note ok = assms(1) [unfolded tables_ok_def]
  have "gm_wf (tb_projects t)" using ok keyed_wf by blast
  then have "list_all (\<lambda>(_, p). gm_get (tb_tenants t) (pj_TenantID p) \<noteq> None) (tbl_update i f (tb_projects t))"
    using ok assms(3) by (intro list_all_tbl_update [where P = "\<lambda>p. gm_get (tb_tenants t) (pj_TenantID p) \<noteq> None"]) simp_all
  then show ?thesis using ok assms(2) by (simp add: tables_ok_def keyed_update)
qed

lemma admin_exec_updates:
  assumes "tables_ok (as_primary s)"
  shows "tables_ok (as_primary (fst (UpdateTenant db now tn s)))" "tables_ok (as_primary (fst (UpdateProject db now pj s)))"
    "tables_ok (as_primary (fst (UpdateUser db now u s)))" "tables_ok (as_primary (fst (UpdateUserRefreshToken db now i h s)))"
    "tables_ok (as_primary (fst (UpdateUserPassword db now i h s)))" "tables_ok (as_primary (fst (UpdateAdminPolicy db now jb p s)))"
    "tables_ok (as_primary (fst (PublishAdminPolicy db now i s)))" "tables_ok (as_primary (fst (RollbackPolicy db now jb i v c s)))"
  using assms
  by (simp_all add: UpdateTenant_def UpdateProject_def UpdateUser_def UpdateUserRefreshToken_def UpdateUserPassword_def upd_user_def
      UpdateAdminPolicy_def PublishAdminPolicy_def RollbackPolicy_def upd_policy_def tenants_update_ok projects_update_ok
      users_update_ok policies_update_ok split: option.splits)

lemma insert_keeps: "\<lbrakk>tbl_insert k r t = Some t'; gm_get t k' \<noteq> None\<rbrakk> \<Longrightarrow> gm_get t' k' \<noteq> None"
  by (auto simp: tbl_insert_def split: if_splits)

lemma refers_mono: "\<lbrakk>list_all (\<lambda>(_, p). gm_get t (f p) \<noteq> None) xs; \<And>k. gm_get t k \<noteq> None \<Longrightarrow> gm_get t' k \<noteq> None\<rbrakk>
    \<Longrightarrow> list_all (\<lambda>(_, p). gm_get t' (f p) \<noteq> None) xs"
  by (induction xs) auto

lemma tables_insert_ok:
  assumes "tables_ok t"
  shows "tbl_insert (tn_TenantID tn) tn (tb_tenants t) = Some tt \<Longrightarrow> tables_ok (t\<lparr>tb_tenants := tt\<rparr>)"
    "\<lbrakk>gm_get (tb_tenants t) (pj_TenantID pj) \<noteq> None; tbl_insert (pj_ProjectID pj) pj (tb_projects t) = Some tp\<rbrakk> \<Longrightarrow> tables_ok (t\<lparr>tb_projects := tp\<rparr>)"
    "\<lbrakk>\<not> list_ex (\<lambda>(_, x). us_Email (ur_user x) = us_Email (ur_user r)) (tb_users t); tbl_insert (us_UserID (ur_user r)) r (tb_users t) = Some tu\<rbrakk>
      \<Longrightarrow> tables_ok (t\<lparr>tb_users := tu\<rparr>)"
    "tbl_insert (ap_PolicyID ap) ap (tb_policies t) = Some ta \<Longrightarrow> tables_ok (t\<lparr>tb_policies := ta\<rparr>)"
    "\<lbrakk>gm_get (tb_policies t) (pv_PolicyID pv) \<noteq> None; tbl_insert (pv_VersionID pv) pv (tb_versions t) = Some tv\<rbrakk> \<Longrightarrow> tables_ok (t\<lparr>tb_versions := tv\<rparr>)"
    "tbl_insert (ig_IngressID g) g (tb_ingresses t) = Some tg \<Longrightarrow> tables_ok (t\<lparr>tb_ingresses := tg\<rparr>)"
    "tbl_insert (tk_TaskID k) k (tb_tasks t) = Some tk \<Longrightarrow> tables_ok (t\<lparr>tb_tasks := tk\<rparr>)"
proof -
  note ok = assms [unfolded tables_ok_def]
  show "tables_ok (t\<lparr>tb_tenants := tt\<rparr>)" if ins: "tbl_insert (tn_TenantID tn) tn (tb_tenants t) = Some tt"
  proof -
    have "list_all (\<lambda>(_, p). gm_get tt (pj_TenantID p) \<noteq> None) (tb_projects t)"
      by (rule refers_mono [of "tb_tenants t"]) (use ok in blast, rule insert_keeps [OF ins])
    then show ?thesis using ok keyed_insert [OF _ ins] by (simp add: tables_ok_def)
  qed
  show "\<lbrakk>gm_get (tb_tenants t) (pj_TenantID pj) \<noteq> None; tbl_insert (pj_ProjectID pj) pj (tb_projects t) = Some tp\<rbrakk> \<Longrightarrow> tables_ok (t\<lparr>tb_projects := tp\<rparr>)"
    using ok keyed_insert [of pj_ProjectID "tb_projects t" "pj_ProjectID pj" pj tp] by (auto simp: tables_ok_def)
  show "\<lbrakk>\<not> list_ex (\<lambda>(_, x). us_Email (ur_user x) = us_Email (ur_user r)) (tb_users t); tbl_insert (us_UserID (ur_user r)) r (tb_users t) = Some tu\<rbrakk>
      \<Longrightarrow> tables_ok (t\<lparr>tb_users := tu\<rparr>)"
    using ok keyed_insert [of "us_UserID \<circ> ur_user" "tb_users t" "us_UserID (ur_user r)" r tu] by (auto simp: tables_ok_def list_ex_iff)
  show "tables_ok (t\<lparr>tb_policies := ta\<rparr>)" if ins: "tbl_insert (ap_PolicyID ap) ap (tb_policies t) = Some ta"
  proof -
    have "list_all (\<lambda>(_, p). gm_get ta (pv_PolicyID p) \<noteq> None) (tb_versions t)"
      by (rule refers_mono [of "tb_policies t"]) (use ok in blast, rule insert_keeps [OF ins])
    then show ?thesis using ok keyed_insert [OF _ ins] by (simp add: tables_ok_def)
  qed
  show "\<lbrakk>gm_get (tb_policies t) (pv_PolicyID pv) \<noteq> None; tbl_insert (pv_VersionID pv) pv (tb_versions t) = Some tv\<rbrakk> \<Longrightarrow> tables_ok (t\<lparr>tb_versions := tv\<rparr>)"
    using ok keyed_insert [of pv_VersionID "tb_versions t" "pv_VersionID pv" pv tv] by (auto simp: tables_ok_def)
  show "tbl_insert (ig_IngressID g) g (tb_ingresses t) = Some tg \<Longrightarrow> tables_ok (t\<lparr>tb_ingresses := tg\<rparr>)"
    using ok keyed_insert [of ig_IngressID "tb_ingresses t" "ig_IngressID g" g tg] by (auto simp: tables_ok_def)
  show "tbl_insert (tk_TaskID k) k (tb_tasks t) = Some tk \<Longrightarrow> tables_ok (t\<lparr>tb_tasks := tk\<rparr>)"
    using ok keyed_insert [of tk_TaskID "tb_tasks t" "tk_TaskID k" k tk] by (auto simp: tables_ok_def)
qed

lemma admin_exec_creates:
  assumes ok: "tables_ok (as_primary s)"
  shows "tables_ok (as_primary (fst (CreateTenant db now uid tn s)))" "tables_ok (as_primary (fst (CreateProject db now uid pj s)))"
    "tables_ok (as_primary (fst (CreateUser db now uid u h s)))" "tables_ok (as_primary (fst (CreateAdminPolicy db now uid jb p s)))"
    "tables_ok (as_primary (fst (SavePolicyVersion db now uid jb v s)))" "tables_ok (as_primary (fst (CreateIngress db now uid jb g s)))"
    "tables_ok (as_primary (fst (CreateTask db now uid jb k s)))"
proof -
  note ins = tables_insert_ok [OF ok]
  show "tables_ok (as_primary (fst (CreateTenant db now uid tn s)))"
    using ok ins(1) [of "tn\<lparr>tn_TenantID := ''t_'' @ uid, tn_CreatedAt := now, tn_UpdatedAt := now\<rparr>"]
    by (simp add: CreateTenant_def Let_def split: option.splits)
  show "tables_ok (as_primary (fst (CreateProject db now uid pj s)))"
    using ok ins(2) [of "pj\<lparr>pj_ProjectID := ''p_'' @ uid, pj_CreatedAt := now, pj_UpdatedAt := now\<rparr>"]
    by (simp add: CreateProject_def Let_def split: option.splits if_splits)
  show "tables_ok (as_primary (fst (CreateUser db now uid u h s)))"
    using ok ins(3) [of "\<lparr>ur_user = u\<lparr>us_UserID := ''u_'' @ uid, us_CreatedAt := now, us_UpdatedAt := now\<rparr>, ur_password_hash = h, ur_refresh_token_hash = []\<rparr>"]
    by (simp add: CreateUser_def Let_def split: option.splits if_splits)
  show "tables_ok (as_primary (fst (CreateAdminPolicy db now uid jb p s)))"
    using ok ins(4) [of "p\<lparr>ap_PolicyID := ''pol_'' @ uid, ap_Version := 1, ap_CreatedAt := now, ap_UpdatedAt := now, ap_Content := c\<rparr>" for c]
    by (simp add: CreateAdminPolicy_def Let_def split: option.splits if_splits)
  show "tables_ok (as_primary (fst (SavePolicyVersion db now uid jb v s)))"
    using ok ins(5) [of "v\<lparr>pv_VersionID := ''pv_'' @ uid, pv_CreatedAt := now, pv_Content := c\<rparr>" for c]
    by (simp add: SavePolicyVersion_def Let_def split: option.splits if_splits)
  show "tables_ok (as_primary (fst (CreateIngress db now uid jb g s)))"
    using ok ins(6) [of "g\<lparr>ig_IngressID := ''ing_'' @ uid, ig_CreatedAt := now, ig_UpdatedAt := now, ig_Config := c\<rparr>" for c]
    by (simp add: CreateIngress_def Let_def split: option.splits if_splits)
  show "tables_ok (as_primary (fst (CreateTask db now uid jb k s)))"
    using ok ins(7) [of "k\<lparr>tk_TaskID := ''task_'' @ uid, tk_CreatedAt := now, tk_UpdatedAt := now, tk_Params := c, tk_Result := d\<rparr>" for c d]
    by (simp add: CreateTask_def Let_def split: option.splits if_splits)
qed

lemma admin_exec_deletes:
  assumes ok: "tables_ok (as_primary s)"
  shows "tables_ok (as_primary (fst (DeleteTenant db i s)))" "tables_ok (as_primary (fst (DeleteProject db i s)))"
    "tables_ok (as_primary (fst (DeleteUser db i s)))" "tables_ok (as_primary (fst (DeleteAdminPolicy db i s)))"
    "tables_ok (as_primary (fst (DeleteIngress db i s)))"
proof -
  note t = ok [unfolded tables_ok_def]
  show "tables_ok (as_primary (fst (DeleteTenant db i s)))"
  proof (cases "gm_get (tb_tenants (as_primary s)) i")
    case None
    then show ?thesis using ok by (simp add: DeleteTenant_def gm_del_absent)
  next
    case (Some r)
    have "list_all (\<lambda>(_, p). gm_get (gm_del i (tb_tenants (as_primary s))) (pj_TenantID p) \<noteq> None) (tb_projects (as_primary s))"
      if "\<not> list_ex (\<lambda>(_, p). pj_TenantID p = i) (tb_projects (as_primary s))"
      using that t by (auto simp: list_all_iff list_ex_iff)
    then show ?thesis using ok t Some by (simp add: DeleteTenant_def tables_ok_def keyed_del)
  qed
  show "tables_ok (as_primary (fst (DeleteProject db i s)))"
    using ok t by (auto simp: DeleteProject_def tables_ok_def keyed_del list_all_iff gm_del_pairs)
  show "tables_ok (as_primary (fst (DeleteUser db i s)))"
    using ok t distinct_map_del [of "us_Email \<circ> ur_user" "tb_users (as_primary s)" i]
    by (simp add: DeleteUser_def tables_ok_def keyed_del comp_def)
  show "tables_ok (as_primary (fst (DeleteAdminPolicy db i s)))"
    using ok t by (auto simp: DeleteAdminPolicy_def tables_ok_def keyed_del keyed_filter list_all_iff)
  show "tables_ok (as_primary (fst (DeleteIngress db i s)))"
    using ok t by (simp add: DeleteIngress_def tables_ok_def keyed_del)
qed

lemma admin_exec_rest:
  assumes ok: "tables_ok (as_primary s)"
  shows "tables_ok (as_primary (fst (UpdateIngress db now jb g s)))" "tables_ok (as_primary (fst (UpdateTaskStatus db now jb i st r p d s)))"
    "tables_ok (as_primary (fst (CreateAuditEvent db now serial jb e s)))"
  using ok by (simp_all add: UpdateIngress_def UpdateTaskStatus_def CreateAuditEvent_def tables_ok_def keyed_update split: option.splits)

lemma admin_exec_ok: "tables_ok (as_primary s) \<Longrightarrow> tables_ok (as_primary (admin_exec op s))"
  by (cases op) (simp_all add: admin_exec_updates admin_exec_creates admin_exec_deletes admin_exec_rest)

lemma admin_run_ok: "tables_ok (as_primary s) \<Longrightarrow> tables_ok (as_primary (fold admin_exec ops s))"
  by (induction ops arbitrary: s) (simp_all add: admin_exec_ok)

lemmas admin_defs = CreateTenant_def UpdateTenant_def DeleteTenant_def CreateProject_def UpdateProject_def DeleteProject_def
  CreateUser_def UpdateUser_def DeleteUser_def UpdateUserRefreshToken_def UpdateUserPassword_def upd_user_def
  CreateAdminPolicy_def UpdateAdminPolicy_def PublishAdminPolicy_def DeleteAdminPolicy_def SavePolicyVersion_def RollbackPolicy_def upd_policy_def
  CreateIngress_def UpdateIngress_def DeleteIngress_def CreateTask_def UpdateTaskStatus_def CreateAuditEvent_def

lemma admin_exec_replica: "as_replica (admin_exec op s) = as_replica s"
  by (cases op) (simp_all add: admin_defs Let_def split: option.splits)

lemma admin_run_replica: "as_replica (fold admin_exec ops s) = as_replica s"
  by (induction ops arbitrary: s) (simp_all add: admin_exec_replica)

lemma distinct_one: "distinct (map g xs) \<Longrightarrow> x \<in> set xs \<Longrightarrow> length (filter (\<lambda>y. g y = g x) xs) = 1"
proof (induction xs)
  case (Cons y ys)
  show ?case
  proof (cases "g y = g x")
    case True
    have "filter (\<lambda>z. g z = g x) ys = []" using Cons.prems(1) True by (auto simp: filter_empty_conv image_iff)
    then show ?thesis using True by simp
  next
    case False
    then show ?thesis using Cons by auto
  qed
qed simp

lemma GetUserByEmail_row:
  assumes "GetUserByEmail db email s = Inr (u, h)"
  shows "db" "\<exists>k r. (k, r) \<in> set (tb_users (reads s)) \<and> ur_user r = u \<and> ur_password_hash r = h \<and> us_Email u = email"
proof -
  show db using assms by (auto simp: GetUserByEmail_def split: if_splits)
  then obtain k r rest where f: "filter (\<lambda>(_, r). us_Email (ur_user r) = email) (tb_users (reads s)) = (k, r) # rest" "u = ur_user r" "h = ur_password_hash r"
    using assms by (auto simp: GetUserByEmail_def split: list.splits)
  have "(k, r) \<in> set (filter (\<lambda>(_, r). us_Email (ur_user r) = email) (tb_users (reads s)))" unfolding f(1) by simp
  then have "(k, r) \<in> set (tb_users (reads s)) \<and> us_Email (ur_user r) = email" by simp
  then show "\<exists>k r. (k, r) \<in> set (tb_users (reads s)) \<and> ur_user r = u \<and> ur_password_hash r = h \<and> us_Email u = email"
    using f by auto
qed


definition sample_user :: user where
  "sample_user = \<lparr>us_UserID = [], us_TenantID = ''default'', us_Email = ''a@b'', us_DisplayName = [], us_Roles = [],
    us_MustChange = True, us_CreatedAt = 0, us_UpdatedAt = 0\<rparr>"


end
