(* ===== verification/Policy.thy ===== *)
theory Policy
  imports Admin_Store Go_Json_Print
begin

text \<open>
  \<open>internal/controlplane/policy.go\<close>: the block lists the dispatcher consults.  They live in memory behind
  an atomic pointer, are replaced as a whole by every change, and are reloaded from the published
  policies of the database every thirty seconds.
\<close>

record policy =
  pd_blockedIPs :: "(string, bool) gomap"
  pd_blockedNodes :: "(string, bool) gomap"

definition NewPolicy :: policy where
  "NewPolicy = \<lparr>pd_blockedIPs = [], pd_blockedNodes = []\<rparr>"

definition bool_at :: "(string, bool) gomap \<Rightarrow> string \<Rightarrow> bool" where
  "bool_at m k = (case gm_get m k of Some b \<Rightarrow> b | None \<Rightarrow> False)"

definition IsBlocked :: "policy \<Rightarrow> string \<Rightarrow> bool" where
  "IsBlocked p ip = bool_at (pd_blockedIPs p) ip"

definition IsNodeBlocked :: "policy \<Rightarrow> string \<Rightarrow> bool" where
  "IsNodeBlocked p n = bool_at (pd_blockedNodes p) n"

definition copyMap :: "(string, bool) gomap \<Rightarrow> (string, bool) gomap" where
  "copyMap m = fold (\<lambda>(k, v). gm_set k v) m []"

definition BlockIP :: "string \<Rightarrow> policy \<Rightarrow> policy" where
  "BlockIP ip p = \<lparr>pd_blockedIPs = gm_set ip True (copyMap (pd_blockedIPs p)), pd_blockedNodes = pd_blockedNodes p\<rparr>"

definition UnblockIP :: "string \<Rightarrow> policy \<Rightarrow> policy" where
  "UnblockIP ip p = \<lparr>pd_blockedIPs = gm_del ip (copyMap (pd_blockedIPs p)), pd_blockedNodes = pd_blockedNodes p\<rparr>"

definition BlockNode :: "string \<Rightarrow> policy \<Rightarrow> policy" where
  "BlockNode n p = \<lparr>pd_blockedIPs = pd_blockedIPs p, pd_blockedNodes = gm_set n True (copyMap (pd_blockedNodes p))\<rparr>"

definition UnblockNode :: "string \<Rightarrow> policy \<Rightarrow> policy" where
  "UnblockNode n p = \<lparr>pd_blockedIPs = pd_blockedIPs p, pd_blockedNodes = gm_del n (copyMap (pd_blockedNodes p))\<rparr>"

section \<open>Loading from the database\<close>

record block_content =
  bc_BlockedIPs :: "string list"
  bc_BlockedNodes :: "string list"

definition block_field :: "block_content \<Rightarrow> string \<Rightarrow> json \<Rightarrow> block_content \<times> bool" where
  "block_field c k v =
    (if field_is ''blocked_ips'' k then strs_field (\<lambda>x. c\<lparr>bc_BlockedIPs := x\<rparr>) (bc_BlockedIPs c) c v
     else if field_is ''blocked_nodes'' k then strs_field (\<lambda>x. c\<lparr>bc_BlockedNodes := x\<rparr>) (bc_BlockedNodes c) c v
     else (c, True))"

definition block_content_of :: "json option \<Rightarrow> block_content option" where
  "block_content_of v = (case v of None \<Rightarrow> None
     | Some j \<Rightarrow> read_value block_field \<lparr>bc_BlockedIPs = [], bc_BlockedNodes = []\<rparr> j)"

definition add_policy :: "admin_policy \<Rightarrow> policy \<Rightarrow> policy" where
  "add_policy pol d =
    (if \<not> ap_IsPublished pol \<or> ap_Type pol \<noteq> ''block'' then d
     else case block_content_of (ap_Content pol) of None \<Rightarrow> d
      | Some c \<Rightarrow> \<lparr>pd_blockedIPs = fold (\<lambda>ip. gm_set ip True) (bc_BlockedIPs c) (pd_blockedIPs d),
                  pd_blockedNodes = fold (\<lambda>n. gm_set n True) (bc_BlockedNodes c) (pd_blockedNodes d)\<rparr>)"

definition SyncFromDB :: "bool \<Rightarrow> admin_store \<Rightarrow> policy \<Rightarrow> policy" where
  "SyncFromDB db s p =
    (case ListAdminPolicies db [] [] s of Inl _ \<Rightarrow> p
     | Inr pols \<Rightarrow> fold add_policy pols NewPolicy)"

section \<open>What the lists hold\<close>

definition policy_wf :: "policy \<Rightarrow> bool" where
  "policy_wf p \<longleftrightarrow> gm_wf (pd_blockedIPs p) \<and> gm_wf (pd_blockedNodes p)"

lemma copyMap_get: "gm_wf m \<Longrightarrow> gm_get (copyMap m) k = gm_get m k"
proof -
  have "gm_wf m \<Longrightarrow> gm_get (fold (\<lambda>(k, v). gm_set k v) m a) k = (case gm_get m k of Some v \<Rightarrow> Some v | None \<Rightarrow> gm_get a k)" for a
  proof (induction m arbitrary: a)
    case (Cons p m)
    obtain x y where p: "p = (x, y)" by fastforce
    have "gm_wf m" "gm_get m x = None" using Cons.prems p by (auto simp: gm_wf_def map_of_eq_None_iff)
    then show ?case using Cons.IH p by (auto split: option.splits)
  qed simp
  then show "gm_wf m \<Longrightarrow> gm_get (copyMap m) k = gm_get m k" by (auto simp: copyMap_def split: option.splits)
qed

lemma copyMap_wf: "gm_wf (copyMap m)"
proof -
  have "gm_wf a \<Longrightarrow> gm_wf (fold (\<lambda>(k, v). gm_set k v) m a)" for a
    by (induction m arbitrary: a) auto
  then show ?thesis by (simp add: copyMap_def)
qed

lemma block_ops_wf:
  "policy_wf p \<Longrightarrow> policy_wf (BlockIP ip p)" "policy_wf p \<Longrightarrow> policy_wf (UnblockIP ip p)"
  "policy_wf p \<Longrightarrow> policy_wf (BlockNode n p)" "policy_wf p \<Longrightarrow> policy_wf (UnblockNode n p)"
  by (simp_all add: policy_wf_def BlockIP_def UnblockIP_def BlockNode_def UnblockNode_def copyMap_wf)

lemma block_ops_spec:
  assumes "policy_wf p"
  shows "IsBlocked (BlockIP ip p) x \<longleftrightarrow> x = ip \<or> IsBlocked p x" "IsBlocked (UnblockIP ip p) x \<longleftrightarrow> x \<noteq> ip \<and> IsBlocked p x"
    "IsNodeBlocked (BlockNode n p) x \<longleftrightarrow> x = n \<or> IsNodeBlocked p x" "IsNodeBlocked (UnblockNode n p) x \<longleftrightarrow> x \<noteq> n \<and> IsNodeBlocked p x"
  using assms by (auto simp: policy_wf_def IsBlocked_def IsNodeBlocked_def bool_at_def BlockIP_def UnblockIP_def BlockNode_def UnblockNode_def copyMap_get)

lemma bool_at_fold: "bool_at (fold (\<lambda>ip. gm_set ip True) ips m) x \<longleftrightarrow> x \<in> set ips \<or> bool_at m x"
  by (induction ips arbitrary: m) (auto simp: bool_at_def)

definition blocks_ip :: "string \<Rightarrow> admin_policy \<Rightarrow> bool" where
  "blocks_ip ip pol \<longleftrightarrow> ap_IsPublished pol \<and> ap_Type pol = ''block'' \<and>
    (case block_content_of (ap_Content pol) of None \<Rightarrow> False | Some c \<Rightarrow> ip \<in> set (bc_BlockedIPs c))"

definition blocks_node :: "string \<Rightarrow> admin_policy \<Rightarrow> bool" where
  "blocks_node n pol \<longleftrightarrow> ap_IsPublished pol \<and> ap_Type pol = ''block'' \<and>
    (case block_content_of (ap_Content pol) of None \<Rightarrow> False | Some c \<Rightarrow> n \<in> set (bc_BlockedNodes c))"

lemma add_policy_spec:
  "IsBlocked (add_policy pol d) ip \<longleftrightarrow> blocks_ip ip pol \<or> IsBlocked d ip"
  "IsNodeBlocked (add_policy pol d) n \<longleftrightarrow> blocks_node n pol \<or> IsNodeBlocked d n"
  by (auto simp: add_policy_def blocks_ip_def blocks_node_def IsBlocked_def IsNodeBlocked_def bool_at_fold split: option.splits)

lemma add_policies_spec:
  "IsBlocked (fold add_policy pols d) ip \<longleftrightarrow> list_ex (blocks_ip ip) pols \<or> IsBlocked d ip"
  "IsNodeBlocked (fold add_policy pols d) n \<longleftrightarrow> list_ex (blocks_node n) pols \<or> IsNodeBlocked d n"
  by (induction pols arbitrary: d) (auto simp: add_policy_spec)

lemma set_tbl_list: "set (tbl_list P created t) = {r \<in> snd ` set t. P r}"
  by (auto simp: tbl_list_def)

lemma SyncFromDB_spec:
  "IsBlocked (SyncFromDB db s p) ip \<longleftrightarrow> (if db then list_ex (\<lambda>(_, pol). blocks_ip ip pol) (tb_policies (reads s)) else IsBlocked p ip)"
  "IsNodeBlocked (SyncFromDB db s p) n \<longleftrightarrow> (if db then list_ex (\<lambda>(_, pol). blocks_node n pol) (tb_policies (reads s)) else IsNodeBlocked p n)"
proof -
  have e: "\<not> IsBlocked NewPolicy ip" "\<not> IsNodeBlocked NewPolicy n" by (simp_all add: IsBlocked_def IsNodeBlocked_def NewPolicy_def bool_at_def)
  show "IsBlocked (SyncFromDB db s p) ip \<longleftrightarrow> (if db then list_ex (\<lambda>(_, pol). blocks_ip ip pol) (tb_policies (reads s)) else IsBlocked p ip)"
    "IsNodeBlocked (SyncFromDB db s p) n \<longleftrightarrow> (if db then list_ex (\<lambda>(_, pol). blocks_node n pol) (tb_policies (reads s)) else IsNodeBlocked p n)"
    using e by (auto simp: SyncFromDB_def ListAdminPolicies_def add_policies_spec list_ex_iff set_tbl_list matches_def case_prod_beta)
qed

end
