(* ===== verification/Heartbeat.thy ===== *)
theory Heartbeat
  imports Node_Store Redis_Store Content_Index
begin

text \<open>
  \<open>internal/controlplane/heartbeat.go\<close> and \<open>registry.go\<close>: the processing of heartbeats, the batching
  loop in front of it, the health check and the registration of nodes.
\<close>

section \<open>Processing one heartbeat\<close>

record control_state =
  cs_redis :: redis_store
  cs_pg :: pg_store
  cs_content :: "content_store option"
  cs_events :: "(string \<times> string \<times> string) list"

text \<open>The outcomes of the statements of one call, and the clock.\<close>

record hb_env =
  he_hset :: bool
  he_expire :: bool
  he_lastSeen :: bool
  he_getNode :: bool
  he_status :: bool
  he_content :: "nat \<Rightarrow> bool"
  he_now :: int

datatype hb_error = HbSave | HbLastSeen pg_error | HbGetNode pg_error | HbActivate pg_error | HbRevoked

definition emit :: "string \<Rightarrow> string \<Rightarrow> string \<Rightarrow> control_state \<Rightarrow> control_state" where
  "emit ev nodeID msg st = st\<lparr>cs_events := cs_events st @ [(ev, nodeID, msg)]\<rparr>"

text \<open>The content summary is stored under the identity of the sender; a failure is only logged.\<close>

definition handle_summary :: "hb_env \<Rightarrow> heartbeat_request \<Rightarrow> control_state \<Rightarrow> control_state" where
  "handle_summary env req st =
    (case (cs_content st, hb_content_summary req) of
       (Some cst, Some sm) \<Rightarrow>
         st\<lparr>cs_content := Some (snd (UpsertSummary (he_content env) (he_now env div 1000000000) cst (sm\<lparr>cs_node_id := hb_node_id req\<rparr>)))\<rparr>
     | _ \<Rightarrow> st)"

definition processOne :: "int \<Rightarrow> hb_env \<Rightarrow> heartbeat_request \<Rightarrow> control_state \<Rightarrow> control_state \<times> hb_error option" where
  "processOne ttl env req st =
    (case SaveHeartbeat (he_hset env) (he_expire env) (he_now env) req ttl (cs_redis st) of (r, ok) \<Rightarrow>
      (let st = st\<lparr>cs_redis := r\<rparr> in
       if \<not> ok then (st, Some HbSave)
       else
         (case UpdateNodeLastSeen (he_lastSeen env) (he_now env) (hb_node_id req) (cs_pg st) of
            (p, Some e) \<Rightarrow> (st\<lparr>cs_pg := p\<rparr>, Some (HbLastSeen e))
          | (p, None) \<Rightarrow>
             (case GetNode (he_getNode env) (he_now env) (hb_node_id req) p of
                (p, Inl e) \<Rightarrow> (st\<lparr>cs_pg := p\<rparr>, Some (HbGetNode e))
              | (p, Inr n) \<Rightarrow>
                 if n_status n = Disabled \<or> n_status n = Maintenance then (st\<lparr>cs_pg := p\<rparr>, None)
                 else if n_status n = Registered then
                   (case UpdateNodeStatus (he_status env) (he_now env) (hb_node_id req) Active p of
                      (p, Some e) \<Rightarrow> (st\<lparr>cs_pg := p\<rparr>, Some (HbActivate e))
                    | (p, None) \<Rightarrow>
                        (handle_summary env req (emit ''node.online'' (hb_node_id req) ''node activated'' (st\<lparr>cs_pg := p\<rparr>)), None))
                 else (handle_summary env req (st\<lparr>cs_pg := p\<rparr>), None)))))"

text \<open>Revoked nodes are refused before their heartbeat is queued.\<close>

definition ProcessHeartbeat :: "bool \<Rightarrow> int \<Rightarrow> hb_env \<Rightarrow> heartbeat_request \<Rightarrow> control_state \<Rightarrow> control_state \<times> hb_error option" where
  "ProcessHeartbeat redis_ok ttl env req st =
    (if IsNodeRevoked redis_ok (he_now env) (hb_node_id req) (cs_redis st) then (st, Some HbRevoked)
     else processOne ttl env req st)"

definition CheckNodeHealth :: "bool \<Rightarrow> bool \<Rightarrow> hb_env \<Rightarrow> string \<Rightarrow> control_state \<Rightarrow> control_state \<times> hb_error option" where
  "CheckNodeHealth script_ok exists_ok env nodeID st =
    (case HasHeartbeat script_ok exists_ok (he_now env) nodeID (cs_redis st) of (r, present) \<Rightarrow>
      (let st = st\<lparr>cs_redis := r\<rparr> in
       if present then (st, None)
       else
         (case GetNode (he_getNode env) (he_now env) nodeID (cs_pg st) of
            (p, Inl e) \<Rightarrow> (st\<lparr>cs_pg := p\<rparr>, Some (HbGetNode e))
          | (p, Inr n) \<Rightarrow>
             if n_status n = Active then
               (case UpdateNodeStatus (he_status env) (he_now env) nodeID Degraded p of
                  (p, Some e) \<Rightarrow> (st\<lparr>cs_pg := p\<rparr>, Some (HbActivate e))
                | (p, None) \<Rightarrow> (emit ''node.degraded'' nodeID ''heartbeat lost, node degraded'' (st\<lparr>cs_pg := p\<rparr>), None))
             else if n_status n = Degraded then
               (case UpdateNodeStatus (he_status env) (he_now env) nodeID Offline p of
                  (p, Some e) \<Rightarrow> (st\<lparr>cs_pg := p\<rparr>, Some (HbActivate e))
                | (p, None) \<Rightarrow> (emit ''node.offline'' nodeID ''heartbeat lost, node offline'' (st\<lparr>cs_pg := p\<rparr>), None))
             else (st\<lparr>cs_pg := p\<rparr>, None))))"

section \<open>Registration\<close>

record register_response =
  rg_node_id :: string
  rg_token :: string
  rg_exp :: int

definition Register :: "bool \<Rightarrow> int \<Rightarrow> string \<Rightarrow> string \<Rightarrow> register_request \<Rightarrow> pg_store \<Rightarrow> pg_store \<times> (pg_error + register_response)" where
  "Register db now uuid tok req p =
    (case CreateNode db now uuid req tok p of
       (p', Inl e) \<Rightarrow> (p', Inl e)
     | (p', Inr n) \<Rightarrow> (p', Inr \<lparr>rg_node_id = n_node_id n, rg_token = tok, rg_exp = now div 1000000000 + 31536000\<rparr>))"

definition registry_CountByStatus :: "bool \<Rightarrow> string \<Rightarrow> pg_store \<Rightarrow> int" where
  "registry_CountByStatus db st p = (case CountByStatus db st p of Inl _ \<Rightarrow> 0 | Inr n \<Rightarrow> n)"

section \<open>The life cycle of a node\<close>

definition status_of :: "pg_store \<Rightarrow> string \<Rightarrow> node_status option" where
  "status_of p i = map_option (n_status \<circ> fst) (gm_get (pg_nodes p) i)"

lemma status_of_update_row: "status_of (update_row f i p) j = (if j = i then map_option (n_status \<circ> f \<circ> fst) (gm_get (pg_nodes p) i) else status_of p j)"
  by (auto simp: status_of_def update_row_def split: option.splits)

lemma status_of_invalidate [simp]: "status_of (InvalidateNodeCache i p) j = status_of p j"
  by (simp add: status_of_def InvalidateNodeCache_def)

lemma status_of_GetNode [simp]: "status_of (fst (GetNode db now i p)) j = status_of p j"
  by (simp add: status_of_def)

lemma status_of_update_node:
  "status_of (fst (update_node db f i p)) j =
    (if db \<and> j = i then map_option (n_status \<circ> f \<circ> fst) (gm_get (pg_nodes p) i) else status_of p j)"
  by (simp add: update_node_def status_of_update_row)

lemma status_of_lastSeen [simp]: "status_of (fst (UpdateNodeLastSeen db now i p)) j = status_of p j"
  by (simp add: UpdateNodeLastSeen_def status_of_update_node) (simp add: status_of_def comp_def)

lemma status_of_UpdateNodeStatus:
  "status_of (fst (UpdateNodeStatus db now i st p)) j = (if db \<and> j = i \<and> status_of p i \<noteq> None then Some st else status_of p j)"
  by (cases "gm_get (pg_nodes p) i") (auto simp: UpdateNodeStatus_def status_of_update_node, auto simp: status_of_def)

lemma handle_summary_pg [simp]: "cs_pg (handle_summary env req st) = cs_pg st"
  by (auto simp: handle_summary_def split: option.splits)

lemma emit_pg [simp]: "cs_pg (emit a b c st) = cs_pg st"
  by (simp add: emit_def)

lemma GetNode_Inr_status:
  assumes "pg_inv p" "GetNode db now i p = (p', Inr n)"
  shows "status_of p i = Some (n_status n)"
proof (cases "gm_get (pg_nodeCache p) i")
  case None
  then show ?thesis
    using assms by (auto simp: GetNode_def pg_inv_read status_of_def split: if_splits option.splits)
next
  case (Some e)
  obtain m t where e: "e = (m, t)" by (cases e)
  then obtain tok where m: "gm_get (pg_nodes p) i = Some (m, tok)"
    using pg_inv_cached [OF assms(1)] Some by blast
  have "read_nodes (InvalidateNodeCache i p) = pg_nodes p"
    using assms(1) by (simp add: read_nodes_def InvalidateNodeCache_def pg_inv_def)
  then have "n = m"
    using assms(2) Some e m by (auto simp: GetNode_def Let_def split: if_splits)
  then show ?thesis using m by (simp add: status_of_def)
qed

lemma processOne_pg:
  assumes "pg_inv (cs_pg st)"
  shows "pg_inv (cs_pg (fst (processOne ttl env req st))) \<and>
    (\<forall>j. status_of (cs_pg (fst (processOne ttl env req st))) j = status_of (cs_pg st) j \<or>
      (j = hb_node_id req \<and> status_of (cs_pg st) j = Some Registered \<and>
       status_of (cs_pg (fst (processOne ttl env req st))) j = Some Active))"
proof -
  obtain r ok where s: "SaveHeartbeat (he_hset env) (he_expire env) (he_now env) req ttl (cs_redis st) = (r, ok)" by fastforce
  obtain p e where l: "UpdateNodeLastSeen (he_lastSeen env) (he_now env) (hb_node_id req) (cs_pg st) = (p, e)" by fastforce
  have p: "pg_inv p" "\<And>j. status_of p j = status_of (cs_pg st) j"
    using pg_inv_updates(3) [OF assms, of "he_lastSeen env" "he_now env" "hb_node_id req"]
      status_of_lastSeen [of "he_lastSeen env" "he_now env" "hb_node_id req" "cs_pg st"] l by auto
  obtain q g where gn: "GetNode (he_getNode env) (he_now env) (hb_node_id req) p = (q, g)" by fastforce
  have q: "pg_inv q" "\<And>j. status_of q j = status_of (cs_pg st) j"
    using pg_inv_getNode [OF p(1), of "he_getNode env" "he_now env" "hb_node_id req"]
      status_of_GetNode [of "he_getNode env" "he_now env" "hb_node_id req" p] gn p(2) by auto
  obtain u e2 where us: "UpdateNodeStatus (he_status env) (he_now env) (hb_node_id req) Active q = (u, e2)" by fastforce
  have u: "pg_inv u" using pg_inv_updates(1) [OF q(1), of "he_status env" "he_now env" "hb_node_id req" Active] us by simp
  have us': "status_of u j = (if he_status env \<and> j = hb_node_id req \<and> status_of (cs_pg st) (hb_node_id req) \<noteq> None then Some Active else status_of (cs_pg st) j)" for j
    using status_of_UpdateNodeStatus [of "he_status env" "he_now env" "hb_node_id req" Active q j] us q(2) by simp
  have st: "status_of (cs_pg st) (hb_node_id req) = Some (n_status n)" if "g = Inr n" for n
    using GetNode_Inr_status [OF p(1), of _ _ _ q n] gn that p(2) by auto
  show ?thesis
    using assms s l gn us p q u us' st by (auto simp: processOne_def Let_def split: option.splits sum.splits)
qed

text \<open>In any state of the store without a read replica, a heartbeat changes the status of no node
  but its sender, and of its sender only from registered to active: disabled, maintenance, degraded
  and offline nodes keep their status, and the store stays coherent.\<close>

theorem heartbeat_only_activates:
  assumes "pg_inv (cs_pg st)"
  shows "pg_inv (cs_pg (fst (ProcessHeartbeat redis_ok ttl env req st))) \<and>
    (status_of (cs_pg (fst (ProcessHeartbeat redis_ok ttl env req st))) j = status_of (cs_pg st) j \<or>
      (j = hb_node_id req \<and> status_of (cs_pg st) j = Some Registered \<and>
       status_of (cs_pg (fst (ProcessHeartbeat redis_ok ttl env req st))) j = Some Active))"
  using processOne_pg [OF assms, of ttl env req] assms by (simp add: ProcessHeartbeat_def)

definition control_empty :: control_state where
  "control_empty = \<lparr>cs_redis = redis_empty, cs_pg = pg_empty, cs_content = None, cs_events = []\<rparr>"

definition fine_hb_env :: "int \<Rightarrow> hb_env" where
  "fine_hb_env now = \<lparr>he_hset = True, he_expire = True, he_lastSeen = True, he_getNode = True, he_status = True,
     he_content = (\<lambda>_. True), he_now = now\<rparr>"

theorem heartbeat_only_activates_witness:
  "let st = control_empty; st' = fst (ProcessHeartbeat True 30 (fine_hb_env 5) sample_heartbeat st) in
    pg_inv (cs_pg st) \<and> pg_inv (cs_pg st') \<and> status_of (cs_pg st') ''n1'' = None"
proof -
  have i: "pg_inv (cs_pg control_empty)" by (simp add: control_empty_def pg_inv_empty)
  have "status_of (cs_pg control_empty) ''n1'' = None" by (simp add: control_empty_def pg_empty_def status_of_def)
  then show ?thesis
    using i heartbeat_only_activates [OF i, of True 30 "fine_hb_env 5" sample_heartbeat "''n1''"] by (auto simp: Let_def)
qed

text \<open>A node whose row was deleted stays deleted: its heartbeat is answered with an error and creates
  no row.\<close>

theorem heartbeat_of_deleted_node:
  assumes "pg_inv (cs_pg st)" "status_of (cs_pg st) (hb_node_id req) = None"
  shows "snd (ProcessHeartbeat redis_ok ttl env req st) \<noteq> None \<and>
    status_of (cs_pg (fst (ProcessHeartbeat redis_ok ttl env req st))) (hb_node_id req) = None"
proof -
  obtain p e where l: "UpdateNodeLastSeen (he_lastSeen env) (he_now env) (hb_node_id req) (cs_pg st) = (p, e)" by fastforce
  have p: "pg_inv p" "status_of p (hb_node_id req) = None"
    using pg_inv_updates(3) [OF assms(1), of "he_lastSeen env" "he_now env" "hb_node_id req"] assms(2)
      status_of_lastSeen [of "he_lastSeen env" "he_now env" "hb_node_id req" "cs_pg st" "hb_node_id req"] l by auto
  have "\<nexists>q n. GetNode (he_getNode env) (he_now env) (hb_node_id req) p = (q, Inr n)"
    using GetNode_Inr_status [OF p(1)] p(2) by (metis option.distinct(1))
  then have "snd (processOne ttl env req st) \<noteq> None"
    using l by (auto simp: processOne_def Let_def split: option.splits sum.splits prod.splits)
  moreover have "status_of (cs_pg (fst (processOne ttl env req st))) (hb_node_id req) = None"
    using processOne_pg [OF assms(1), of ttl env req] assms(2) by (metis option.distinct(1))
  ultimately show ?thesis using assms(2) by (simp add: ProcessHeartbeat_def)
qed

theorem heartbeat_of_deleted_node_witness:
  "snd (ProcessHeartbeat True 30 (fine_hb_env 5) sample_heartbeat control_empty) \<noteq> None"
  using heartbeat_of_deleted_node [of control_empty sample_heartbeat True 30 "fine_hb_env 5"]
  by (simp add: control_empty_def pg_inv_empty) (simp add: pg_empty_def status_of_def)

section \<open>The batching loop\<close>

text \<open>The loop of \<open>Start\<close>: a channel of capacity 256, the batch being filled and the answers given.  The
  state of the control plane is threaded through the requests as they are processed; \<open>envs k\<close> are the
  outcomes of the statements of the \<open>k\<close>th processed request.\<close>

record hb_loop =
  hl_chan :: "heartbeat_request list"
  hl_batch :: "heartbeat_request list"
  hl_answers :: "(heartbeat_request \<times> hb_error option) list"
  hl_state :: control_state
  hl_running :: bool

fun processBatch :: "int \<Rightarrow> (nat \<Rightarrow> hb_env) \<Rightarrow> heartbeat_request list \<Rightarrow> hb_loop \<Rightarrow> hb_loop" where
  "processBatch ttl envs [] l = l"
| "processBatch ttl envs (req # reqs) l =
    (case processOne ttl (envs (length (hl_answers l))) req (hl_state l) of (st, err) \<Rightarrow>
       processBatch ttl envs reqs (l\<lparr>hl_answers := hl_answers l @ [(req, err)], hl_state := st\<rparr>))"

definition flush :: "int \<Rightarrow> (nat \<Rightarrow> hb_env) \<Rightarrow> hb_loop \<Rightarrow> hb_loop" where
  "flush ttl envs l = (processBatch ttl envs (hl_batch l) l)\<lparr>hl_batch := []\<rparr>"

definition receive :: "int \<Rightarrow> (nat \<Rightarrow> hb_env) \<Rightarrow> hb_loop \<Rightarrow> hb_loop" where
  "receive ttl envs l =
    (case hl_chan l of [] \<Rightarrow> l
     | req # rest \<Rightarrow>
        (let l' = l\<lparr>hl_chan := rest, hl_batch := hl_batch l @ [req]\<rparr> in
         if length (hl_batch l') \<ge> 32 then flush ttl envs l' else l'))"

inductive hb_loop_step :: "int \<Rightarrow> (nat \<Rightarrow> hb_env) \<Rightarrow> heartbeat_request list \<times> hb_loop \<Rightarrow> heartbeat_request list \<times> hb_loop \<Rightarrow> bool"
  for ttl envs where
  enqueue: "length (hl_chan l) < 256 \<Longrightarrow> hb_loop_step ttl envs (sent, l) (sent @ [req], l\<lparr>hl_chan := hl_chan l @ [req]\<rparr>)"
| recv: "hl_running l \<Longrightarrow> hb_loop_step ttl envs (sent, l) (sent, receive ttl envs l)"
| timer: "hl_running l \<Longrightarrow> hb_loop_step ttl envs (sent, l) (sent, flush ttl envs l)"
| cancelled: "hl_running l \<Longrightarrow> hb_loop_step ttl envs (sent, l) (sent, (flush ttl envs l)\<lparr>hl_running := False\<rparr>)"

text \<open>Processing requests one at a time, in order.\<close>

fun process_all :: "int \<Rightarrow> (nat \<Rightarrow> hb_env) \<Rightarrow> nat \<Rightarrow> heartbeat_request list \<Rightarrow> control_state \<Rightarrow> (heartbeat_request \<times> hb_error option) list \<times> control_state" where
  "process_all ttl envs k [] st = ([], st)"
| "process_all ttl envs k (req # reqs) st =
    (case processOne ttl (envs k) req st of (st', err) \<Rightarrow>
       (case process_all ttl envs (Suc k) reqs st' of (as, st'') \<Rightarrow> ((req, err) # as, st'')))"

definition NewLoop :: "control_state \<Rightarrow> hb_loop" where
  "NewLoop st = \<lparr>hl_chan = [], hl_batch = [], hl_answers = [], hl_state = st, hl_running = True\<rparr>"

lemma process_all_append:
  "process_all ttl envs k (xs @ ys) st =
    (case process_all ttl envs k xs st of (as, st') \<Rightarrow>
      (case process_all ttl envs (k + length xs) ys st' of (bs, st'') \<Rightarrow> (as @ bs, st'')))"
  by (induction xs arbitrary: k st) (auto split: prod.splits)

lemma process_all_fst: "map fst (fst (process_all ttl envs k xs st)) = xs"
proof (induction xs arbitrary: k st)
  case (Cons x xs)
  show ?case using Cons.IH by (simp add: case_prod_beta)
qed simp

lemma processBatch_all:
  "processBatch ttl envs reqs l =
    (case process_all ttl envs (length (hl_answers l)) reqs (hl_state l) of (as, st) \<Rightarrow>
       l\<lparr>hl_answers := hl_answers l @ as, hl_state := st\<rparr>)"
  by (induction reqs arbitrary: l) (auto split: prod.splits)

definition loop_inv :: "int \<Rightarrow> (nat \<Rightarrow> hb_env) \<Rightarrow> control_state \<Rightarrow> heartbeat_request list \<times> hb_loop \<Rightarrow> bool" where
  "loop_inv ttl envs st0 s \<longleftrightarrow>
    fst s = map fst (hl_answers (snd s)) @ hl_batch (snd s) @ hl_chan (snd s) \<and>
    length (hl_batch (snd s)) < 32 \<and> length (hl_chan (snd s)) \<le> 256 \<and>
    (hl_answers (snd s), hl_state (snd s)) = process_all ttl envs 0 (map fst (hl_answers (snd s))) st0"

lemma flush_inv:
  assumes "fst s = map fst (hl_answers (snd s)) @ hl_batch (snd s) @ hl_chan (snd s)" "length (hl_chan (snd s)) \<le> 256"
    "(hl_answers (snd s), hl_state (snd s)) = process_all ttl envs 0 (map fst (hl_answers (snd s))) st0"
  shows "loop_inv ttl envs st0 (fst s, flush ttl envs (snd s))"
proof -
  let ?l = "snd s"
  obtain as st where pa: "process_all ttl envs (length (hl_answers ?l)) (hl_batch ?l) (hl_state ?l) = (as, st)" by fastforce
  then have "map fst as = hl_batch ?l" using process_all_fst by (metis fst_conv)
  moreover have "process_all ttl envs 0 (map fst (hl_answers ?l) @ hl_batch ?l) st0 = (hl_answers ?l @ as, st)"
    using pa assms(3) [symmetric] by (simp add: process_all_append)
  ultimately show ?thesis
    using assms pa by (simp add: loop_inv_def flush_def processBatch_all)
qed

lemma hb_loop_step_inv: "hb_loop_step ttl envs s s' \<Longrightarrow> loop_inv ttl envs st0 s \<Longrightarrow> loop_inv ttl envs st0 s'"
proof (induction rule: hb_loop_step.induct)
  case (recv l sent)
  show ?case
  proof (cases "hl_chan l")
    case (Cons req rest)
    let ?l = "l\<lparr>hl_chan := rest, hl_batch := hl_batch l @ [req]\<rparr>"
    show ?thesis
      using recv Cons flush_inv [of "(sent, ?l)" ttl envs st0] by (auto simp: loop_inv_def receive_def Let_def)
  qed (use recv in \<open>simp add: receive_def\<close>)
next
  case (timer l sent)
  then show ?case using flush_inv [of "(sent, l)"] by (simp add: loop_inv_def)
next
  case (cancelled l sent)
  then have "loop_inv ttl envs st0 (sent, flush ttl envs l)" using flush_inv [of "(sent, l)"] by (simp add: loop_inv_def)
  then show ?case by (simp add: loop_inv_def)
qed (simp add: loop_inv_def)

lemma hb_loop_run_inv: "(hb_loop_step ttl envs)\<^sup>*\<^sup>* s s' \<Longrightarrow> loop_inv ttl envs st0 s \<Longrightarrow> loop_inv ttl envs st0 s'"
  by (induction rule: rtranclp_induct) (auto dest: hb_loop_step_inv)

text \<open>C10: batching is transparent.  After any run of the loop the requests sent so far are, in the order
  of sending, those answered, those in the batch and those in the channel: none is lost, duplicated or
  overtaken; the answers and the state are those of processing the answered requests one by one; and a
  batch never reaches 32 requests unprocessed.\<close>

theorem heartbeat_batching_transparent:
  assumes "(hb_loop_step ttl envs)\<^sup>*\<^sup>* ([], NewLoop st0) (sent, l)"
  shows "sent = map fst (hl_answers l) @ hl_batch l @ hl_chan l \<and> length (hl_batch l) < 32 \<and>
    (hl_answers l, hl_state l) = process_all ttl envs 0 (map fst (hl_answers l)) st0"
proof -
  have "loop_inv ttl envs st0 (sent, l)"
    by (rule hb_loop_run_inv [OF assms]) (simp add: loop_inv_def NewLoop_def)
  then show ?thesis by (simp add: loop_inv_def)
qed

theorem heartbeat_batching_transparent_witness:
  "\<exists>l. (hb_loop_step 30 (\<lambda>_. fine_hb_env 5))\<^sup>*\<^sup>* ([], NewLoop control_empty) ([sample_heartbeat], l) \<and>
    map fst (hl_answers l) @ hl_batch l @ hl_chan l = [sample_heartbeat] \<and> length (hl_batch l) < 32"
proof -
  let ?l1 = "(NewLoop control_empty)\<lparr>hl_chan := [sample_heartbeat]\<rparr>"
  have "hb_loop_step 30 (\<lambda>_. fine_hb_env 5) ([], NewLoop control_empty) ([sample_heartbeat], ?l1)"
    using hb_loop_step.enqueue [of "NewLoop control_empty" 30 "\<lambda>_. fine_hb_env 5" "[]" sample_heartbeat] by (simp add: NewLoop_def)
  moreover have "hb_loop_step 30 (\<lambda>_. fine_hb_env 5) ([sample_heartbeat], ?l1) ([sample_heartbeat], receive 30 (\<lambda>_. fine_hb_env 5) ?l1)"
    by (rule hb_loop_step.recv) (simp add: NewLoop_def)
  ultimately have r: "(hb_loop_step 30 (\<lambda>_. fine_hb_env 5))\<^sup>*\<^sup>* ([], NewLoop control_empty) ([sample_heartbeat], receive 30 (\<lambda>_. fine_hb_env 5) ?l1)"
    by (rule two_steps)
  then show ?thesis using heartbeat_batching_transparent [OF r] by metis
qed

end
