(* ===== verification/Control_API.thy ===== *)
theory Control_API
  imports Request_Json Rate_Limit Policy Scheduler Heartbeat
begin

text \<open>
  \<open>internal/controlplane/api.go\<close>: the public HTTP interface of the control plane.  A handler takes the
  request and the state and yields the new state and the reply.  The router (chi) is a parameter: it
  chooses the route and hands over the path parameters.  Counters for monitoring are left out.
\<close>

section \<open>State\<close>

record api_key_auth =
  ak_validKeys :: "(string, bool) gomap"
  ak_enabled :: bool

record api =
  api_ctl :: control_state
  api_cache :: node_cache
  api_scheduler :: scheduler
  api_seq :: nat
  api_policy :: policy
  api_ipCache :: "(string, string) gomap"
  api_limiter :: rate_limiter
  api_auth :: api_key_auth

datatype api_body =
    NodeRegistered register_response | Status string | NodeBody node | Dispatched dispatch_response
  | Health string string string string | Gauges "(string \<times> int) list"

text \<open>The outcomes of one request: of the statements of the database and of Redis, of the generators of
  identifiers, and the clock readings in their order.\<close>

record api_env =
  ae_broken :: bool
  ae_db :: "nat \<Rightarrow> bool"
  ae_redis :: bool
  ae_hb :: hb_env
  ae_hb_ttl :: int
  ae_clock :: "nat \<Rightarrow> int"
  ae_uuid :: string
  ae_token :: string

definition newAPIKeyAuth :: "string \<Rightarrow> api_key_auth" where
  "newAPIKeyAuth secret =
    (if secret \<noteq> [] then \<lparr>ak_validKeys = gm_set secret True [], ak_enabled = True\<rparr> else \<lparr>ak_validKeys = [], ak_enabled = False\<rparr>)"

section \<open>Middleware\<close>

text \<open>A middleware answers itself or passes the request on (\<open>None\<close>).\<close>

definition apiKey_middleware :: "api_key_auth \<Rightarrow> http_request \<Rightarrow> 'b reply option" where
  "apiKey_middleware a r =
    (if \<not> ak_enabled a then None
     else let auth = header r ''Authorization'' in
       if auth = [] \<or> \<not> prefix ''Bearer '' auth then Some (Error 401 ''UNAUTHORIZED'' ''missing or invalid authorization'')
       else if \<not> bool_at (ak_validKeys a) (trim_prefix ''Bearer '' auth) then Some (Error 403 ''FORBIDDEN'' ''invalid api key'')
       else None)"

definition withRateLimit :: "int \<Rightarrow> rate_limiter \<Rightarrow> rate_limiter \<times> 'b reply option" where
  "withRateLimit now rl =
    (case Allow now rl of (rl', ok) \<Rightarrow> (rl', if ok then None else Some (Error 429 ''RATE_LIMITED'' ''too many requests'')))"

section \<open>The address of the client\<close>

definition clientIP :: "http_request \<Rightarrow> string" where
  "clientIP r =
    (let xff = header r ''X-Forwarded-For''; xri = header r ''X-Real-IP''; host = rq_remote r in
     if xff \<noteq> [] then
       (let idx = last_index xff (CHR '','') in if idx > 0 then trim_space (drop (nat idx + 1) xff) else trim_space xff)
     else if xri \<noteq> [] then trim_space xri
     else if host \<noteq> [] then
       (if hd host = CHR ''['' then
          (let idx = index_byte host (CHR '']'') in if idx > 0 then drop 1 (take (nat idx) host) else drop 1 host)
        else let idx = last_index host (CHR '':'') in if idx > 0 then take (nat idx) host else host)
     else [])"

definition ip_source :: "http_request \<Rightarrow> string" where
  "ip_source r =
    (if header r ''X-Forwarded-For'' \<noteq> [] then header r ''X-Forwarded-For''
     else if header r ''X-Real-IP'' \<noteq> [] then header r ''X-Real-IP'' else rq_remote r)"

definition cachedClientIP :: "http_request \<Rightarrow> (string, string) gomap \<Rightarrow> (string, string) gomap \<times> string" where
  "cachedClientIP r m =
    (let raw = ip_source r in
     if raw = [] then (m, [])
     else case gm_get m raw of Some ip \<Rightarrow> (m, ip) | None \<Rightarrow> (let ip = clientIP r in (gm_set raw ip m, ip)))"

section \<open>Nodes\<close>

definition set_pg :: "pg_store \<Rightarrow> api \<Rightarrow> api" where
  "set_pg p a = a\<lparr>api_ctl := (api_ctl a)\<lparr>cs_pg := p\<rparr>\<rparr>"

definition handleRegister :: "api_env \<Rightarrow> http_request \<Rightarrow> api \<Rightarrow> api \<times> api_body reply" where
  "handleRegister env r a =
    (case decodeJSON (ae_broken env) (register_field True) zero_register r of
       DecodeError s c m \<Rightarrow> (a, Error s c m)
     | Decoded req \<Rightarrow>
        (let req = req\<lparr>rr_node_name := trim_space (rr_node_name req), rr_region := trim_space (rr_region req), rr_isp := trim_space (rr_isp req)\<rparr> in
         if rr_node_name req = [] then (a, Error 400 ''BAD_REQUEST'' ''node_name is required'')
         else case Register (ae_db env 0) (ae_clock env 0) (ae_uuid env) (ae_token env) req (cs_pg (api_ctl a)) of
             (p, Inl _) \<Rightarrow> (set_pg p a, Error 500 ''REGISTER_FAILED'' ''internal server error'')
           | (p, Inr resp) \<Rightarrow> (set_pg p a, Reply 201 (NodeRegistered resp))))"

definition handleHeartbeat :: "api_env \<Rightarrow> http_request \<Rightarrow> api \<Rightarrow> api \<times> api_body reply" where
  "handleHeartbeat env r a =
    (case decodeJSON (ae_broken env) (heartbeat_field True) zero_heartbeat r of
       DecodeError s c m \<Rightarrow> (a, Error s c m)
     | Decoded req \<Rightarrow>
        (let req = req\<lparr>hb_node_id := trim_space (hb_node_id req)\<rparr> in
         if hb_node_id req = [] then (a, Error 400 ''BAD_REQUEST'' ''node_id is required'')
         else case GetNode (ae_db env 0) (ae_clock env 0) (hb_node_id req) (cs_pg (api_ctl a)) of
             (p, Inl _) \<Rightarrow> (set_pg p a, Error 404 ''NOT_FOUND'' ''node not found'')
           | (p, Inr _) \<Rightarrow>
              (case ProcessHeartbeat (ae_redis env) (ae_hb_ttl env) (ae_hb env) req (api_ctl (set_pg p a)) of
                 (c, Some _) \<Rightarrow> (a\<lparr>api_ctl := c\<rparr>, Error 500 ''HEARTBEAT_FAILED'' ''internal server error'')
               | (c, None) \<Rightarrow> (a\<lparr>api_ctl := c\<rparr>, Reply 200 (Status ''ok'')))))"

definition handleGetNode :: "api_env \<Rightarrow> string \<Rightarrow> api \<Rightarrow> api \<times> api_body reply" where
  "handleGetNode env nodeID a =
    (case GetNode (ae_db env 0) (ae_clock env 0) nodeID (cs_pg (api_ctl a)) of
       (p, Inl _) \<Rightarrow> (set_pg p a, Error 404 ''NOT_FOUND'' ''node not found'')
     | (p, Inr n) \<Rightarrow> (set_pg p a, Reply 200 (NodeBody n)))"

definition handleRevokeNode :: "api_env \<Rightarrow> string \<Rightarrow> api \<Rightarrow> api \<times> api_body reply" where
  "handleRevokeNode env nodeID a =
    (case RevokeNode (ae_db env 0) nodeID (cs_pg (api_ctl a)) of
       (p, Some PgNoRows) \<Rightarrow> (set_pg p a, Error 404 ''NOT_FOUND'' ''node not found'')
     | (p, Some PgFail) \<Rightarrow> (set_pg p a, Error 500 ''REVOKE_FAILED'' ''internal server error'')
     | (p, None) \<Rightarrow> (set_pg p a, Reply 200 (Status ''revoked'')))"

section \<open>Dispatch\<close>

text \<open>The clock readings of \<open>Resolve\<close> and its effects: on the node cache, and on the counter of request
  identifiers when it answers.\<close>

definition resolve :: "api_env \<Rightarrow> dispatch_request \<Rightarrow> api \<Rightarrow> api \<times> (pg_error + dispatch_response)" where
  "resolve env req a =
    (case Resolve (api_scheduler a) (ae_clock env) (api_seq a) (ListActiveNodes (ae_db env 0) (cs_pg (api_ctl a))) (api_cache a) req of
       (c, Inl e) \<Rightarrow> (a\<lparr>api_cache := c\<rparr>, Inl e)
     | (c, Inr resp) \<Rightarrow> (a\<lparr>api_cache := c, api_seq := api_seq a + 1\<rparr>, Inr resp))"

definition dispatch_of :: "dispatch_request \<Rightarrow> string \<Rightarrow> dispatch_request" where
  "dispatch_of req ip = req\<lparr>dq_client := (dq_client req)\<lparr>ci_ip := ip\<rparr>, dq_resource := (dq_resource req)\<lparr>res_key := trim_space (res_key (dq_resource req))\<rparr>\<rparr>"

definition handleDispatch :: "api_env \<Rightarrow> http_request \<Rightarrow> api \<Rightarrow> api \<times> api_body reply" where
  "handleDispatch env r a =
    (case decodeJSON (ae_broken env) (dispatch_field True) zero_dispatch r of
       DecodeError s c m \<Rightarrow> (a, Error s c m)
     | Decoded req \<Rightarrow>
        (let ip0 = trim_space (ci_ip (dq_client req));
             (m, ip) = (if ip0 = [] then cachedClientIP r (api_ipCache a) else (api_ipCache a, ip0));
             a = a\<lparr>api_ipCache := m\<rparr>;
             req = dispatch_of req ip
         in if res_key (dq_resource req) = [] then (a, Error 400 ''BAD_REQUEST'' ''resource key is required'')
            else if IsBlocked (api_policy a) ip then (a, Error 403 ''BLOCKED'' ''client IP is blocked'')
            else case resolve env req a of
                (a, Inl _) \<Rightarrow> (a, Error 500 ''DISPATCH_FAILED'' ''internal server error'')
              | (a, Inr resp) \<Rightarrow> (a, Reply 200 (Dispatched resp))))"

definition escapeResourcePath :: "string \<Rightarrow> string" where
  "escapeResourcePath key = join_with (CHR ''/'') (map PathEscape (split_on (CHR ''/'') key))"

definition trim_right_char :: "char \<Rightarrow> string \<Rightarrow> string" where
  "trim_right_char c s = rev (dropWhile (\<lambda>x. x = c) (rev s))"

definition redirectURL :: "string \<Rightarrow> string \<Rightarrow> dispatch_token \<Rightarrow> string" where
  "redirectURL endpoint key tok =
    trim_right_char (CHR ''/'') endpoint @ ''/obj/'' @ escapeResourcePath key @
      (if dt_value tok \<noteq> [] then ''?token='' @ QueryEscape (dt_value tok) else [])"

definition object_request :: "string \<Rightarrow> string \<Rightarrow> dispatch_request" where
  "object_request ip key =
    \<lparr>dq_client = \<lparr>ci_ip = ip, ci_region = [], ci_isp = []\<rparr>,
     dq_resource = \<lparr>res_type = ''object'', res_key = key, res_scheme = ''https''\<rparr>, dq_need_range = False\<rparr>"

definition handleObjectIngress :: "api_env \<Rightarrow> string \<Rightarrow> http_request \<Rightarrow> api \<Rightarrow> api \<times> api_body reply" where
  "handleObjectIngress env param r a =
    (let key = sanitizeResourceKey param in
     if key = [] then (a, Error 400 ''BAD_REQUEST'' ''invalid resource key'')
     else let (m, ip) = cachedClientIP r (api_ipCache a) in
       case resolve env (object_request ip key) (a\<lparr>api_ipCache := m\<rparr>) of
         (a, Inl _) \<Rightarrow> (a, Error 503 ''NO_EDGE'' ''no edge nodes available'')
       | (a, Inr resp) \<Rightarrow>
           (case dr_candidates resp of
              Some (first # _) \<Rightarrow> (a, Redirect 302 (redirectURL (cd_endpoint first) key (dr_token resp)))
            | _ \<Rightarrow> (a, Error 503 ''NO_EDGE'' ''no edge nodes available'')))"

section \<open>Health and metrics\<close>

text \<open>The checks of the two databases fail with a message or succeed (\<open>None\<close>).\<close>

definition handleHealthz :: "(string option \<times> string option) option \<Rightarrow> string \<Rightarrow> api_body reply" where
  "handleHealthz checker time =
    (let (pg, redis) = (case checker of Some c \<Rightarrow> c | None \<Rightarrow> (None, None));
         show = (\<lambda>e. case e of None \<Rightarrow> ''ok'' | Some m \<Rightarrow> ''error: '' @ m)
     in Reply 200 (Health (if pg = None \<and> redis = None then ''ok'' else ''degraded'') time (show pg) (show redis)))"

definition handleMetrics :: "api_env \<Rightarrow> api \<Rightarrow> api_body reply" where
  "handleMetrics env a =
    (let p = cs_pg (api_ctl a) in Reply 200 (Gauges
      [(''active'', registry_CountByStatus (ae_db env 0) (status_string Active) p),
       (''degraded'', registry_CountByStatus (ae_db env 1) (status_string Degraded) p),
       (''offline'', registry_CountByStatus (ae_db env 2) (status_string Offline) p),
       (''registered'', registry_CountByStatus (ae_db env 3) (status_string Registered) p),
       (''quarantined'', registry_CountByStatus (ae_db env 4) (status_string Quarantined) p)]))"

section \<open>The router\<close>

datatype route =
    RRegister | RHeartbeat | RGetNode string | RRevokeNode string | RDispatch | RObject string
  | RHealthz "(string option \<times> string option) option" string | RMetrics

definition needs_key :: "route \<Rightarrow> bool" where
  "needs_key rt = (case rt of RHealthz _ _ \<Rightarrow> False | RMetrics \<Rightarrow> False | _ \<Rightarrow> True)"

definition handle :: "api_env \<Rightarrow> route \<Rightarrow> http_request \<Rightarrow> api \<Rightarrow> api \<times> api_body reply" where
  "handle env rt r a =
    (case rt of RRegister \<Rightarrow> handleRegister env r a
     | RHeartbeat \<Rightarrow> handleHeartbeat env r a
     | RGetNode i \<Rightarrow> handleGetNode env i a
     | RRevokeNode i \<Rightarrow> handleRevokeNode env i a
     | RDispatch \<Rightarrow> handleDispatch env r a
     | RObject k \<Rightarrow> handleObjectIngress env k r a
     | RHealthz c t \<Rightarrow> (a, handleHealthz c t)
     | RMetrics \<Rightarrow> (a, handleMetrics env a))"

text \<open>A request passes the rate limiter, which reads the clock at \<open>now\<close>, then the API key where its
  group asks for one.\<close>

definition serve :: "int \<Rightarrow> api_env \<Rightarrow> route \<Rightarrow> http_request \<Rightarrow> api \<Rightarrow> api \<times> api_body reply" where
  "serve now env rt r a =
    (case withRateLimit now (api_limiter a) of
       (rl, Some e) \<Rightarrow> (a\<lparr>api_limiter := rl\<rparr>, e)
     | (rl, None) \<Rightarrow>
        (let a = a\<lparr>api_limiter := rl\<rparr> in
         case (if needs_key rt then apiKey_middleware (api_auth a) r else None) of
           Some e \<Rightarrow> (a, e)
         | None \<Rightarrow> handle env rt r a))"

section \<open>Properties\<close>

lemma apiKey_middleware_spec:
  assumes "secret \<noteq> []"
  shows "apiKey_middleware (newAPIKeyAuth secret) r = None \<longleftrightarrow> header r ''Authorization'' = ''Bearer '' @ secret"
proof -
  define h where "h = header r ''Authorization''"
  have b: "bool_at [(secret, True)] t \<longleftrightarrow> t = secret" for t by (simp add: bool_at_def)
  have t: "prefix ''Bearer '' h \<and> trim_prefix ''Bearer '' h = secret \<longleftrightarrow> h = ''Bearer '' @ secret"
    unfolding prefix_def trim_prefix_def by auto
  have "apiKey_middleware (newAPIKeyAuth secret) r = None \<longleftrightarrow> h \<noteq> [] \<and> prefix ''Bearer '' h \<and> trim_prefix ''Bearer '' h = secret"
    using assms by (simp add: apiKey_middleware_def newAPIKeyAuth_def Let_def h_def [symmetric] b)
  then show ?thesis using t unfolding h_def [symmetric] by auto
qed

lemma apiKey_middleware_status: "apiKey_middleware a r = Some e \<Longrightarrow> status_code e \<in> {401, 403}"
  by (auto simp: apiKey_middleware_def Let_def split: if_splits)


definition sample_api :: "string \<Rightarrow> policy \<Rightarrow> api" where
  "sample_api secret p =
    \<lparr>api_ctl = control_empty, api_cache = NewNodeCache 0, api_scheduler = sample_scheduler, api_seq = 0, api_policy = p,
     api_ipCache = [], api_limiter = newRateLimiter 0 100000 200000, api_auth = newAPIKeyAuth secret\<rparr>"

definition sample_env :: api_env where
  "sample_env = \<lparr>ae_broken = False, ae_db = (\<lambda>_. True), ae_redis = True, ae_hb = fine_hb_env 5, ae_hb_ttl = 30,
     ae_clock = (\<lambda>_. 1), ae_uuid = ''abcdefabcdef'', ae_token = ''tok''\<rparr>"


text \<open>The address a dispatch request counts for: the one it names, or that of the connection.\<close>

definition dispatch_ip :: "dispatch_request \<Rightarrow> http_request \<Rightarrow> api \<Rightarrow> string" where
  "dispatch_ip req r a =
    (let ip = trim_space (ci_ip (dq_client req)) in if ip = [] then snd (cachedClientIP r (api_ipCache a)) else ip)"

lemma handleDispatch_cases:
  assumes "decodeJSON (ae_broken env) (dispatch_field True) zero_dispatch r = Decoded req"
    and "trim_space (res_key (dq_resource req)) \<noteq> []"
  obtains (blocked) m where "IsBlocked (api_policy a) (dispatch_ip req r a)"
      "handleDispatch env r a = (a\<lparr>api_ipCache := m\<rparr>, Error 403 ''BLOCKED'' ''client IP is blocked'')"
  | (failed) m c where "\<not> IsBlocked (api_policy a) (dispatch_ip req r a)"
      "handleDispatch env r a = (a\<lparr>api_ipCache := m, api_cache := c\<rparr>, Error 500 ''DISPATCH_FAILED'' ''internal server error'')"
  | (resolved) m c resp where "\<not> IsBlocked (api_policy a) (dispatch_ip req r a)"
      "Resolve (api_scheduler a) (ae_clock env) (api_seq a) (ListActiveNodes (ae_db env 0) (cs_pg (api_ctl a))) (api_cache a)
         (dispatch_of req (dispatch_ip req r a)) = (c, Inr resp)"
      "handleDispatch env r a = (a\<lparr>api_ipCache := m, api_cache := c, api_seq := api_seq a + 1\<rparr>, Reply 200 (Dispatched resp))"
proof -
  obtain m ip where ip: "(if trim_space (ci_ip (dq_client req)) = [] then cachedClientIP r (api_ipCache a) else (api_ipCache a, trim_space (ci_ip (dq_client req)))) = (m, ip)"
    by fastforce
  then have d: "dispatch_ip req r a = ip" by (auto simp: dispatch_ip_def Let_def split: if_splits)
  have k: "res_key (dq_resource (dispatch_of req ip)) \<noteq> []" using assms(2) by (simp add: dispatch_of_def)
  obtain c x where rs: "Resolve (api_scheduler a) (ae_clock env) (api_seq a) (ListActiveNodes (ae_db env 0) (cs_pg (api_ctl a))) (api_cache a)
      (dispatch_of req ip) = (c, x)" by fastforce
  have h: "handleDispatch env r a =
    (if IsBlocked (api_policy a) ip then (a\<lparr>api_ipCache := m\<rparr>, Error 403 ''BLOCKED'' ''client IP is blocked'')
     else case resolve env (dispatch_of req ip) (a\<lparr>api_ipCache := m\<rparr>) of
         (a, Inl _) \<Rightarrow> (a, Error 500 ''DISPATCH_FAILED'' ''internal server error'')
       | (a, Inr resp) \<Rightarrow> (a, Reply 200 (Dispatched resp)))"
    unfolding handleDispatch_def assms(1) decoded.case Let_def ip prod.case using k by simp
  show thesis
  proof (cases "IsBlocked (api_policy a) ip")
    case True
    then show ?thesis using blocked [where m = m] h d by simp
  next
    case False
    then show ?thesis
    proof (cases x)
      case (Inl e)
      then show ?thesis using failed [where m = m and c = c] False h d rs by (simp add: resolve_def)
    next
      case (Inr resp)
      then show ?thesis using resolved [where c = c and resp = resp and m = m] False h d rs by (simp add: resolve_def)
    qed
  qed
qed

text \<open>C27: once the block lists have been loaded from the database, a well-formed dispatch request is
  refused with 403 exactly when a published block policy lists the client's address, whether the
  request names it or it is that of the connection; a refused request asks for no nodes and gets no
  token.\<close>

theorem handleDispatch_blocks:
  assumes "decodeJSON (ae_broken env) (dispatch_field True) zero_dispatch r = Decoded req"
    and "trim_space (res_key (dq_resource req)) \<noteq> []" "api_policy a = SyncFromDB True s p"
    and "handleDispatch env r a = (a', rep)"
  shows "(status_code rep = 403 \<longleftrightarrow> list_ex (\<lambda>(_, pol). blocks_ip (dispatch_ip req r a) pol) (tb_policies (reads s))) \<and>
    (status_code rep = 403 \<longrightarrow> rep = Error 403 ''BLOCKED'' ''client IP is blocked'' \<and> api_cache a' = api_cache a \<and> api_seq a' = api_seq a)"
proof -
  have b: "IsBlocked (api_policy a) (dispatch_ip req r a) \<longleftrightarrow> list_ex (\<lambda>(_, pol). blocks_ip (dispatch_ip req r a) pol) (tb_policies (reads s))"
    unfolding assms(3) SyncFromDB_spec by simp
  show ?thesis
  proof (cases rule: handleDispatch_cases [OF assms(1,2), of a])
    case 1
    then show ?thesis using assms(4) b by auto
  next
    case (2 m c)
    then show ?thesis using assms(4) b by auto
  next
    case (3 m c resp)
    then show ?thesis using assms(4) b by auto
  qed
qed

text \<open>A dispatch request as the client library sends it is decoded as that request.\<close>

definition json_post :: "json \<Rightarrow> http_request" where
  "json_post v = \<lparr>rq_method = ''POST'', rq_path = [], rq_query = [], rq_headers = [], rq_remote = [], rq_body = json_print v\<rparr>"

definition dispatch_utf8 :: "dispatch_request \<Rightarrow> bool" where
  "dispatch_utf8 q \<longleftrightarrow> list_all valid_utf8 [ci_ip (dq_client q), ci_region (dq_client q), ci_isp (dq_client q),
     res_type (dq_resource q), res_key (dq_resource q), res_scheme (dq_resource q)]"

lemma decode_dispatch:
  assumes "dispatch_utf8 q" "length (json_print (JObj (dispatch_members q))) \<le> maxJSONBodySize"
  shows "decodeJSON broken (dispatch_field strict) zero_dispatch (json_post (JObj (dispatch_members q))) = Decoded q"
proof (rule decodeJSON_accepts)
  have o: "list_all (\<lambda>(k, v). valid_utf8 k \<and> json_ok d v) (omit_empty k s)" if "valid_utf8 s" "plain_name k" for d k s
    using that by (simp add: omit_empty_def utf8_plain)
  have "plain_name ''region''" "plain_name ''isp''" "plain_name ''scheme''" "plain_name ''client''" "plain_name ''resource''" "plain_name ''hints''"
    "plain_name ''ip''" "plain_name ''type''" "plain_name ''key''" "plain_name ''need_range''"
    by (simp_all add: plain_name_def)
  then have "json_ok 10000 (JObj (dispatch_members q))"
    using assms(1) o by (simp add: dispatch_members_def dispatch_utf8_def utf8_plain)
  from json_parse_print [OF this] show "read_struct (dispatch_field strict) zero_dispatch (rq_body (json_post (JObj (dispatch_members q)))) = Some q"
    by (simp add: read_struct_def json_post_def read_dispatch del: json_print.simps)
qed (use assms(2) in \<open>simp_all add: json_post_def header_def\<close>)

definition block_policy :: "string \<Rightarrow> admin_policy" where
  "block_policy ip = \<lparr>ap_PolicyID = ''p'', ap_TenantID = [], ap_ProjectID = [], ap_Name = [], ap_Type = ''block'',
     ap_Content = Some (JObj [(''blocked_ips'', JArr [JStr ip])]), ap_Version = 1, ap_IsPublished = True,
     ap_Description = [], ap_CreatedAt = 0, ap_UpdatedAt = 0\<rparr>"

lemma blocks_ip_block_policy: "blocks_ip ip (block_policy ip)"
proof -
  have "plain_name ''blocked_ips''" by (simp add: plain_name_def)
  then have "block_content_of (Some (JObj [(''blocked_ips'', JArr (map JStr [ip]))])) = Some \<lparr>bc_BlockedIPs = [ip], bc_BlockedNodes = []\<rparr>"
    unfolding block_content_of_def read_value_def by (simp add: read_member_def block_field_def strs_field_strs del: list.map)
  then show ?thesis by (simp add: blocks_ip_def block_policy_def)
qed

lemma sample_dispatch_ok:
  "dispatch_utf8 sample_dispatch" "length (json_print (JObj (dispatch_members sample_dispatch))) \<le> maxJSONBodySize"
  "trim_space (res_key (dq_resource sample_dispatch)) \<noteq> []" "trim_space (ci_ip (dq_client sample_dispatch)) = ''10.0.0.7''"
  by (simp add: dispatch_utf8_def sample_dispatch_def valid_utf8_ascii) code_simp+

theorem handleDispatch_blocks_witness:
  "let s = \<lparr>as_primary = no_tables\<lparr>tb_policies := [(''p'', block_policy ''10.0.0.7'')]\<rparr>, as_replica = None\<rparr>;
       a = sample_api [] (SyncFromDB True s NewPolicy)
   in snd (handleDispatch sample_env (json_post (JObj (dispatch_members sample_dispatch))) a) = Error 403 ''BLOCKED'' ''client IP is blocked''"
proof -
  define s where "s = \<lparr>as_primary = no_tables\<lparr>tb_policies := [(''p'', block_policy ''10.0.0.7'')]\<rparr>, as_replica = None\<rparr>"
  define a where "a = sample_api [] (SyncFromDB True s NewPolicy)"
  define r where "r = json_post (JObj (dispatch_members sample_dispatch))"
  obtain a' rep where h: "handleDispatch sample_env r a = (a', rep)" by fastforce
  have d: "decodeJSON (ae_broken sample_env) (dispatch_field True) zero_dispatch r = Decoded sample_dispatch"
    unfolding r_def by (rule decode_dispatch [OF sample_dispatch_ok(1,2)])
  have "dispatch_ip sample_dispatch r a = ''10.0.0.7''" by (simp add: dispatch_ip_def sample_dispatch_ok(4))
  then have "list_ex (\<lambda>(_, pol). blocks_ip (dispatch_ip sample_dispatch r a) pol) (tb_policies (reads s))"
    by (simp add: s_def reads_def blocks_ip_block_policy)
  moreover have p: "api_policy a = SyncFromDB True s NewPolicy" by (simp add: a_def sample_api_def)
  ultimately show ?thesis
    using handleDispatch_blocks [OF d sample_dispatch_ok(3) p h] h by (simp add: a_def s_def r_def Let_def)
qed

section \<open>The redirect to an edge\<close>

lemma escapeResourcePath_unescape: "path_unescape (escapeResourcePath key) = Some key"
proof -
  have "path_unescape (join_with (CHR ''/'') (map PathEscape ps)) = Some (join_with (CHR ''/'') ps)" for ps
  proof (induction "CHR ''/''" ps rule: join_with.induct)
    case (2 p)
    then show ?case using path_unescape_PathEscape [of p "[]"] by simp
  next
    case (3 p q ps)
    then show ?case by (simp add: path_unescape_PathEscape)
  qed simp
  from this [of "split_on (CHR ''/'') key"] show ?thesis by (simp add: escapeResourcePath_def)
qed

lemma QueryEscape_id: "\<forall>c\<in>set s. unreserved c \<Longrightarrow> QueryEscape s = s"
proof (induction s)
  case (Cons c s)
  have "\<not> unreserved (CHR '' '')" by (simp add: unreserved_def is_alnum_def)
  then have "c \<noteq> CHR '' ''" using Cons.prems by auto
  then show ?case using Cons by (simp add: QueryEscape_def)
qed (simp add: QueryEscape_def)

lemma b64_unreserved: "\<forall>c\<in>set b64_alphabet. unreserved c"
  by code_simp

lemma Sign_unreserved: "\<forall>c\<in>set (Sign secret t p). unreserved c"
proof -
  have "unreserved (CHR ''.'')" by (simp add: unreserved_def)
  moreover have "\<forall>c\<in>set (b64_encode bs). unreserved c" for bs using b64_encode_chars b64_unreserved by blast
  ultimately show ?thesis by (auto simp: Sign_def Let_def token_sig_def)
qed

lemma Sign_not_Nil: "Sign secret t p \<noteq> []"
  by (simp add: Sign_def Let_def)

definition origin_endpoint :: "scheduler \<Rightarrow> string" where
  "origin_endpoint sch = (if sc_OriginURL (sch_cfg sch) = [] then ''http://localhost:7070'' else sc_OriginURL (sch_cfg sch))"


definition browser :: "string \<Rightarrow> http_request" where
  "browser remote = \<lparr>rq_method = ''GET'', rq_path = [], rq_query = [], rq_headers = [], rq_remote = remote, rq_body = []\<rparr>"

lemma browser_ip: "snd (cachedClientIP (browser ''10.0.0.7:9'') []) = ipv4_string [10, 0, 0, 7]"
proof -
  have "snd (cachedClientIP (browser ''10.0.0.7:9'') []) = ''10.0.0.7''" by code_simp
  then show ?thesis by (simp add: ipv4_string_def dec_nat.simps digit_char_codes)
qed


section \<open>From registration to dispatch\<close>

definition hb_env_fine :: "hb_env \<Rightarrow> bool" where
  "hb_env_fine env \<longleftrightarrow> he_hset env \<and> he_expire env \<and> he_lastSeen env \<and> he_getNode env \<and> he_status env"

lemma GetNode_present:
  assumes "pg_inv p" "status_of p i = Some st"
  obtains p' n where "GetNode True now i p = (p', Inr n)" "n_status n = st" "pg_inv p'" "\<And>j. status_of p' j = status_of p j"
proof -
  obtain p' x where g: "GetNode True now i p = (p', x)" by fastforce
  obtain n where n: "x = Inr n" "n_status n = st"
    using GetNode_result [OF assms(1), of now i] assms(2) g by (auto simp: status_of_def split: option.splits)
  have p': "p' = fst (GetNode True now i p)" using g by simp
  show thesis using that [OF g [unfolded n(1)] n(2)] pg_inv_getNode [OF assms(1)] by (simp add: p')
qed

lemma processOne_activates:
  assumes "pg_inv (cs_pg st)" "status_of (cs_pg st) (hb_node_id req) = Some Registered" "hb_env_fine env"
  shows "snd (processOne ttl env req st) = None \<and> status_of (cs_pg (fst (processOne ttl env req st))) (hb_node_id req) = Some Active"
proof -
  let ?i = "hb_node_id req" and ?now = "he_now env"
  obtain r where s: "SaveHeartbeat True True ?now req ttl (cs_redis st) = (r, True)" by (auto simp: SaveHeartbeat_def Let_def)
  define p where "p = fst (UpdateNodeLastSeen True ?now ?i (cs_pg st))"
  have l: "UpdateNodeLastSeen True ?now ?i (cs_pg st) = (p, None)" by (simp add: p_def UpdateNodeLastSeen_def update_node_def)
  have p: "pg_inv p" "status_of p ?i = Some Registered" using assms(1,2) pg_inv_updates(3) [OF assms(1)] by (simp_all add: p_def)
  obtain q n where g: "GetNode True ?now ?i p = (q, Inr n)" "n_status n = Registered" "\<And>j. status_of q j = status_of p j"
    by (rule GetNode_present [OF p, of ?now]) blast
  define u where "u = fst (UpdateNodeStatus True ?now ?i Active q)"
  have nq: "gm_get (pg_nodes q) ?i \<noteq> None" using g(3) [of ?i] p(2) by (auto simp: status_of_def)
  then have us: "UpdateNodeStatus True ?now ?i Active q = (u, None)" by (simp add: u_def UpdateNodeStatus_def update_node_def)
  have "status_of u ?i = Some Active" using g(3) p(2) by (simp add: u_def status_of_UpdateNodeStatus)
  then show ?thesis using assms(3) s l g(1,2) us by (simp add: processOne_def hb_env_fine_def Let_def)
qed

lemma active_listed:
  assumes "pg_inv p" "status_of p i = Some Active"
  shows "\<exists>ns n. ListActiveNodes True p = Inr ns \<and> n \<in> set ns \<and> n_node_id n = i \<and> n_status n = Active"
proof -
  obtain n tok where n: "gm_get (pg_nodes p) i = Some (n, tok)" "n_status n = Active" using assms(2) by (auto simp: status_of_def)
  have "(i, n, tok) \<in> set (pg_nodes p)" using n(1) by (rule map_of_SomeD)
  then have "active_columns n \<in> set (active_rows (pg_nodes p))" using n(2) by (force simp: active_rows_def active_status_def)
  moreover have "n_node_id n = i" by (rule pg_inv_node [OF assms(1) n(1)])
  ultimately show ?thesis using n(2) pg_inv_read [OF assms(1)] by (auto simp: ListActiveNodes_def active_columns_def intro!: bexI [of _ "active_columns n"])
qed

lemma CreateNode_created: "CreateNode db now uuid req tok p = (p', Inr n) \<Longrightarrow> status_of p' (n_node_id n) = Some Registered"
  by (auto simp: CreateNode_def Let_def node_of_request_def status_of_def split: if_splits)

lemma handleRegister_created:
  assumes "pg_inv (cs_pg (api_ctl a))" "handleRegister env r a = (a', Reply 201 (NodeRegistered resp))"
  shows "pg_inv (cs_pg (api_ctl a'))" "status_of (cs_pg (api_ctl a')) (rg_node_id resp) = Some Registered" "cs_redis (api_ctl a') = cs_redis (api_ctl a)"
proof -
  obtain req where "Register (ae_db env 0) (ae_clock env 0) (ae_uuid env) (ae_token env) req (cs_pg (api_ctl a)) = (cs_pg (api_ctl a'), Inr resp)"
    and r: "cs_redis (api_ctl a') = cs_redis (api_ctl a)"
    using assms(2) by (auto simp: handleRegister_def set_pg_def Let_def split: decoded.splits if_splits prod.splits sum.splits)
  then obtain n where c: "CreateNode (ae_db env 0) (ae_clock env 0) (ae_uuid env) req (ae_token env) (cs_pg (api_ctl a)) = (cs_pg (api_ctl a'), Inr n)"
    "rg_node_id resp = n_node_id n" by (auto simp: Register_def split: prod.splits sum.splits)
  then show "pg_inv (cs_pg (api_ctl a'))" using pg_inv_create [OF assms(1)] by (metis fst_conv)
  show "cs_redis (api_ctl a') = cs_redis (api_ctl a)" by (rule r)
  show "status_of (cs_pg (api_ctl a')) (rg_node_id resp) = Some Registered" unfolding c(2) by (rule CreateNode_created [OF c(1)])
qed


lemma decode_member:
  assumes "plain_name k" "valid_utf8 s" "length (json_print (JObj [(k, JStr s)])) \<le> maxJSONBodySize" "rd zero k (JStr s) = (x, True)"
  shows "decodeJSON broken rd zero (json_post (JObj [(k, JStr s)])) = Decoded x"
proof (rule decodeJSON_accepts)
  have "json_ok 10000 (JObj [(k, JStr s)])" using assms(1,2) by (simp add: utf8_plain)
  from json_parse_print [OF this] show "read_struct rd zero (rq_body (json_post (JObj [(k, JStr s)]))) = Some x"
    by (simp add: read_struct_def json_post_def read_value_def read_member_def assms(4) del: json_print.simps)
qed (use assms(3) in \<open>simp_all add: json_post_def header_def\<close>)


end
