(* ===== verification/Nonces.thy ===== *)
theory Nonces
  imports Go_Prelude
begin

text \<open>
  The two memories of used nonces: the map inside \<open>adminAuth\<close> of \<open>internal/controlplane/admin_internal.go\<close>
  and the \<open>NonceCache\<close> of \<open>internal/auth/admin.go\<close>.  Times are in nanoseconds.
\<close>

section \<open>The contract\<close>

text \<open>\<open>check n t s\<close> accepts or refuses the nonce \<open>n\<close> at time \<open>t\<close>; \<open>tick t s\<close> is what may happen between
  calls; \<open>held s n\<close> is when the nonce was accepted, as far as the memory knows.  For \<open>keep\<close> after its
  acceptance a nonce is known and refused.\<close>

locale nonce_memory =
  fixes check :: "string \<Rightarrow> int \<Rightarrow> 's \<Rightarrow> 's \<times> bool"
    and tick :: "int \<Rightarrow> 's \<Rightarrow> 's"
    and held :: "'s \<Rightarrow> string \<Rightarrow> int option"
    and good :: "'s \<Rightarrow> bool"
    and keep :: int
  assumes good_check: "good s \<Longrightarrow> good (fst (check n t s))"
    and good_tick: "good s \<Longrightarrow> good (tick t s)"
    and accepted: "\<lbrakk>good s; check n t s = (s', True)\<rbrakk> \<Longrightarrow> held s' n = Some t"
    and refused: "\<lbrakk>good s; held s n = Some t0; t - t0 \<le> keep\<rbrakk> \<Longrightarrow> \<not> snd (check n t s)"
    and kept: "\<lbrakk>good s; held s n = Some t0; t - t0 \<le> keep\<rbrakk> \<Longrightarrow> held (fst (check m t s)) n = Some t0"
    and kept_tick: "\<lbrakk>good s; held s n = Some t0; t - t0 \<le> keep\<rbrakk> \<Longrightarrow> held (tick t s) n = Some t0"
begin

text \<open>What happens between two uses of a nonce: checks of nonces, and ticks.\<close>

fun exec :: "(string option \<times> int) \<Rightarrow> 's \<Rightarrow> 's" where
  "exec (Some n, t) s = fst (check n t s)"
| "exec (None, t) s = tick t s"

lemma exec_keeps:
  "\<lbrakk>good s; held s n = Some t0; snd e - t0 \<le> keep\<rbrakk> \<Longrightarrow> good (exec e s) \<and> held (exec e s) n = Some t0"
  by (cases e; cases "fst e") (auto simp: good_check good_tick kept kept_tick)

lemma run_keeps:
  "\<lbrakk>good s; held s n = Some t0; \<forall>e \<in> set es. snd e \<le> t1; t1 - t0 \<le> keep\<rbrakk> \<Longrightarrow> good (fold exec es s) \<and> held (fold exec es s) n = Some t0"
proof (induction es arbitrary: s)
  case (Cons e es)
  have "good (exec e s) \<and> held (exec e s) n = Some t0" using Cons.prems by (intro exec_keeps) auto
  then show ?case using Cons by simp
qed simp

text \<open>Of two accepted uses of one nonce the second comes more than \<open>keep\<close> after the first.\<close>

lemma no_reuse:
  assumes "good s" "check n t s = (s1, True)" "\<forall>e \<in> set es. snd e \<le> t'" "snd (check n t' (fold exec es s1))"
  shows "t' - t > keep"
proof (rule ccontr)
  assume "\<not> ?thesis"
  then have k: "t' - t \<le> keep" by simp
  have "good s1" using good_check [OF assms(1), of n t] assms(2) by simp
  then show False using refused run_keeps [OF _ accepted [OF assms(1,2)] assms(3) k] k assms(4) by blast
qed

end

section \<open>The map of the control plane\<close>

record nonce_map =
  nm_nonceTTL :: int
  nm_seenNonces :: "(string, int) gomap"
  nm_lastCleanup :: "int option"
  nm_cleanupEvery :: int

text \<open>\<open>None\<close> is the zero time.\<close>

definition nonce_cleanup :: "int \<Rightarrow> nonce_map \<Rightarrow> nonce_map" where
  "nonce_cleanup now a =
    (let last = (case nm_lastCleanup a of None \<Rightarrow> now | Some t \<Rightarrow> t) in
     if now - last \<ge> nm_cleanupEvery a
     then a\<lparr>nm_seenNonces := filter (\<lambda>(_, t). \<not> t < now - nm_nonceTTL a) (nm_seenNonces a), nm_lastCleanup := Some now\<rparr>
     else a\<lparr>nm_lastCleanup := Some last\<rparr>)"

definition checkAndRememberNonce :: "string \<Rightarrow> int \<Rightarrow> nonce_map \<Rightarrow> nonce_map \<times> bool" where
  "checkAndRememberNonce nonce now a0 =
    (let a = nonce_cleanup now a0 in
     if gm_get (nm_seenNonces a) nonce \<noteq> None then (a, False)
     else (a\<lparr>nm_seenNonces := gm_set nonce now (nm_seenNonces a)\<rparr>, True))"

definition new_nonce_map :: nonce_map where
  "new_nonce_map = \<lparr>nm_nonceTTL = 600000000000, nm_seenNonces = [], nm_lastCleanup = None, nm_cleanupEvery = 60000000000\<rparr>"

definition nonce_map_ok :: "int \<Rightarrow> nonce_map \<Rightarrow> bool" where
  "nonce_map_ok keep a \<longleftrightarrow> gm_wf (nm_seenNonces a) \<and> keep \<le> nm_nonceTTL a"

lemma nonce_cleanup_ok: "nonce_map_ok keep a \<Longrightarrow> nonce_map_ok keep (nonce_cleanup t a)"
  by (simp add: nonce_map_ok_def nonce_cleanup_def Let_def)

lemma nonce_cleanup_keeps:
  assumes "nonce_map_ok keep a" "gm_get (nm_seenNonces a) n = Some t0" "t - t0 \<le> keep"
  shows "gm_get (nm_seenNonces (nonce_cleanup t a)) n = Some t0"
proof -
  have "\<not> t0 < t - nm_nonceTTL a" using assms by (auto simp: nonce_map_ok_def)
  then show ?thesis using assms by (auto simp: nonce_map_ok_def nonce_cleanup_def Let_def gm_get_filter)
qed

interpretation admin_nonces: nonce_memory checkAndRememberNonce "\<lambda>_ a. a" "\<lambda>a. gm_get (nm_seenNonces a)" "nonce_map_ok keep" keep for keep
proof unfold_locales
  fix s n t s' t0 m
  show "nonce_map_ok keep s \<Longrightarrow> nonce_map_ok keep (fst (checkAndRememberNonce n t s))"
    using nonce_cleanup_ok [of keep s t] by (auto simp: checkAndRememberNonce_def Let_def nonce_map_ok_def)
  show "checkAndRememberNonce n t s = (s', True) \<Longrightarrow> gm_get (nm_seenNonces s') n = Some t"
    by (auto simp: checkAndRememberNonce_def Let_def split: if_splits)
  assume a: "nonce_map_ok keep s" "gm_get (nm_seenNonces s) n = Some t0" "t - t0 \<le> keep"
  then show "\<not> snd (checkAndRememberNonce n t s)" "gm_get (nm_seenNonces (fst (checkAndRememberNonce m t s))) n = Some t0"
    using nonce_cleanup_keeps [OF a] by (auto simp: checkAndRememberNonce_def Let_def)
qed

section \<open>The nonce cache of the admin library\<close>

record nonce_cache =
  nc_cache :: "(string, int) gomap"
  nc_maxAge :: int

definition NewNonceCache :: "int \<Rightarrow> nonce_cache" where
  "NewNonceCache maxAge = \<lparr>nc_cache = [], nc_maxAge = maxAge\<rparr>"

text \<open>One round of the cleanup goroutine.\<close>

definition cleanup_tick :: "int \<Rightarrow> nonce_cache \<Rightarrow> nonce_cache" where
  "cleanup_tick now nc = nc\<lparr>nc_cache := filter (\<lambda>(_, v). \<not> now - v > nc_maxAge nc) (nc_cache nc)\<rparr>"

definition CheckAndStore :: "string \<Rightarrow> int \<Rightarrow> nonce_cache \<Rightarrow> nonce_cache \<times> bool" where
  "CheckAndStore nonce now nc =
    (if gm_get (nc_cache nc) nonce \<noteq> None then (nc, False) else (nc\<lparr>nc_cache := gm_set nonce now (nc_cache nc)\<rparr>, True))"

definition nonce_cache_ok :: "int \<Rightarrow> nonce_cache \<Rightarrow> bool" where
  "nonce_cache_ok keep nc \<longleftrightarrow> gm_wf (nc_cache nc) \<and> keep \<le> nc_maxAge nc"

interpretation lib_nonces: nonce_memory CheckAndStore cleanup_tick "\<lambda>nc. gm_get (nc_cache nc)" "nonce_cache_ok keep" keep for keep
  by unfold_locales (auto simp: CheckAndStore_def cleanup_tick_def nonce_cache_ok_def gm_get_filter split: if_splits)

end
