(* ===== verification/Admin_Auth.thy ===== *)
theory Admin_Auth
  imports Control_API Nonces
begin

text \<open>
  The signed admin interface: the HMAC middleware and the node handlers of
  \<open>internal/controlplane/admin_internal.go\<close>, and the HMAC verifier of \<open>internal/auth/admin.go\<close>.
\<close>

section \<open>The middleware\<close>

record admin_actor =
  ac_UserID :: string
  ac_TenantID :: string
  ac_ProjectID :: string

record admin_auth =
  aa_keyID :: string
  aa_secret :: string
  aa_allowedNets :: "ip_net list"
  aa_maxSkew :: int
  aa_nonces :: nonce_map

definition newAdminAuth :: "string \<Rightarrow> string \<Rightarrow> admin_auth" where
  "newAdminAuth accessKey secretKey =
    \<lparr>aa_keyID = accessKey, aa_secret = secretKey, aa_allowedNets = [], aa_maxSkew = 300000000000, aa_nonces = new_nonce_map\<rparr>"

definition ipAllowed :: "admin_auth \<Rightarrow> byte list \<Rightarrow> bool" where
  "ipAllowed a ip = list_ex (\<lambda>n. net_Contains n ip) (aa_allowedNets a)"

fun hex_decode :: "string \<Rightarrow> byte list option" where
  "hex_decode [] = Some []"
| "hex_decode [c] = None"
| "hex_decode (c # d # cs) =
    (case (hex_digit_val c, hex_digit_val d) of
       (Some x, Some y) \<Rightarrow> map_option ((#) (word_of_nat (16 * x + y))) (hex_decode cs)
     | _ \<Rightarrow> None)"

abbreviation trimmed_header :: "http_request \<Rightarrow> string \<Rightarrow> string" where
  "trimmed_header r name \<equiv> trim_space (header r name)"

definition admin_body :: "http_request \<Rightarrow> string" where
  "admin_body r = take 1048576 (rq_body r)"

definition admin_payload :: "http_request \<Rightarrow> string" where
  "admin_payload r =
    join_with (CHR 0x0A)
      [trimmed_header r ''X-Admin-Timestamp'', trimmed_header r ''X-Admin-Nonce'', rq_method r, rq_path r,
       hex_encode (sha256 (bytes_of (admin_body r)))]"

text \<open>The checks before the nonce is looked up, and those after it was remembered: a reply refuses the
  request.  \<open>readable\<close> says that the body can be read.\<close>

definition admin_precheck :: "int \<Rightarrow> http_request \<Rightarrow> admin_auth \<Rightarrow> api_body reply option" where
  "admin_precheck now r a =
    (if aa_allowedNets a \<noteq> [] \<and> (case ParseIP (clientIP r) of None \<Rightarrow> True | Some ip \<Rightarrow> \<not> ipAllowed a ip)
       then Some (Error 403 ''FORBIDDEN'' ''client ip not allowed'')
     else if trimmed_header r ''X-Admin-KeyId'' = [] \<or> trimmed_header r ''X-Admin-Timestamp'' = [] \<or>
         trimmed_header r ''X-Admin-Nonce'' = [] \<or> trimmed_header r ''X-Admin-Signature'' = []
       then Some (Error 401 ''UNAUTHORIZED'' ''missing admin auth headers'')
     else if trimmed_header r ''X-Admin-KeyId'' \<noteq> aa_keyID a then Some (Error 403 ''FORBIDDEN'' ''invalid key id'')
     else case parse_int (trimmed_header r ''X-Admin-Timestamp'') of
       None \<Rightarrow> Some (Error 400 ''BAD_REQUEST'' ''invalid timestamp'')
     | Some ts \<Rightarrow>
         if ts * 1000000000 > now + aa_maxSkew a \<or> ts * 1000000000 < now - aa_maxSkew a
           then Some (Error 401 ''UNAUTHORIZED'' ''timestamp out of range'') else None)"

definition admin_actor_of :: "http_request \<Rightarrow> admin_actor" where
  "admin_actor_of r = \<lparr>ac_UserID = trimmed_header r ''X-Actor-UserId'', ac_TenantID = trimmed_header r ''X-Actor-TenantId'',
     ac_ProjectID = trimmed_header r ''X-Actor-ProjectId''\<rparr>"

definition admin_postcheck :: "bool \<Rightarrow> http_request \<Rightarrow> admin_auth \<Rightarrow> api_body reply option" where
  "admin_postcheck readable r a =
    (let actor = admin_actor_of r in
     if \<not> readable then Some (Error 400 ''BAD_REQUEST'' ''failed to read body'')
     else if hex_decode (trimmed_header r ''X-Admin-Signature'') \<noteq> Some (hmac_sha256 (bytes_of (aa_secret a)) (bytes_of (admin_payload r)))
       then Some (Error 401 ''UNAUTHORIZED'' ''invalid signature'')
     else if ac_UserID actor = [] \<or> ac_TenantID actor = [] \<or> ac_ProjectID actor = []
       then Some (Error 400 ''BAD_REQUEST'' ''missing actor headers'')
     else None)"

text \<open>A request that passes goes on with its actor and its request identifier, which is \<open>uuid\<close> when it brings
  none, and with the body that was read.\<close>

definition admin_middleware :: "bool \<Rightarrow> string \<Rightarrow> int \<Rightarrow> http_request \<Rightarrow> admin_auth \<Rightarrow>
    admin_auth \<times> (api_body reply + admin_actor \<times> string \<times> http_request)" where
  "admin_middleware readable uuid now r a =
    (case admin_precheck now r a of
       Some e \<Rightarrow> (a, Inl e)
     | None \<Rightarrow>
        (case checkAndRememberNonce (trimmed_header r ''X-Admin-Nonce'') now (aa_nonces a) of (nm, unused) \<Rightarrow>
          (let a = a\<lparr>aa_nonces := nm\<rparr> in
           if \<not> unused then (a, Inl (Error 401 ''UNAUTHORIZED'' ''replayed nonce''))
           else case admin_postcheck readable r a of
             Some e \<Rightarrow> (a, Inl e)
           | None \<Rightarrow> (a, Inr (admin_actor_of r,
               (if trimmed_header r ''X-Request-Id'' = [] then uuid else trimmed_header r ''X-Request-Id''),
               r\<lparr>rq_body := admin_body r\<rparr>)))))"

section \<open>Node handlers\<close>

record disable_node_request =
  dn_Reason :: string
  dn_Message :: string
  dn_Until :: string

definition disable_field :: "disable_node_request \<Rightarrow> string \<Rightarrow> json \<Rightarrow> disable_node_request \<times> bool" where
  "disable_field q k v =
    (if field_is ''reason'' k then str_field (\<lambda>x. q\<lparr>dn_Reason := x\<rparr>) q v
     else if field_is ''message'' k then str_field (\<lambda>x. q\<lparr>dn_Message := x\<rparr>) q v
     else if field_is ''until'' k then str_field (\<lambda>x. q\<lparr>dn_Until := x\<rparr>) q v
     else (q, True))"

text \<open>\<open>Decode\<close> on a body of at most 32 KB: the first value, whatever follows it.\<close>

definition decode_first :: "('a \<Rightarrow> string \<Rightarrow> json \<Rightarrow> 'a \<times> bool) \<Rightarrow> 'a \<Rightarrow> http_request \<Rightarrow> 'a option" where
  "decode_first rd zero r =
    (case first_value maxJSONBodySize (rq_body r) of Some (v, _) \<Rightarrow> read_value rd zero v | None \<Rightarrow> None)"

definition set_node_status :: "api_env \<Rightarrow> string \<Rightarrow> node_status \<Rightarrow> api \<Rightarrow> api \<times> api_body reply" where
  "set_node_status env nodeID st a =
    (case GetNode (ae_db env 0) (ae_clock env 0) nodeID (cs_pg (api_ctl a)) of
       (p, Inl _) \<Rightarrow> (set_pg p a, Error 404 ''NOT_FOUND'' ''node not found'')
     | (p, Inr _) \<Rightarrow>
        (case UpdateNodeStatus (ae_db env 1) (ae_clock env 1) nodeID st p of
           (p, Some _) \<Rightarrow> (set_pg p a, Error 500 ''INTERNAL'' ''internal server error'')
         | (p, None) \<Rightarrow> ((set_pg p a)\<lparr>api_cache := Invalidate (api_cache a)\<rparr>, Reply 200 (Status ''ok''))))"

definition handleAdminDisableNode :: "api_env \<Rightarrow> string \<Rightarrow> http_request \<Rightarrow> api \<Rightarrow> api \<times> api_body reply" where
  "handleAdminDisableNode env nodeID r a =
    (case decode_first disable_field \<lparr>dn_Reason = [], dn_Message = [], dn_Until = []\<rparr> r of
       None \<Rightarrow> (a, Error 400 ''BAD_REQUEST'' ''invalid request body'')
     | Some req \<Rightarrow>
        if trim_space (dn_Reason req) = [] then (a, Error 400 ''BAD_REQUEST'' ''reason is required'')
        else set_node_status env nodeID Disabled a)"

definition handleAdminEnableNode :: "api_env \<Rightarrow> string \<Rightarrow> api \<Rightarrow> api \<times> api_body reply" where
  "handleAdminEnableNode env nodeID a = set_node_status env nodeID Active a"

definition handleAdminRevokeNode :: "api_env \<Rightarrow> string \<Rightarrow> api \<Rightarrow> api \<times> api_body reply" where
  "handleAdminRevokeNode env nodeID a =
    (case RevokeNode (ae_db env 0) nodeID (cs_pg (api_ctl a)) of
       (p, Some _) \<Rightarrow> (set_pg p a, Error 404 ''NOT_FOUND'' ''node not found'')
     | (p, None) \<Rightarrow> ((set_pg p a)\<lparr>api_cache := Invalidate (api_cache a)\<rparr>, Reply 200 (Status ''ok'')))"

section \<open>No request is accepted twice\<close>

type_synonym admin_call = "bool \<times> string \<times> int \<times> http_request"

definition admin_serve :: "admin_call \<Rightarrow> admin_auth \<Rightarrow> admin_auth" where
  "admin_serve call a = (case call of (readable, uuid, now, r) \<Rightarrow> fst (admin_middleware readable uuid now r a))"

definition call_time :: "admin_call \<Rightarrow> int" where
  "call_time call = (case call of (_, _, now, _) \<Rightarrow> now)"

lemma admin_middleware_nonces:
  "\<exists>es. aa_nonces (fst (admin_middleware readable uuid now r a)) = fold admin_nonces.exec es (aa_nonces a) \<and> (\<forall>e\<in>set es. snd e = now) \<and>
    aa_maxSkew (fst (admin_middleware readable uuid now r a)) = aa_maxSkew a"
proof -
  obtain nm b where c: "checkAndRememberNonce (trimmed_header r ''X-Admin-Nonce'') now (aa_nonces a) = (nm, b)" by fastforce
  have "aa_nonces (fst (admin_middleware readable uuid now r a)) \<in> {aa_nonces a, nm} \<and> aa_maxSkew (fst (admin_middleware readable uuid now r a)) = aa_maxSkew a"
    by (simp add: admin_middleware_def c Let_def split: option.splits)
  moreover have "nm = fold admin_nonces.exec [(Some (trimmed_header r ''X-Admin-Nonce''), now)] (aa_nonces a)" using c by simp
  moreover have "aa_nonces a = fold admin_nonces.exec [] (aa_nonces a)" by simp
  ultimately show ?thesis by (metis empty_iff insert_iff list.set(1,2) snd_conv)
qed

lemma admin_serves_nonces:
  "\<exists>es. aa_nonces (fold admin_serve calls a) = fold admin_nonces.exec es (aa_nonces a) \<and> (\<forall>e\<in>set es. snd e \<in> call_time ` set calls) \<and>
    aa_maxSkew (fold admin_serve calls a) = aa_maxSkew a"
proof (induction calls arbitrary: a)
  case Nil
  show ?case by (rule exI [of _ "[]"]) simp
next
  case (Cons call calls)
  obtain readable uuid now r where c: "call = (readable, uuid, now, r)" by (cases call) auto
  obtain es1 where 1: "aa_nonces (admin_serve call a) = fold admin_nonces.exec es1 (aa_nonces a)" "\<forall>e\<in>set es1. snd e = now" "aa_maxSkew (admin_serve call a) = aa_maxSkew a"
    using admin_middleware_nonces [of readable uuid now r a] by (auto simp: admin_serve_def c)
  obtain es2 where 2: "aa_nonces (fold admin_serve calls (admin_serve call a)) = fold admin_nonces.exec es2 (aa_nonces (admin_serve call a))"
    "\<forall>e\<in>set es2. snd e \<in> call_time ` set calls" "aa_maxSkew (fold admin_serve calls (admin_serve call a)) = aa_maxSkew (admin_serve call a)"
    using Cons by blast
  have "call_time call = now" by (simp add: call_time_def c)
  then show ?case using 1 2 by (intro exI [of _ "es1 @ es2"]) auto
qed

lemma admin_accepted:
  assumes "admin_middleware readable uuid now r a = (a', Inr x)"
  obtains ts where "parse_int (trimmed_header r ''X-Admin-Timestamp'') = Some ts" "\<bar>ts * 1000000000 - now\<bar> \<le> aa_maxSkew a"
    "checkAndRememberNonce (trimmed_header r ''X-Admin-Nonce'') now (aa_nonces a) = (aa_nonces a', True)"
    "hex_decode (trimmed_header r ''X-Admin-Signature'') = Some (hmac_sha256 (bytes_of (aa_secret a)) (bytes_of (admin_payload r)))"
proof -
  obtain nm b where c: "checkAndRememberNonce (trimmed_header r ''X-Admin-Nonce'') now (aa_nonces a) = (nm, b)" by fastforce
  have pre: "admin_precheck now r a = None" using assms by (simp add: admin_middleware_def split: option.splits)
  have b: "b" and a': "a' = a\<lparr>aa_nonces := nm\<rparr>" and post: "admin_postcheck readable r a' = None"
    using assms pre c by (auto simp: admin_middleware_def Let_def split: option.splits if_splits)
  obtain ts where ts: "parse_int (trimmed_header r ''X-Admin-Timestamp'') = Some ts"
      "\<not> (ts * 1000000000 > now + aa_maxSkew a \<or> ts * 1000000000 < now - aa_maxSkew a)"
    using pre by (cases "parse_int (trimmed_header r ''X-Admin-Timestamp'')") (simp_all add: admin_precheck_def split: if_split_asm)
  have "hex_decode (trimmed_header r ''X-Admin-Signature'') = Some (hmac_sha256 (bytes_of (aa_secret a')) (bytes_of (admin_payload r)))"
    using post by (simp add: admin_postcheck_def Let_def split: if_split_asm)
  then show thesis using that [OF ts(1)] ts(2) c b a' by auto
qed

text \<open>C34: the signed admin interface accepts no request twice.  After an accepted request, and whatever other
  requests come in between up to the time of the second, a request with the same timestamp and nonce
  is refused: the nonce is remembered for twice the permitted skew.\<close>

theorem admin_no_replay:
  assumes "a = fold admin_serve before (newAdminAuth key secret)"
    and "admin_middleware readable uuid now r a = (a1, Inr x)"
    and "\<forall>call\<in>set later. call_time call \<le> now'"
    and "admin_middleware readable' uuid' now' r' (fold admin_serve later a1) = (a2, Inr y)"
  shows "trimmed_header r' ''X-Admin-Nonce'' \<noteq> trimmed_header r ''X-Admin-Nonce'' \<or>
    trimmed_header r' ''X-Admin-Timestamp'' \<noteq> trimmed_header r ''X-Admin-Timestamp''"
proof (rule ccontr)
  assume same: "\<not> ?thesis"
  let ?keep = "600000000000 :: int"
  have ok: "nonce_map_ok ?keep (aa_nonces a)" and skew: "aa_maxSkew a = 300000000000"
  proof -
    obtain es where es: "aa_nonces a = fold admin_nonces.exec es new_nonce_map" and "aa_maxSkew a = 300000000000"
      using admin_serves_nonces [of before "newAdminAuth key secret"] assms(1) by (auto simp: newAdminAuth_def)
    then show "aa_maxSkew a = 300000000000" by simp
    have "nonce_map_ok ?keep (fold admin_nonces.exec es s)" if "nonce_map_ok ?keep s" for es s
      using that
    proof (induction es arbitrary: s)
      case (Cons e es)
      have "nonce_map_ok ?keep (admin_nonces.exec e s)"
        using Cons.prems admin_nonces.good_check [of ?keep s] by (cases e; cases "fst e") auto
      then show ?case using Cons.IH by simp
    qed simp
    then show "nonce_map_ok ?keep (aa_nonces a)" unfolding es by (simp add: nonce_map_ok_def new_nonce_map_def)
  qed
  obtain ts where t1: "parse_int (trimmed_header r ''X-Admin-Timestamp'') = Some ts" "\<bar>ts * 1000000000 - now\<bar> \<le> 300000000000"
    "checkAndRememberNonce (trimmed_header r ''X-Admin-Nonce'') now (aa_nonces a) = (aa_nonces a1, True)"
    using admin_accepted [OF assms(2)] unfolding skew by blast
  have "aa_maxSkew a1 = 300000000000" using admin_middleware_nonces [of readable uuid now r a] assms(2) skew by auto
  then obtain es where es: "aa_nonces (fold admin_serve later a1) = fold admin_nonces.exec es (aa_nonces a1)"
      "\<forall>e\<in>set es. snd e \<in> call_time ` set later" and skew1: "aa_maxSkew (fold admin_serve later a1) = 300000000000"
    using admin_serves_nonces [of later a1] by auto
  obtain ts' where t2: "parse_int (trimmed_header r' ''X-Admin-Timestamp'') = Some ts'" "\<bar>ts' * 1000000000 - now'\<bar> \<le> 300000000000"
    "checkAndRememberNonce (trimmed_header r' ''X-Admin-Nonce'') now' (aa_nonces (fold admin_serve later a1)) = (aa_nonces a2, True)"
    using admin_accepted [OF assms(4)] unfolding skew1 by blast
  have "\<forall>e\<in>set es. snd e \<le> now'" using es(2) assms(3) by fastforce
  moreover have "snd (checkAndRememberNonce (trimmed_header r ''X-Admin-Nonce'') now' (fold admin_nonces.exec es (aa_nonces a1)))"
    using t2(3) same es(1) by simp
  ultimately have "now' - now > ?keep" by (rule admin_nonces.no_reuse [OF ok t1(3)])
  moreover have "ts' = ts" using t1(1) t2(1) same by simp
  ultimately show False using t1(2) t2(2) by simp
qed

section \<open>Signing a request\<close>

lemma hex_digit_vals: "n < 16 \<Longrightarrow> hex_digit_val (hex_digit n) = Some n"
  by (simp add: hex_digit_val_def hex_digit_def Let_def)

lemma hex_decode_encode: "hex_decode (hex_encode bs) = Some bs"
proof (induction bs)
  case (Cons b bs)
  have "unat b div 16 < 16" "unat b mod 16 < 16" using byte_bound [of b] by auto
  then show ?case using Cons by (simp add: hex_encode_def hex_digit_vals)
qed (simp add: hex_encode_def)

lemma hex_plain: "c \<in> set (hex_encode bs) \<Longrightarrow> plain_char c"
proof -
  assume "c \<in> set (hex_encode bs)"
  then obtain b :: byte where "c = hex_digit (unat b div 16) \<or> c = hex_digit (unat b mod 16)" by (auto simp: hex_encode_def)
  moreover have "unat b div 16 < 16" "unat b mod 16 < 16" using byte_bound [of b] by auto
  ultimately obtain n where "n < 16" "c = hex_digit n" by blast
  then show ?thesis by (auto simp: plain_char_def hex_digit_def Let_def)
qed

lemma trim_hex: "trim_space (hex_encode bs) = hex_encode bs"
  by (rule trim_space_plain) (metis hex_plain hd_in_set last_in_set)

text \<open>What a client does: the signature covers the timestamp, the nonce, the method, the path and the body.\<close>

definition admin_sign :: "string \<Rightarrow> http_request \<Rightarrow> http_request" where
  "admin_sign secret r = set_header ''X-Admin-Signature'' (hex_encode (hmac_sha256 (bytes_of secret) (bytes_of (admin_payload r)))) r"

definition well_formed_admin :: "int \<Rightarrow> http_request \<Rightarrow> admin_auth \<Rightarrow> bool" where
  "well_formed_admin now r a \<longleftrightarrow>
    aa_allowedNets a = [] \<and> trimmed_header r ''X-Admin-KeyId'' = aa_keyID a \<and> aa_keyID a \<noteq> [] \<and>
    trimmed_header r ''X-Admin-Nonce'' \<noteq> [] \<and>
    (case parse_int (trimmed_header r ''X-Admin-Timestamp'') of None \<Rightarrow> False | Some ts \<Rightarrow> \<bar>ts * 1000000000 - now\<bar> \<le> aa_maxSkew a) \<and>
    ac_UserID (admin_actor_of r) \<noteq> [] \<and> ac_TenantID (admin_actor_of r) \<noteq> [] \<and> ac_ProjectID (admin_actor_of r) \<noteq> []"

lemma admin_sign_headers:
  assumes "to_lower n \<noteq> to_lower ''X-Admin-Signature''"
  shows "header (admin_sign secret r) n = header r n"
  using assms by (simp add: admin_sign_def header_set)

lemma lower_names:
  "to_lower ''X-Admin-KeyId'' \<noteq> to_lower ''X-Admin-Signature''" "to_lower ''X-Admin-Timestamp'' \<noteq> to_lower ''X-Admin-Signature''"
  "to_lower ''X-Admin-Nonce'' \<noteq> to_lower ''X-Admin-Signature''" "to_lower ''X-Actor-UserId'' \<noteq> to_lower ''X-Admin-Signature''"
  "to_lower ''X-Actor-TenantId'' \<noteq> to_lower ''X-Admin-Signature''" "to_lower ''X-Actor-ProjectId'' \<noteq> to_lower ''X-Admin-Signature''"
  by code_simp+

lemmas signed_headers = lower_names [THEN admin_sign_headers]

lemma parse_int_Nil [simp]: "parse_int [] = None"
  by (simp add: parse_int_def parse_digits_def)

text \<open>A well-formed request with an unused nonce that is signed with the secret is accepted.\<close>

lemma admin_sign_accepted:
  assumes "well_formed_admin now r a" "checkAndRememberNonce (trimmed_header r ''X-Admin-Nonce'') now (aa_nonces a) = (nm, True)"
  shows "\<exists>x. admin_middleware True uuid now (admin_sign (aa_secret a) r) a = (a\<lparr>aa_nonces := nm\<rparr>, Inr x)"
proof -
  let ?r = "admin_sign (aa_secret a) r"
  obtain ts where ts: "parse_int (trimmed_header r ''X-Admin-Timestamp'') = Some ts" "\<bar>ts * 1000000000 - now\<bar> \<le> aa_maxSkew a"
    using assms(1) by (auto simp: well_formed_admin_def split: option.splits)
  have sig: "header ?r ''X-Admin-Signature'' = hex_encode (hmac_sha256 (bytes_of (aa_secret a)) (bytes_of (admin_payload r)))"
    by (simp add: admin_sign_def header_set)
  have ne: "hmac_sha256 k m \<noteq> []" for k m using length_hmac_sha256 [of k m] by (metis length_0_conv zero_neq_numeral)
  have pay: "admin_payload ?r = admin_payload r"
    unfolding admin_payload_def admin_body_def signed_headers by (simp add: admin_sign_def set_header_def)
  have act: "admin_actor_of ?r = admin_actor_of r" unfolding admin_actor_of_def signed_headers by simp
  have "trimmed_header r ''X-Admin-Timestamp'' \<noteq> []" using ts(1) by auto
  then have "admin_precheck now ?r a = None"
    using assms(1) ts ne unfolding admin_precheck_def signed_headers sig trim_hex by (simp add: well_formed_admin_def) linarith
  moreover have "admin_postcheck True ?r (a\<lparr>aa_nonces := nm\<rparr>) = None"
    using assms(1) unfolding admin_postcheck_def sig trim_hex act pay Let_def by (simp add: hex_decode_encode well_formed_admin_def)
  ultimately show ?thesis
    using assms(2) unfolding admin_middleware_def signed_headers by (simp add: Let_def)
qed

definition sample_admin_request :: "string \<Rightarrow> http_request" where
  "sample_admin_request nonce =
    \<lparr>rq_method = ''POST'', rq_path = ''/internal/admin/v1/nodes/n1:enable'', rq_query = [],
     rq_headers = [(''x-admin-keyid'', ''k''), (''x-admin-timestamp'', ''1000''), (''x-admin-nonce'', nonce),
       (''x-actor-userid'', ''u''), (''x-actor-tenantid'', ''t''), (''x-actor-projectid'', ''p'')], rq_remote = [], rq_body = []\<rparr>"

lemma sample_admin_headers:
  "trimmed_header (sample_admin_request n) ''X-Admin-Nonce'' = trim_space n"
  "trimmed_header (sample_admin_request n) ''X-Admin-KeyId'' = ''k''"
  "parse_int (trimmed_header (sample_admin_request n) ''X-Admin-Timestamp'') = Some 1000"
  "admin_actor_of (sample_admin_request n) = \<lparr>ac_UserID = ''u'', ac_TenantID = ''t'', ac_ProjectID = ''p''\<rparr>"
proof -
  have l: "to_lower ''X-Admin-Nonce'' = ''x-admin-nonce''" "to_lower ''X-Admin-KeyId'' = ''x-admin-keyid''" "to_lower ''X-Admin-Timestamp'' = ''x-admin-timestamp''"
    "to_lower ''X-Actor-UserId'' = ''x-actor-userid''" "to_lower ''X-Actor-TenantId'' = ''x-actor-tenantid''" "to_lower ''X-Actor-ProjectId'' = ''x-actor-projectid''"
    "trim_space ''k'' = ''k''" "trim_space ''u'' = ''u''" "trim_space ''t'' = ''t''" "trim_space ''p'' = ''p''" "parse_int (trim_space ''1000'') = Some 1000"
    by code_simp+
  show "trimmed_header (sample_admin_request n) ''X-Admin-Nonce'' = trim_space n"
    "trimmed_header (sample_admin_request n) ''X-Admin-KeyId'' = ''k''"
    "parse_int (trimmed_header (sample_admin_request n) ''X-Admin-Timestamp'') = Some 1000"
    "admin_actor_of (sample_admin_request n) = \<lparr>ac_UserID = ''u'', ac_TenantID = ''t'', ac_ProjectID = ''p''\<rparr>"
    unfolding admin_actor_of_def header_def l sample_admin_request_def by (simp_all add: l)
qed

theorem admin_no_replay_witness:
  "\<exists>a1 a2 x y. let r = admin_sign ''s'' (sample_admin_request ''a''); r' = admin_sign ''s'' (sample_admin_request ''b'') in
    admin_middleware True ''u'' 1000000000000 r (newAdminAuth ''k'' ''s'') = (a1, Inr x) \<and>
    admin_middleware True ''u'' 1000000000005 r' a1 = (a2, Inr y) \<and>
    (trimmed_header r' ''X-Admin-Nonce'' \<noteq> trimmed_header r ''X-Admin-Nonce'' \<or>
     trimmed_header r' ''X-Admin-Timestamp'' \<noteq> trimmed_header r ''X-Admin-Timestamp'')"
proof -
  let ?a = "newAdminAuth ''k'' ''s''"
  have t: "trim_space ''a'' = ''a''" "trim_space ''b'' = ''b''" by code_simp+
  have w: "n \<noteq> [] \<Longrightarrow> trim_space n = n \<Longrightarrow> \<bar>1000 * 1000000000 - now\<bar> \<le> aa_maxSkew c \<Longrightarrow> aa_keyID c = ''k'' \<Longrightarrow> aa_allowedNets c = [] \<Longrightarrow>
      well_formed_admin now (sample_admin_request n) c" for n now c
    by (simp add: well_formed_admin_def sample_admin_headers)
  have c1: "checkAndRememberNonce ''a'' 1000000000000 (aa_nonces ?a) = (aa_nonces ?a\<lparr>nm_lastCleanup := Some 1000000000000, nm_seenNonces := [(''a'', 1000000000000)]\<rparr>, True)"
    by (simp add: newAdminAuth_def new_nonce_map_def checkAndRememberNonce_def nonce_cleanup_def Let_def)
  define nm where "nm = aa_nonces ?a\<lparr>nm_lastCleanup := Some 1000000000000, nm_seenNonces := [(''a'', 1000000000000)]\<rparr>"
  define a1 where "a1 = ?a\<lparr>aa_nonces := nm\<rparr>"
  have s: "aa_secret ?a = ''s''" "aa_secret a1 = ''s''" by (simp_all add: a1_def newAdminAuth_def)
  obtain x where h1: "admin_middleware True ''u'' 1000000000000 (admin_sign ''s'' (sample_admin_request ''a'')) ?a = (a1, Inr x)"
    using admin_sign_accepted [OF w, of "''a''" 1000000000000 ?a nm "''u''"] c1 t unfolding s nm_def [symmetric] a1_def
    by (auto simp: sample_admin_headers newAdminAuth_def)
  obtain nm2 where c2: "checkAndRememberNonce ''b'' 1000000000005 (aa_nonces a1) = (nm2, True)"
    by (simp add: a1_def nm_def newAdminAuth_def new_nonce_map_def checkAndRememberNonce_def nonce_cleanup_def Let_def)
  obtain y where h2: "admin_middleware True ''u'' 1000000000005 (admin_sign ''s'' (sample_admin_request ''b'')) a1 = (a1\<lparr>aa_nonces := nm2\<rparr>, Inr y)"
    using admin_sign_accepted [OF w, of "''b''" 1000000000005 a1 nm2 "''u''"] c2 t unfolding s
    by (auto simp: sample_admin_headers a1_def newAdminAuth_def)
  show ?thesis
    using admin_no_replay [of ?a "[]" "''k''" "''s''", OF _ h1, of "[]" 1000000000005] h1 h2 unfolding Let_def by (metis empty_iff fold_simps(1) list.set(1))
qed

end
