(* ===== verification/Admin_Session.thy ===== *)
theory Admin_Session
  imports Admin_Auth
begin

text \<open>
  \<open>internal/auth/admin.go\<close>: the HMAC verifier with its access keys, and the sessions of the admin console,
  JSON web tokens signed with HMAC-SHA256.
\<close>

section \<open>Access keys\<close>

record hmac_auth =
  ha_accessKeys :: "(string, string) gomap"
  ha_nonceTTL :: int
  ha_clockSkew :: int

datatype hmac_error = MissingHeaders | InvalidTimestamp | TimestampRange | NonceUsed | InvalidAccessKey | InvalidSignature

definition NewAdminAuth :: "string \<Rightarrow> string \<Rightarrow> int \<Rightarrow> int \<Rightarrow> hmac_auth" where
  "NewAdminAuth accessKey secretKey nonceTTL clockSkew =
    \<lparr>ha_accessKeys = (if accessKey \<noteq> [] \<and> secretKey \<noteq> [] then gm_set accessKey secretKey [] else []),
     ha_nonceTTL = nonceTTL, ha_clockSkew = clockSkew\<rparr>"

definition AddKey :: "string \<Rightarrow> string \<Rightarrow> hmac_auth \<Rightarrow> hmac_auth" where
  "AddKey accessKey secretKey a = a\<lparr>ha_accessKeys := gm_set accessKey secretKey (ha_accessKeys a)\<rparr>"

definition IsEnabled :: "hmac_auth \<Rightarrow> bool" where
  "IsEnabled a \<longleftrightarrow> length (ha_accessKeys a) > 0"

definition computeHMAC :: "string \<Rightarrow> string \<Rightarrow> string \<Rightarrow> string \<Rightarrow> string" where
  "computeHMAC secret keyID timestamp nonce =
    std_encode (hmac_sha256 (bytes_of secret) (bytes_of (keyID @ ''|'' @ timestamp @ ''|'' @ nonce)))"

text \<open>\<open>Duration.Seconds\<close>: whole seconds plus the rest, in floating point.\<close>

definition duration_seconds :: "int \<Rightarrow> float64" where
  "duration_seconds d =
    (let sec = quot d 1000000000 in fadd (float_of_int sec) (fdiv (float_of_int (d - sec * 1000000000)) 1000000000))"

definition hmac_Verify :: "int \<Rightarrow> hmac_auth \<Rightarrow> http_request \<Rightarrow> nonce_cache \<Rightarrow> nonce_cache \<times> (hmac_error + string)" where
  "hmac_Verify now a r nc =
    (let keyID = header r ''X-Admin-KeyId''; timestampStr = header r ''X-Admin-Timestamp'';
         nonce = header r ''X-Admin-Nonce''; signature = header r ''X-Admin-Signature''
     in
     if keyID = [] \<or> timestampStr = [] \<or> nonce = [] \<or> signature = [] then (nc, Inl MissingHeaders)
     else case parse_int timestampStr of None \<Rightarrow> (nc, Inl InvalidTimestamp)
     | Some ts \<Rightarrow>
       (let secs = now div 1000000000; skew = int_of_float (duration_seconds (ha_clockSkew a)) in
        if ts < i64 (secs - skew) \<or> ts > i64 (secs + skew) then (nc, Inl TimestampRange)
        else case CheckAndStore nonce now nc of (nc, unused) \<Rightarrow>
          (if \<not> unused then (nc, Inl NonceUsed)
           else case gm_get (ha_accessKeys a) keyID of
             None \<Rightarrow> (nc, Inl InvalidAccessKey)
           | Some secretKey \<Rightarrow>
               if signature \<noteq> computeHMAC secretKey keyID timestampStr nonce then (nc, Inl InvalidSignature)
               else (nc, Inr keyID))))"

definition hmac_middleware :: "int \<Rightarrow> hmac_auth \<Rightarrow> http_request \<Rightarrow> nonce_cache \<Rightarrow> nonce_cache \<times> 'b reply option" where
  "hmac_middleware now a r nc =
    (if \<not> IsEnabled a then (nc, None)
     else case hmac_Verify now a r nc of
       (nc, Inl _) \<Rightarrow> (nc, Some (Error 401 ''ADMIN_UNAUTHORIZED'' ''authentication failed''))
     | (nc, Inr _) \<Rightarrow> (nc, None))"

section \<open>Sessions\<close>

record jwt_claims =
  jc_UserID :: string
  jc_TenantID :: string
  jc_Email :: string
  jc_ExpiresAt :: int
  jc_IssuedAt :: int

record jwt_header =
  jh_Alg :: string
  jh_Typ :: string

record jwt_session =
  js_secret :: string
  js_expirySeconds :: int

datatype jwt_error = JwtFormat | JwtHeader | JwtSignature | JwtPayload | JwtExpired

definition NewJWTSession :: "string \<Rightarrow> int \<Rightarrow> jwt_session" where
  "NewJWTSession secret expirySeconds = \<lparr>js_secret = secret, js_expirySeconds = expirySeconds\<rparr>"

definition claims_members :: "jwt_claims \<Rightarrow> (string \<times> json) list" where
  "claims_members c =
    (''user_id'', JStr (jc_UserID c)) # omit_empty ''tenant_id'' (jc_TenantID c) @
    [(''email'', JStr (jc_Email c)), (''exp'', JNum (format_int (jc_ExpiresAt c))), (''iat'', JNum (format_int (jc_IssuedAt c)))]"

definition claims_field :: "jwt_claims \<Rightarrow> string \<Rightarrow> json \<Rightarrow> jwt_claims \<times> bool" where
  "claims_field c k v =
    (if field_is ''user_id'' k then str_field (\<lambda>x. c\<lparr>jc_UserID := x\<rparr>) c v
     else if field_is ''tenant_id'' k then str_field (\<lambda>x. c\<lparr>jc_TenantID := x\<rparr>) c v
     else if field_is ''email'' k then str_field (\<lambda>x. c\<lparr>jc_Email := x\<rparr>) c v
     else if field_is ''exp'' k then int_field (\<lambda>x. c\<lparr>jc_ExpiresAt := x\<rparr>) c v
     else if field_is ''iat'' k then int_field (\<lambda>x. c\<lparr>jc_IssuedAt := x\<rparr>) c v
     else (c, True))"

definition header_members :: "jwt_header \<Rightarrow> (string \<times> json) list" where
  "header_members h = [(''alg'', JStr (jh_Alg h)), (''typ'', JStr (jh_Typ h))]"

definition jwt_header_field :: "jwt_header \<Rightarrow> string \<Rightarrow> json \<Rightarrow> jwt_header \<times> bool" where
  "jwt_header_field c k v =
    (if field_is ''alg'' k then str_field (\<lambda>x. c\<lparr>jh_Alg := x\<rparr>) c v
     else if field_is ''typ'' k then str_field (\<lambda>x. c\<lparr>jh_Typ := x\<rparr>) c v
     else (c, True))"

definition zero_claims :: jwt_claims where
  "zero_claims = \<lparr>jc_UserID = [], jc_TenantID = [], jc_Email = [], jc_ExpiresAt = 0, jc_IssuedAt = 0\<rparr>"

definition zero_jwt_header :: jwt_header where
  "zero_jwt_header = \<lparr>jh_Alg = [], jh_Typ = []\<rparr>"

definition jwt_signature :: "string \<Rightarrow> string \<Rightarrow> string" where
  "jwt_signature secret input = b64_encode (hmac_sha256 (bytes_of secret) (bytes_of input))"

text \<open>\<open>now\<close> is in seconds.\<close>

definition jwt_claims_of :: "jwt_session \<Rightarrow> int \<Rightarrow> string \<Rightarrow> string \<Rightarrow> string \<Rightarrow> jwt_claims" where
  "jwt_claims_of j now userID tenantID email =
    \<lparr>jc_UserID = userID, jc_TenantID = tenantID, jc_Email = email, jc_ExpiresAt = i64 (now + js_expirySeconds j), jc_IssuedAt = now\<rparr>"

definition jwt_Sign :: "jwt_session \<Rightarrow> int \<Rightarrow> string \<Rightarrow> string \<Rightarrow> string \<Rightarrow> string \<times> int" where
  "jwt_Sign j now userID tenantID email =
    (let claims = jwt_claims_of j now userID tenantID email;
         headerB64 = b64_encode (bytes_of (json_print (JObj (header_members \<lparr>jh_Alg = ''HS256'', jh_Typ = ''JWT''\<rparr>))));
         payloadB64 = b64_encode (bytes_of (json_print (JObj (claims_members claims))));
         signingInput = headerB64 @ ''.'' @ payloadB64
     in (signingInput @ ''.'' @ jwt_signature (js_secret j) signingInput, jc_ExpiresAt claims))"

definition jwt_Verify :: "jwt_session \<Rightarrow> int \<Rightarrow> string \<Rightarrow> jwt_error + jwt_claims" where
  "jwt_Verify j now token =
    (case split_on (CHR ''.'') token of
       [h, p, sig] \<Rightarrow>
         (case b64_decode h of None \<Rightarrow> Inl JwtHeader
          | Some hs \<Rightarrow>
            (case read_struct jwt_header_field zero_jwt_header (string_of hs) of None \<Rightarrow> Inl JwtHeader
             | Some hdr \<Rightarrow>
               if jh_Alg hdr \<noteq> ''HS256'' \<or> jh_Typ hdr \<noteq> ''JWT'' then Inl JwtHeader
               else if sig \<noteq> jwt_signature (js_secret j) (h @ ''.'' @ p) then Inl JwtSignature
               else (case b64_decode p of None \<Rightarrow> Inl JwtPayload
                | Some ps \<Rightarrow>
                  (case read_struct claims_field zero_claims (string_of ps) of None \<Rightarrow> Inl JwtPayload
                   | Some c \<Rightarrow> if now > jc_ExpiresAt c then Inl JwtExpired else Inr c))))
     | _ \<Rightarrow> Inl JwtFormat)"

text \<open>The middleware replaces what the request says about its actor by what the token says.\<close>

definition jwt_middleware :: "jwt_session \<Rightarrow> int \<Rightarrow> string \<Rightarrow> http_request \<Rightarrow> 'b reply + http_request" where
  "jwt_middleware j now uuid r =
    (let auth = header r ''Authorization'' in
     if auth = [] \<or> \<not> prefix ''Bearer '' auth then Inl (Error 401 ''UNAUTHORIZED'' ''missing bearer token'')
     else case jwt_Verify j now (trim_prefix ''Bearer '' auth) of
       Inl _ \<Rightarrow> Inl (Error 401 ''UNAUTHORIZED'' ''invalid or expired token'')
     | Inr c \<Rightarrow> Inr (set_header ''X-Request-Id'' uuid (set_header ''X-Actor-Email'' (jc_Email c)
         (set_header ''X-Actor-TenantId'' (jc_TenantID c) (set_header ''X-Actor-UserId'' (jc_UserID c) r)))))"

text \<open>The random bytes are an argument; \<open>None\<close> when the generator fails.\<close>

definition GenerateRefreshToken :: "byte list option \<Rightarrow> string option" where
  "GenerateRefreshToken random = map_option (\<lambda>b. ''rt_'' @ b64_encode b) random"

section \<open>Signing and verifying\<close>

lemma jwt_names:
  "plain_name ''user_id''" "plain_name ''tenant_id''" "plain_name ''email''" "plain_name ''exp''" "plain_name ''iat''"
  "plain_name ''alg''" "plain_name ''typ''"
  by (simp_all add: plain_name_def)

definition claims_ok :: "jwt_claims \<Rightarrow> bool" where
  "claims_ok c \<longleftrightarrow> valid_utf8 (jc_UserID c) \<and> valid_utf8 (jc_TenantID c) \<and> valid_utf8 (jc_Email c) \<and>
    is_i64 (jc_ExpiresAt c) \<and> is_i64 (jc_IssuedAt c)"

lemma read_claims: "claims_ok c \<Longrightarrow> read_struct claims_field zero_claims (json_print (JObj (claims_members c))) = Some c"
proof -
  assume ok: "claims_ok c"
  then have "json_ok 10000 (JObj (claims_members c))"
    using jwt_names by (simp add: claims_members_def claims_ok_def omit_empty_def utf8_plain)
  then show ?thesis
    using ok jwt_names unfolding read_struct_print [OF \<open>json_ok 10000 (JObj (claims_members c))\<close>]
    by (cases c) (simp add: claims_members_def claims_field_def zero_claims_def read_member_def omit_empty_def claims_ok_def)
qed

lemma read_jwt_header:
  "read_struct jwt_header_field zero_jwt_header (json_print (JObj (header_members \<lparr>jh_Alg = ''HS256'', jh_Typ = ''JWT''\<rparr>))) = Some \<lparr>jh_Alg = ''HS256'', jh_Typ = ''JWT''\<rparr>"
proof -
  have v: "valid_utf8 ''HS256''" "valid_utf8 ''JWT''" by (rule valid_utf8_ascii, simp)+
  have "json_ok 10000 (JObj (header_members \<lparr>jh_Alg = ''HS256'', jh_Typ = ''JWT''\<rparr>))"
    using jwt_names v by (simp add: header_members_def utf8_plain)
  then show ?thesis
    using jwt_names by (subst read_struct_print) (simp_all add: header_members_def jwt_header_field_def zero_jwt_header_def read_member_def)
qed

lemma split_token:
  assumes "CHR ''.'' \<notin> set h" "CHR ''.'' \<notin> set p" "CHR ''.'' \<notin> set s"
  shows "split_on (CHR ''.'') (h @ ''.'' @ p @ ''.'' @ s) = [h, p, s]"
proof -
  have "h @ ''.'' @ p @ ''.'' @ s = join_with (CHR ''.'') [h, p, s]" by simp
  then show ?thesis using split_join [of "[h, p, s]" "CHR ''.''"] assms by simp
qed

lemma jwt_Verify_Sign:
  assumes "claims_ok (jwt_claims_of j now u ten e)"
  shows "jwt_Verify j t (fst (jwt_Sign j now u ten e)) =
    (if t > i64 (now + js_expirySeconds j) then Inl JwtExpired else Inr (jwt_claims_of j now u ten e))"
proof -
  let ?c = "jwt_claims_of j now u ten e"
  define h where "h = b64_encode (bytes_of (json_print (JObj (header_members \<lparr>jh_Alg = ''HS256'', jh_Typ = ''JWT''\<rparr>))))"
  define p where "p = b64_encode (bytes_of (json_print (JObj (claims_members ?c))))"
  define s where "s = jwt_signature (js_secret j) (h @ ''.'' @ p)"
  have tok: "fst (jwt_Sign j now u ten e) = h @ ''.'' @ p @ ''.'' @ s"
    by (simp add: jwt_Sign_def Let_def h_def p_def s_def)
  have "CHR ''.'' \<notin> set h" "CHR ''.'' \<notin> set p" "CHR ''.'' \<notin> set s"
    by (simp_all add: h_def p_def s_def jwt_signature_def b64_encode_no_dot)
  note sp = split_token [OF this]
  have hd: "b64_decode h = Some (bytes_of (json_print (JObj (header_members \<lparr>jh_Alg = ''HS256'', jh_Typ = ''JWT''\<rparr>))))"
    "b64_decode p = Some (bytes_of (json_print (JObj (claims_members ?c))))"
    unfolding h_def p_def by (rule b64_decode_encode)+
  have "jc_ExpiresAt ?c = i64 (now + js_expirySeconds j)" by (simp add: jwt_claims_of_def)
  then show ?thesis
    unfolding jwt_Verify_def tok sp using hd read_jwt_header read_claims [OF assms] by (simp add: s_def del: json_print.simps)
qed

lemma jwt_Verify_authentic:
  assumes "jwt_Verify j now tok = Inr c"
  shows "\<exists>h p bs. tok = h @ ''.'' @ p @ ''.'' @ b64_encode (hmac_sha256 (bytes_of (js_secret j)) (bytes_of (h @ ''.'' @ p))) \<and>
    b64_decode p = Some bs \<and> read_struct claims_field zero_claims (string_of bs) = Some c \<and> now \<le> jc_ExpiresAt c"
proof -
  obtain h p s where sp: "split_on (CHR ''.'') tok = [h, p, s]"
    using assms by (auto simp: jwt_Verify_def split: list.splits)
  then have tok: "tok = h @ ''.'' @ p @ ''.'' @ s" using join_split [of "CHR ''.''" tok] by simp
  have "s = jwt_signature (js_secret j) (h @ ''.'' @ p) \<and> (\<exists>bs. b64_decode p = Some bs \<and> read_struct claims_field zero_claims (string_of bs) = Some c \<and> now \<le> jc_ExpiresAt c)"
    using assms unfolding jwt_Verify_def sp by (auto split: option.splits if_splits)
  then show ?thesis using tok by (auto simp: jwt_signature_def)
qed

lemma actor_names:
  "to_lower ''X-Actor-UserId'' \<noteq> to_lower ''X-Request-Id''" "to_lower ''X-Actor-UserId'' \<noteq> to_lower ''X-Actor-Email''" "to_lower ''X-Actor-UserId'' \<noteq> to_lower ''X-Actor-TenantId''"
  "to_lower ''X-Actor-TenantId'' \<noteq> to_lower ''X-Request-Id''" "to_lower ''X-Actor-TenantId'' \<noteq> to_lower ''X-Actor-Email''"
  "to_lower ''X-Actor-Email'' \<noteq> to_lower ''X-Request-Id''"
  by code_simp+

text \<open>The identity of an admin session comes from its token alone.  A request that the session
  middleware passes on bears a token signed with the secret and not expired, and the actor headers the
  handlers read are the user, tenant and email of that token, whatever the request itself said.\<close>

theorem jwt_middleware_identity:
  assumes "jwt_middleware j now uuid r = Inr r'"
  shows "\<exists>h p bs c. header r ''Authorization'' = ''Bearer '' @ h @ ''.'' @ p @ ''.'' @ b64_encode (hmac_sha256 (bytes_of (js_secret j)) (bytes_of (h @ ''.'' @ p))) \<and>
    b64_decode p = Some bs \<and> read_struct claims_field zero_claims (string_of bs) = Some c \<and> now \<le> jc_ExpiresAt c \<and>
    header r' ''X-Actor-UserId'' = jc_UserID c \<and> header r' ''X-Actor-TenantId'' = jc_TenantID c \<and> header r' ''X-Actor-Email'' = jc_Email c"
proof -
  define h where "h = header r ''Authorization''"
  have h: "prefix ''Bearer '' h" using assms by (simp add: jwt_middleware_def Let_def h_def split: if_split_asm)
  then have h': "h = ''Bearer '' @ trim_prefix ''Bearer '' h" unfolding trim_prefix_def prefix_def by auto
  obtain c where c: "jwt_Verify j now (trim_prefix ''Bearer '' h) = Inr c"
    and r': "r' = set_header ''X-Request-Id'' uuid (set_header ''X-Actor-Email'' (jc_Email c)
         (set_header ''X-Actor-TenantId'' (jc_TenantID c) (set_header ''X-Actor-UserId'' (jc_UserID c) r)))"
    using assms unfolding jwt_middleware_def Let_def h_def [symmetric] by (simp split: if_split_asm sum.splits)
  have "header r' ''X-Actor-UserId'' = jc_UserID c" "header r' ''X-Actor-TenantId'' = jc_TenantID c" "header r' ''X-Actor-Email'' = jc_Email c"
    unfolding r' header_set using actor_names by simp_all
  then show ?thesis using jwt_Verify_authentic [OF c] h' unfolding h_def [symmetric] by metis
qed

definition spoofed :: "string \<Rightarrow> http_request" where
  "spoofed token = \<lparr>rq_method = ''GET'', rq_path = ''/me'', rq_query = [], rq_headers = [(''authorization'', ''Bearer '' @ token), (''x-actor-userid'', ''root'')],
     rq_remote = [], rq_body = []\<rparr>"

theorem jwt_middleware_identity_witness:
  "\<exists>r'. (jwt_middleware (NewJWTSession ''s'' 60) 130 ''id'' (spoofed (fst (jwt_Sign (NewJWTSession ''s'' 60) 100 ''u1'' ''t'' ''a@b''))) :: unit reply + http_request) = Inr r' \<and>
    (\<exists>c :: jwt_claims. header r' ''X-Actor-UserId'' = jc_UserID c \<and> 130 \<le> jc_ExpiresAt c)"
proof -
  let ?j = "NewJWTSession ''s'' 60"
  let ?t = "fst (jwt_Sign ?j 100 ''u1'' ''t'' ''a@b'')"
  have "claims_ok (jwt_claims_of ?j 100 ''u1'' ''t'' ''a@b'')"
    by (simp add: claims_ok_def jwt_claims_of_def NewJWTSession_def i64_def is_i64_def valid_utf8_ascii)
  then have v: "jwt_Verify ?j 130 ?t = Inr (jwt_claims_of ?j 100 ''u1'' ''t'' ''a@b'')"
    by (simp add: jwt_Verify_Sign) (simp add: NewJWTSession_def i64_def)
  have "to_lower ''Authorization'' = ''authorization''" by code_simp
  then have "header (spoofed ?t) ''Authorization'' = ''Bearer '' @ ?t" by (simp add: header_def spoofed_def)
  moreover have "trim_prefix ''Bearer '' (''Bearer '' @ ?t) = ?t" by (simp add: trim_prefix_def)
  ultimately obtain r' where r': "(jwt_middleware ?j 130 ''id'' (spoofed ?t) :: unit reply + http_request) = Inr r'"
    unfolding jwt_middleware_def using v by (simp add: Let_def)
  obtain c :: jwt_claims where "header r' ''X-Actor-UserId'' = jc_UserID c" "130 \<le> jc_ExpiresAt c"
    using jwt_middleware_identity [OF r'] by (elim exE conjE)
  then show ?thesis using r' by (intro exI [of _ r'] exI [of _ c] conjI)
qed

section \<open>The library's verifier does not accept a nonce twice either\<close>

lemma hmac_Verify_accepted:
  assumes "hmac_Verify now a r nc = (nc', Inr k)"
  shows "CheckAndStore (header r ''X-Admin-Nonce'') now nc = (nc', True)"
    "\<exists>secret. gm_get (ha_accessKeys a) k = Some secret \<and> header r ''X-Admin-Signature'' = computeHMAC secret k (header r ''X-Admin-Timestamp'') (header r ''X-Admin-Nonce'')"
  using assms by (auto simp: hmac_Verify_def Let_def split: if_split_asm option.splits prod.splits)

lemma hmac_no_reuse:
  assumes "nonce_cache_ok keep nc" "hmac_Verify now a r nc = (nc1, Inr k)" "\<forall>e\<in>set es. snd e \<le> now'"
    and "hmac_Verify now' a r' (fold lib_nonces.exec es nc1) = (nc2, Inr k')" "now' - now \<le> keep"
  shows "header r' ''X-Admin-Nonce'' \<noteq> header r ''X-Admin-Nonce''"
proof
  assume "header r' ''X-Admin-Nonce'' = header r ''X-Admin-Nonce''"
  then have "snd (CheckAndStore (header r ''X-Admin-Nonce'') now' (fold lib_nonces.exec es nc1))"
    using hmac_Verify_accepted(1) [OF assms(4)] by simp
  then show False
    using lib_nonces.no_reuse [OF assms(1) hmac_Verify_accepted(1) [OF assms(2)] assms(3)] assms(5) by simp
qed

end
