(* ===== verification/Go_Time.thy ===== *)
theory Go_Time
  imports Go_Strings
begin

text \<open>
  Package time, as far as requests carry times: \<open>time.Parse(time.RFC3339, s)\<close> and the stricter reading of
  JSON.  A time is its distance from 1970-01-01 00:00:00 UTC in nanoseconds.
\<close>

section \<open>The calendar\<close>

definition leap :: "int \<Rightarrow> bool" where
  "leap y \<longleftrightarrow> y mod 4 = 0 \<and> (y mod 100 \<noteq> 0 \<or> y mod 400 = 0)"

definition daysIn :: "int \<Rightarrow> int \<Rightarrow> int" where
  "daysIn m y = (if m = 2 then (if leap y then 29 else 28) else if m = 4 \<or> m = 6 \<or> m = 9 \<or> m = 11 then 30 else 31)"

text \<open>Days from the start of the year 1 of the Gregorian calendar to a date.\<close>

definition days_before_year :: "int \<Rightarrow> int" where
  "days_before_year y = 365 * (y - 1) + (y - 1) div 4 - (y - 1) div 100 + (y - 1) div 400"

definition days_before_month :: "int \<Rightarrow> int \<Rightarrow> int" where
  "days_before_month y m = sum_list (map (\<lambda>i. daysIn (int i) y) [1..<nat m])"

definition unix_days :: "int \<Rightarrow> int \<Rightarrow> int \<Rightarrow> int" where
  "unix_days y m d = days_before_year y + days_before_month y m + (d - 1) - 719162"

definition Date :: "int \<Rightarrow> int \<Rightarrow> int \<Rightarrow> int \<Rightarrow> int \<Rightarrow> int \<Rightarrow> int \<Rightarrow> int" where
  "Date y m d h mi s ns = ((unix_days y m d * 24 + h) * 60 + mi) * 60000000000 + s * 1000000000 + ns"

text \<open>The zero time, 0001-01-01 00:00:00 UTC.\<close>

definition time_zero :: int where
  "time_zero = Date 1 1 1 0 0 0 0"

section \<open>RFC 3339\<close>

text \<open>A number of exactly \<open>n\<close> digits within bounds, and the rest of the text.\<close>

definition take_num :: "nat \<Rightarrow> int \<Rightarrow> int \<Rightarrow> string \<Rightarrow> (int \<times> string) option" where
  "take_num n lo hi s =
    (if length s < n \<or> \<not> list_all is_digit (take n s) then None
     else let v = int (nat_of_digits (take n s)) in if lo \<le> v \<and> v \<le> hi then Some (v, drop n s) else None)"

definition take_lit :: "char \<Rightarrow> string \<Rightarrow> string option" where
  "take_lit c s = (case s of x # xs \<Rightarrow> if x = c then Some xs else None | [] \<Rightarrow> None)"

text \<open>The hour may have one digit when the text is read leniently.\<close>

definition take_hour :: "bool \<Rightarrow> string \<Rightarrow> (int \<times> string) option" where
  "take_hour lenient s =
    (if lenient \<and> s \<noteq> [] \<and> is_digit (hd s) \<and> (tl s = [] \<or> \<not> is_digit (hd (tl s))) then Some (int (digit_val (hd s)), tl s)
     else take_num 2 0 23 s)"

text \<open>The fraction of a second, cut to nine digits; a comma may stand for the point when lenient.\<close>

definition take_fraction :: "bool \<Rightarrow> string \<Rightarrow> int \<times> string" where
  "take_fraction lenient s =
    (case s of
       c # d # rest \<Rightarrow>
         if (c = CHR ''.'' \<or> lenient \<and> c = CHR '','') \<and> is_digit d then
           (let ds = takeWhile is_digit (d # rest)
            in (int (nat_of_digits (take 9 (ds @ replicate 9 (CHR ''0'')))), dropWhile is_digit (d # rest)))
         else (0, s)
     | _ \<Rightarrow> (0, s))"

text \<open>The zone in seconds east of UTC.\<close>

definition take_zone :: "bool \<Rightarrow> string \<Rightarrow> int option" where
  "take_zone lenient s =
    (if s = ''Z'' then Some 0
     else if length s \<noteq> 6 \<or> s ! 3 \<noteq> CHR '':'' then None
     else case (take_num 2 0 (if lenient then 24 else 23) (drop 1 s), take_num 2 0 (if lenient then 60 else 59) (drop 4 s)) of
       (Some (h, _), Some (m, _)) \<Rightarrow>
         if hd s = CHR ''+'' then Some (h * 3600 + m * 60) else if hd s = CHR ''-'' then Some (- (h * 3600 + m * 60)) else None
     | _ \<Rightarrow> None)"

definition parse_date :: "string \<Rightarrow> (int \<times> int \<times> int \<times> string) option" where
  "parse_date s =
    (case take_num 4 0 9999 s of None \<Rightarrow> None | Some (y, s) \<Rightarrow>
     (case take_lit (CHR ''-'') s of None \<Rightarrow> None | Some s \<Rightarrow>
     (case take_num 2 1 12 s of None \<Rightarrow> None | Some (m, s) \<Rightarrow>
     (case take_lit (CHR ''-'') s of None \<Rightarrow> None | Some s \<Rightarrow>
     (case take_num 2 1 (daysIn m y) s of None \<Rightarrow> None | Some (d, s) \<Rightarrow> Some (y, m, d, s))))))"

definition parse_clock :: "bool \<Rightarrow> string \<Rightarrow> (int \<times> int \<times> int \<times> string) option" where
  "parse_clock lenient s =
    (case take_hour lenient s of None \<Rightarrow> None | Some (h, s) \<Rightarrow>
     (case take_lit (CHR '':'') s of None \<Rightarrow> None | Some s \<Rightarrow>
     (case take_num 2 0 59 s of None \<Rightarrow> None | Some (mi, s) \<Rightarrow>
     (case take_lit (CHR '':'') s of None \<Rightarrow> None | Some s \<Rightarrow>
     (case take_num 2 0 59 s of None \<Rightarrow> None | Some (sec, s) \<Rightarrow> Some (h, mi, sec, s))))))"

definition parse_rfc3339 :: "bool \<Rightarrow> string \<Rightarrow> int option" where
  "parse_rfc3339 lenient s =
    (case parse_date s of None \<Rightarrow> None | Some (y, m, d, s) \<Rightarrow>
     (case take_lit (CHR ''T'') s of None \<Rightarrow> None | Some s \<Rightarrow>
     (case parse_clock lenient s of None \<Rightarrow> None | Some (h, mi, sec, s) \<Rightarrow>
     (case take_fraction lenient s of (ns, s) \<Rightarrow>
     (case take_zone lenient s of None \<Rightarrow> None
      | Some off \<Rightarrow> Some (Date y m d h mi sec ns - off * 1000000000))))))"

lemma calendar_examples: "unix_days 1970 1 1 = 0" "unix_days 2000 3 1 = 11017" "time_zero = - 62135596800000000000"
  by (simp_all add: unix_days_def days_before_year_def days_before_month_def daysIn_def leap_def upt_rec time_zero_def Date_def)

text \<open>A year is as long as its months, so the calendar has no gaps.\<close>

lemma days_of_year: "days_before_month y 13 = (if leap y then 366 else 365)"
  by (simp add: days_before_month_def daysIn_def upt_rec)

lemma div_pred: "0 < n \<Longrightarrow> y div n - (y - 1) div n = (if y mod n = 0 then 1 else (0 :: int))"
proof -
  assume n: "0 < n"
  define q r where "q = y div n" and "r = y mod n"
  have y: "y = n * q + r" "0 \<le> r" "r < n" using n by (simp_all add: q_def r_def)
  have "(y - 1) div n = (if r = 0 then q - 1 else q)"
  proof (cases "r = 0")
    case True
    have "(y - 1) div n = q - 1" using n y True by (intro int_div_pos_eq [of _ _ _ "n - 1"]) (simp_all add: algebra_simps)
    then show ?thesis using True by simp
  next
    case False
    have "(y - 1) div n = q" using n y False by (intro int_div_pos_eq [of _ _ _ "r - 1"]) simp_all
    then show ?thesis using False by simp
  qed
  then show ?thesis by (simp add: q_def r_def)
qed

lemma year_length: "days_before_year (y + 1) - days_before_year y = (if leap y then 366 else 365)"
proof -
  have m: "y mod 400 = 0 \<Longrightarrow> y mod 100 = 0" "y mod 100 = 0 \<Longrightarrow> y mod 4 = 0"
    using dvd_trans [of 100 400 y] dvd_trans [of 4 100 y] by (simp_all add: dvd_eq_mod_eq_0)
  have b: "(365 :: int) + (if p then 1 else 0) - (if q then 1 else 0) + (if r then 1 else 0) = (if p \<and> (\<not> q \<or> r) then 366 else 365)"
    if "r \<Longrightarrow> q" "q \<Longrightarrow> p" for p q r
    using that by (cases p; cases q; cases r) simp_all
  have "days_before_year (y + 1) - days_before_year y =
      365 + (y div 4 - (y - 1) div 4) - (y div 100 - (y - 1) div 100) + (y div 400 - (y - 1) div 400)"
    by (simp add: days_before_year_def)
  also have "\<dots> = 365 + (if y mod 4 = 0 then 1 else 0) - (if y mod 100 = 0 then 1 else 0) + (if y mod 400 = 0 then 1 else 0)"
    by (simp only: div_pred zero_less_numeral)
  also have "\<dots> = (if y mod 4 = 0 \<and> (y mod 100 \<noteq> 0 \<or> y mod 400 = 0) then 366 else 365)" by (rule b [OF m])
  finally show ?thesis unfolding leap_def .
qed

end
