(* ===== verification/Config_Manager.thy ===== *)
theory Config_Manager
  imports Admin_Auth "HOL-Library.Multiset"
begin

text \<open>
  \<open>internal/controlplane/config_manager.go\<close>: reading, changing and persisting the small-bandwidth options of
  the scheduler, the topology and dashboard of the active nodes, and pushing keys to the edges.
\<close>

section \<open>The configuration\<close>

record sb_config =
  sb_Enabled :: bool
  sb_Threshold :: int
  sb_P2PEnabled :: bool
  sb_PrefetchEnabled :: bool
  sb_PrefetchWorkers :: int
  sb_PrefetchBandwidthLimit :: int

record global_config =
  gc_SmallBandwidth_Enabled :: bool
  gc_SmallBandwidth_Threshold :: int
  gc_P2P_Enabled :: bool
  gc_P2P_DiscoveryIntervalSec :: int
  gc_P2P_MaxPeers :: int
  gc_P2P_BandwidthLimitMbps :: int
  gc_Prefetch_Enabled :: bool
  gc_Night_Start :: string
  gc_Night_End :: string
  gc_Night_BandwidthLimitMbps :: int
  gc_Day_BandwidthLimitMbps :: int
  gc_Day_MinPriority :: int
  gc_Origin_BandwidthPercent :: int
  gc_Origin_MaxConcurrent :: int
  gc_Origin_TimeoutSec :: int
  gc_Origin_Priority :: "string list option"

text \<open>The options in memory, whether the scheduler has a Redis store, and what it holds under the key of the
  global configuration.\<close>

record config_state =
  cm_sb :: sb_config
  cm_redis :: bool
  cm_saved :: "string option"

abbreviation JInt :: "int \<Rightarrow> json" where
  "JInt n \<equiv> JNum (format_int n)"

definition config_json :: "global_config \<Rightarrow> json" where
  "config_json g = JObj
    [(''small_bandwidth'', JObj [(''enabled'', JBool (gc_SmallBandwidth_Enabled g)), (''threshold_mbps'', JInt (gc_SmallBandwidth_Threshold g))]),
     (''p2p'', JObj [(''enabled'', JBool (gc_P2P_Enabled g)), (''discovery_interval_sec'', JInt (gc_P2P_DiscoveryIntervalSec g)),
        (''max_peers'', JInt (gc_P2P_MaxPeers g)), (''bandwidth_limit_mbps'', JInt (gc_P2P_BandwidthLimitMbps g))]),
     (''prefetch'', JObj [(''enabled'', JBool (gc_Prefetch_Enabled g)),
        (''night_mode'', JObj [(''start'', JStr (gc_Night_Start g)), (''end'', JStr (gc_Night_End g)),
           (''bandwidth_limit_mbps'', JInt (gc_Night_BandwidthLimitMbps g))]),
        (''day_mode'', JObj [(''bandwidth_limit_mbps'', JInt (gc_Day_BandwidthLimitMbps g)), (''min_priority'', JInt (gc_Day_MinPriority g))])]),
     (''origin_fetch'', JObj [(''bandwidth_percent'', JInt (gc_Origin_BandwidthPercent g)), (''max_concurrent'', JInt (gc_Origin_MaxConcurrent g)),
        (''timeout_sec'', JInt (gc_Origin_TimeoutSec g)),
        (''priority'', case gc_Origin_Priority g of None \<Rightarrow> JNull | Some ps \<Rightarrow> JArr (map JStr ps))])]"

definition sb_field :: "global_config \<Rightarrow> string \<Rightarrow> json \<Rightarrow> global_config \<times> bool" where
  "sb_field g k v =
    (if field_is ''enabled'' k then bool_field (\<lambda>x. g\<lparr>gc_SmallBandwidth_Enabled := x\<rparr>) g v
     else if field_is ''threshold_mbps'' k then int_field (\<lambda>x. g\<lparr>gc_SmallBandwidth_Threshold := x\<rparr>) g v
     else (g, True))"

definition p2p_field :: "global_config \<Rightarrow> string \<Rightarrow> json \<Rightarrow> global_config \<times> bool" where
  "p2p_field g k v =
    (if field_is ''enabled'' k then bool_field (\<lambda>x. g\<lparr>gc_P2P_Enabled := x\<rparr>) g v
     else if field_is ''discovery_interval_sec'' k then int_field (\<lambda>x. g\<lparr>gc_P2P_DiscoveryIntervalSec := x\<rparr>) g v
     else if field_is ''max_peers'' k then int_field (\<lambda>x. g\<lparr>gc_P2P_MaxPeers := x\<rparr>) g v
     else if field_is ''bandwidth_limit_mbps'' k then int_field (\<lambda>x. g\<lparr>gc_P2P_BandwidthLimitMbps := x\<rparr>) g v
     else (g, True))"

definition night_field :: "global_config \<Rightarrow> string \<Rightarrow> json \<Rightarrow> global_config \<times> bool" where
  "night_field g k v =
    (if field_is ''start'' k then str_field (\<lambda>x. g\<lparr>gc_Night_Start := x\<rparr>) g v
     else if field_is ''end'' k then str_field (\<lambda>x. g\<lparr>gc_Night_End := x\<rparr>) g v
     else if field_is ''bandwidth_limit_mbps'' k then int_field (\<lambda>x. g\<lparr>gc_Night_BandwidthLimitMbps := x\<rparr>) g v
     else (g, True))"

definition day_field :: "global_config \<Rightarrow> string \<Rightarrow> json \<Rightarrow> global_config \<times> bool" where
  "day_field g k v =
    (if field_is ''bandwidth_limit_mbps'' k then int_field (\<lambda>x. g\<lparr>gc_Day_BandwidthLimitMbps := x\<rparr>) g v
     else if field_is ''min_priority'' k then int_field (\<lambda>x. g\<lparr>gc_Day_MinPriority := x\<rparr>) g v
     else (g, True))"

definition prefetch_field :: "global_config \<Rightarrow> string \<Rightarrow> json \<Rightarrow> global_config \<times> bool" where
  "prefetch_field g k v =
    (if field_is ''enabled'' k then bool_field (\<lambda>x. g\<lparr>gc_Prefetch_Enabled := x\<rparr>) g v
     else if field_is ''night_mode'' k then struct_field night_field id g g v
     else if field_is ''day_mode'' k then struct_field day_field id g g v
     else (g, True))"

definition origin_fetch_field :: "global_config \<Rightarrow> string \<Rightarrow> json \<Rightarrow> global_config \<times> bool" where
  "origin_fetch_field g k v =
    (if field_is ''bandwidth_percent'' k then int_field (\<lambda>x. g\<lparr>gc_Origin_BandwidthPercent := x\<rparr>) g v
     else if field_is ''max_concurrent'' k then int_field (\<lambda>x. g\<lparr>gc_Origin_MaxConcurrent := x\<rparr>) g v
     else if field_is ''timeout_sec'' k then int_field (\<lambda>x. g\<lparr>gc_Origin_TimeoutSec := x\<rparr>) g v
     else if field_is ''priority'' k then
       (if v = JNull then (g\<lparr>gc_Origin_Priority := None\<rparr>, True)
        else strs_field (\<lambda>x. g\<lparr>gc_Origin_Priority := Some x\<rparr>) (case gc_Origin_Priority g of Some x \<Rightarrow> x | None \<Rightarrow> []) g v)
     else (g, True))"

definition config_field :: "global_config \<Rightarrow> string \<Rightarrow> json \<Rightarrow> global_config \<times> bool" where
  "config_field g k v =
    (if field_is ''small_bandwidth'' k then struct_field sb_field id g g v
     else if field_is ''p2p'' k then struct_field p2p_field id g g v
     else if field_is ''prefetch'' k then struct_field prefetch_field id g g v
     else if field_is ''origin_fetch'' k then struct_field origin_fetch_field id g g v
     else (g, True))"

definition zero_config :: global_config where
  "zero_config = \<lparr>gc_SmallBandwidth_Enabled = False, gc_SmallBandwidth_Threshold = 0, gc_P2P_Enabled = False, gc_P2P_DiscoveryIntervalSec = 0,
     gc_P2P_MaxPeers = 0, gc_P2P_BandwidthLimitMbps = 0, gc_Prefetch_Enabled = False, gc_Night_Start = [], gc_Night_End = [],
     gc_Night_BandwidthLimitMbps = 0, gc_Day_BandwidthLimitMbps = 0, gc_Day_MinPriority = 0, gc_Origin_BandwidthPercent = 0,
     gc_Origin_MaxConcurrent = 0, gc_Origin_TimeoutSec = 0, gc_Origin_Priority = None\<rparr>"

section \<open>Handlers\<close>

text \<open>The options as the interface shows them; what is not an option is a constant.\<close>

definition shown_config :: "sb_config \<Rightarrow> global_config" where
  "shown_config sb = \<lparr>gc_SmallBandwidth_Enabled = sb_Enabled sb, gc_SmallBandwidth_Threshold = sb_Threshold sb,
     gc_P2P_Enabled = sb_P2PEnabled sb, gc_P2P_DiscoveryIntervalSec = 60, gc_P2P_MaxPeers = 10, gc_P2P_BandwidthLimitMbps = 20,
     gc_Prefetch_Enabled = sb_PrefetchEnabled sb, gc_Night_Start = ''01:00'', gc_Night_End = ''07:00'',
     gc_Night_BandwidthLimitMbps = sb_PrefetchBandwidthLimit sb, gc_Day_BandwidthLimitMbps = sb_PrefetchBandwidthLimit sb, gc_Day_MinPriority = 8,
     gc_Origin_BandwidthPercent = 80, gc_Origin_MaxConcurrent = 5, gc_Origin_TimeoutSec = 30, gc_Origin_Priority = Some [''p2p'', ''origin'']\<rparr>"

datatype config_body = ConfigBody global_config | ConfigStatus string | Topology "(string \<times> string \<times> int \<times> bool \<times> string) list"
  | Dashboard int int int | Pushed int int "(string \<times> string option) multiset" | PlainError string

definition handleAdminGetConfig :: "config_state \<Rightarrow> config_body reply" where
  "handleAdminGetConfig st = Reply 200 (ConfigBody (shown_config (cm_sb st)))"

text \<open>\<open>ok\<close>: Redis takes the value; a failure is only logged.\<close>

definition save_config :: "bool \<Rightarrow> global_config \<Rightarrow> config_state \<Rightarrow> config_state" where
  "save_config ok g st = (if cm_redis st \<and> ok then st\<lparr>cm_saved := Some (json_print (config_json g))\<rparr> else st)"

definition handleAdminUpdateConfig :: "bool \<Rightarrow> http_request \<Rightarrow> config_state \<Rightarrow> config_state \<times> config_body reply" where
  "handleAdminUpdateConfig ok r st =
    (case first_value (length (rq_body r)) (rq_body r) of
       None \<Rightarrow> (st, Reply 400 (PlainError ''invalid request body''))
     | Some (v, _) \<Rightarrow>
        (case read_value config_field zero_config v of
           None \<Rightarrow> (st, Reply 400 (PlainError ''invalid request body''))
         | Some g \<Rightarrow>
            (let sb = (cm_sb st)\<lparr>sb_Enabled := gc_SmallBandwidth_Enabled g\<rparr>;
                 sb = (if gc_SmallBandwidth_Threshold g > 0 then sb\<lparr>sb_Threshold := gc_SmallBandwidth_Threshold g\<rparr> else sb);
                 sb = sb\<lparr>sb_P2PEnabled := gc_P2P_Enabled g, sb_PrefetchEnabled := gc_Prefetch_Enabled g\<rparr>
             in (save_config ok g (st\<lparr>cm_sb := sb\<rparr>), Reply 200 (ConfigStatus ''ok'')))))"

definition handleAdminApplyConfig :: "bool \<Rightarrow> config_state \<Rightarrow> config_state \<times> config_body reply" where
  "handleAdminApplyConfig ok st = (save_config ok (shown_config (cm_sb st)) st, Reply 200 (ConfigStatus ''applied''))"

text \<open>The next three ask the node cache at times \<open>t0, t1, t2\<close> and a database whose listing is given.\<close>

definition handleAdminP2PTopology :: "(nat \<Rightarrow> int) \<Rightarrow> pg_error + node list \<Rightarrow> config_state \<Rightarrow> node_cache \<Rightarrow> node_cache \<times> config_body reply" where
  "handleAdminP2PTopology clock listing st nc =
    (case GetActiveNodes (clock 0) (clock 1) (clock 2) listing nc of
       (nc, Inl _) \<Rightarrow> (nc, Reply 500 (PlainError ''internal error''))
     | (nc, Inr ns) \<Rightarrow> (nc, Reply 200 (Topology (map (\<lambda>n. (n_node_id n, n_name n, cap_max_uplink_mbps (n_capabilities n),
         cap_max_uplink_mbps (n_capabilities n) > 0 \<and> cap_max_uplink_mbps (n_capabilities n) < sb_Threshold (cm_sb st), status_string (n_status n))) ns))))"

definition handleAdminDashboard :: "(nat \<Rightarrow> int) \<Rightarrow> pg_error + node list \<Rightarrow> node_cache \<Rightarrow> node_cache \<times> config_body reply" where
  "handleAdminDashboard clock listing nc =
    (case GetActiveNodes (clock 0) (clock 1) (clock 2) listing nc of
       (nc, Inl _) \<Rightarrow> (nc, Reply 500 (PlainError ''internal error''))
     | (nc, Inr ns) \<Rightarrow> (nc, Reply 200 (Dashboard (int (length (filter (\<lambda>n. active_status (n_status n)) ns)))
         (int (length (filter (\<lambda>n. n_status n = Offline) ns))) (int (length ns)))))"

record prewarm_request =
  pw_Keys :: "string list"
  pw_NodeID :: string

definition prewarm_field :: "prewarm_request \<Rightarrow> string \<Rightarrow> json \<Rightarrow> prewarm_request \<times> bool" where
  "prewarm_field q k v =
    (if field_is ''keys'' k then strs_field (\<lambda>x. q\<lparr>pw_Keys := x\<rparr>) (pw_Keys q) q v
     else if field_is ''node_id'' k then str_field (\<lambda>x. q\<lparr>pw_NodeID := x\<rparr>) q v
     else (q, True))"

definition prewarm_target :: "prewarm_request \<Rightarrow> node \<Rightarrow> bool" where
  "prewarm_target q n \<longleftrightarrow> (pw_NodeID q = [] \<or> n_node_id n = pw_NodeID q) \<and> active_status (n_status n) \<and> n_endpoints n \<noteq> []"

text \<open>The pushes run at the same time; \<open>push\<close> says what the request to an address with a body gives, an error
  or an answer.  The results come in the order in which they end.\<close>

definition prewarm_push :: "(string \<Rightarrow> string \<Rightarrow> string option) \<Rightarrow> prewarm_request \<Rightarrow> node \<Rightarrow> string \<times> string option" where
  "prewarm_push push q n =
    (n_node_id n, push (endpoint_URL (hd (n_endpoints n)) @ ''/internal/push/prewarm'') (json_print (JObj [(''keys'', JArr (map JStr (pw_Keys q)))])))"

definition handleAdminPrewarm :: "bool \<Rightarrow> (string \<Rightarrow> string \<Rightarrow> string option) \<Rightarrow> (nat \<Rightarrow> int) \<Rightarrow> pg_error + node list \<Rightarrow> http_request \<Rightarrow> node_cache \<Rightarrow>
    node_cache \<times> config_body reply" where
  "handleAdminPrewarm readable push clock listing r nc =
    (if rq_method r \<noteq> ''POST'' then (nc, Reply 405 (PlainError ''method not allowed''))
     else if \<not> readable then (nc, Reply 400 (PlainError ''read body failed''))
     else case read_struct prewarm_field \<lparr>pw_Keys = [], pw_NodeID = []\<rparr> (rq_body r) of
       None \<Rightarrow> (nc, Reply 400 (PlainError ''invalid request''))
     | Some q \<Rightarrow>
        if pw_Keys q = [] then (nc, Reply 400 (PlainError ''invalid request''))
        else case GetActiveNodes (clock 0) (clock 1) (clock 2) listing nc of
          (nc, Inl _) \<Rightarrow> (nc, Reply 500 (PlainError ''internal error''))
        | (nc, Inr ns) \<Rightarrow>
           (let results = image_mset (prewarm_push push q) (mset (filter (prewarm_target q) ns))
            in (nc, Reply 200 (Pushed (int (length (pw_Keys q))) (int (size results)) results))))"

section \<open>The configuration survives the round trip\<close>

definition config_ok :: "global_config \<Rightarrow> bool" where
  "config_ok g \<longleftrightarrow> list_all is_i64 [gc_SmallBandwidth_Threshold g, gc_P2P_DiscoveryIntervalSec g, gc_P2P_MaxPeers g, gc_P2P_BandwidthLimitMbps g,
     gc_Night_BandwidthLimitMbps g, gc_Day_BandwidthLimitMbps g, gc_Day_MinPriority g, gc_Origin_BandwidthPercent g, gc_Origin_MaxConcurrent g, gc_Origin_TimeoutSec g] \<and>
     valid_utf8 (gc_Night_Start g) \<and> valid_utf8 (gc_Night_End g) \<and> (case gc_Origin_Priority g of None \<Rightarrow> True | Some ps \<Rightarrow> list_all valid_utf8 ps)"

lemma config_names: "list_all plain_name [''small_bandwidth'', ''enabled'', ''threshold_mbps'', ''p2p'', ''discovery_interval_sec'', ''max_peers'', ''bandwidth_limit_mbps'',
   ''prefetch'', ''night_mode'', ''start'', ''end'', ''day_mode'', ''min_priority'', ''origin_fetch'', ''bandwidth_percent'', ''max_concurrent'', ''timeout_sec'', ''priority'']"
  by (simp add: plain_name_def is_digit_def Let_def)

lemma read_sections:
  assumes "config_ok g"
  shows "config_field g0 ''small_bandwidth'' (JObj [(''enabled'', JBool (gc_SmallBandwidth_Enabled g)), (''threshold_mbps'', JInt (gc_SmallBandwidth_Threshold g))]) =
      (g0\<lparr>gc_SmallBandwidth_Enabled := gc_SmallBandwidth_Enabled g, gc_SmallBandwidth_Threshold := gc_SmallBandwidth_Threshold g\<rparr>, True)"
    "config_field g0 ''p2p'' (JObj [(''enabled'', JBool (gc_P2P_Enabled g)), (''discovery_interval_sec'', JInt (gc_P2P_DiscoveryIntervalSec g)),
        (''max_peers'', JInt (gc_P2P_MaxPeers g)), (''bandwidth_limit_mbps'', JInt (gc_P2P_BandwidthLimitMbps g))]) =
      (g0\<lparr>gc_P2P_Enabled := gc_P2P_Enabled g, gc_P2P_DiscoveryIntervalSec := gc_P2P_DiscoveryIntervalSec g, gc_P2P_MaxPeers := gc_P2P_MaxPeers g,
         gc_P2P_BandwidthLimitMbps := gc_P2P_BandwidthLimitMbps g\<rparr>, True)"
    "config_field g0 ''prefetch'' (JObj [(''enabled'', JBool (gc_Prefetch_Enabled g)),
        (''night_mode'', JObj [(''start'', JStr (gc_Night_Start g)), (''end'', JStr (gc_Night_End g)),
           (''bandwidth_limit_mbps'', JInt (gc_Night_BandwidthLimitMbps g))]),
        (''day_mode'', JObj [(''bandwidth_limit_mbps'', JInt (gc_Day_BandwidthLimitMbps g)), (''min_priority'', JInt (gc_Day_MinPriority g))])]) =
      (g0\<lparr>gc_Prefetch_Enabled := gc_Prefetch_Enabled g, gc_Night_Start := gc_Night_Start g, gc_Night_End := gc_Night_End g,
         gc_Night_BandwidthLimitMbps := gc_Night_BandwidthLimitMbps g, gc_Day_BandwidthLimitMbps := gc_Day_BandwidthLimitMbps g,
         gc_Day_MinPriority := gc_Day_MinPriority g\<rparr>, True)"
    "config_field g0 ''origin_fetch'' (JObj [(''bandwidth_percent'', JInt (gc_Origin_BandwidthPercent g)), (''max_concurrent'', JInt (gc_Origin_MaxConcurrent g)),
        (''timeout_sec'', JInt (gc_Origin_TimeoutSec g)),
        (''priority'', case gc_Origin_Priority g of None \<Rightarrow> JNull | Some ps \<Rightarrow> JArr (map JStr ps))]) =
      (g0\<lparr>gc_Origin_BandwidthPercent := gc_Origin_BandwidthPercent g, gc_Origin_MaxConcurrent := gc_Origin_MaxConcurrent g,
         gc_Origin_TimeoutSec := gc_Origin_TimeoutSec g, gc_Origin_Priority := gc_Origin_Priority g\<rparr>, True)"
  using assms config_names
  by (simp_all add: config_ok_def config_field_def struct_field_def read_member_def sb_field_def p2p_field_def prefetch_field_def night_field_def
      day_field_def origin_fetch_field_def bool_field_def split: option.splits)

lemma read_config: "config_ok g \<Longrightarrow> read_value config_field zero_config (config_json g) = Some g"
  unfolding config_json_def read_value_def json.case foldl.simps read_member_def fst_conv snd_conv prod.case
  by (simp add: read_sections zero_config_def)

lemma config_json_ok: "config_ok g \<Longrightarrow> json_ok 10000 (config_json g)"
  using config_names by (auto simp: config_ok_def config_json_def utf8_plain list_all_iff split: option.splits)

text \<open>What the update handler persists is what it was sent, and the options it set are what \<open>GET\<close> shows.\<close>

lemma config_persisted:
  assumes "config_ok g" "cm_redis st" "rq_body r = json_print (config_json g)" "handleAdminUpdateConfig True r st = (st', rep)"
  shows "(\<exists>t. cm_saved st' = Some t \<and> read_struct config_field zero_config t = Some g) \<and> status_code rep = 200 \<and>
    gc_SmallBandwidth_Enabled (shown_config (cm_sb st')) = gc_SmallBandwidth_Enabled g \<and>
    gc_P2P_Enabled (shown_config (cm_sb st')) = gc_P2P_Enabled g \<and> gc_Prefetch_Enabled (shown_config (cm_sb st')) = gc_Prefetch_Enabled g \<and>
    gc_SmallBandwidth_Threshold (shown_config (cm_sb st')) =
      (if gc_SmallBandwidth_Threshold g > 0 then gc_SmallBandwidth_Threshold g else sb_Threshold (cm_sb st))"
proof -
  note pp = json_parse_print [OF config_json_ok [OF assms(1)]]
  then obtain rest where f: "first_value (length (rq_body r)) (rq_body r) = Some (config_json g, rest)"
    unfolding json_parse_def first_value_def Let_def assms(3)
    by (auto simp del: parse_val.simps split: option.splits prod.splits if_splits)
  have "read_struct config_field zero_config (json_print (config_json g)) = Some g"
    using pp read_config [OF assms(1)] by (simp add: read_struct_def)
  then show ?thesis using assms(2,4) f read_config [OF assms(1)]
    by (auto simp: handleAdminUpdateConfig_def save_config_def Let_def shown_config_def)
qed

end
