(* ===== verification/Console.thy ===== *)
theory Console
  imports Admin_Session Go_Time Config_Manager
begin

text \<open>
  The admin console of \<open>internal/controlplane/admin_api.go\<close>: its state, the sessions of its users, and the
  handlers of tenants, projects and users.  Every handler takes the outcomes of its statements
  (\<open>console_env\<close>), the request as the session middleware passes it on, and the state.  The package
  bcrypt is a parameter: \<open>ce_hash\<close> and \<open>ce_compare\<close>.
\<close>

section \<open>State\<close>

record console_config =
  cc_EnableOIDC :: bool
  cc_OIDCProviderURL :: string
  cc_OIDCClientID :: string
  cc_EnableLocalAuth :: bool
  cc_GrafanaURL :: string
  cc_PrometheusURL :: string
  cc_LokiURL :: string
  cc_IPAllowlist :: "string list"

record console =
  con_store :: admin_store
  con_ctl :: control_state
  con_cfg :: console_config
  con_jwt :: jwt_session
  con_login :: rate_limiter
  con_settings :: "string option"
  con_config :: "config_state option"

record console_env =
  ce_db :: "nat \<Rightarrow> bool"
  ce_redis :: "nat \<Rightarrow> bool"
  ce_now :: "nat \<Rightarrow> int"
  ce_uid :: "nat \<Rightarrow> string"
  ce_serial :: int
  ce_jsonb :: "json \<Rightarrow> json option"
  ce_random :: "byte list option"
  ce_compare :: "string \<Rightarrow> string \<Rightarrow> bool"
  ce_hash :: "string \<Rightarrow> string option"
  ce_audit :: bool
  ce_format :: "int \<Rightarrow> string"

record login_response =
  lr_Token :: string
  lr_RefreshToken :: string
  lr_User :: user
  lr_ExpiresAt :: int
  lr_Roles :: "role_binding list"
  lr_MustChange :: bool

record 'd paginated =
  pg_Data :: "'d list"
  pg_Total :: int
  pg_Limit :: int
  pg_Offset :: int
  pg_HasMore :: bool

record topology_node =
  tn_NodeID :: string
  tn_NodeName :: string
  tn_BandwidthMbps :: int
  tn_IsSmallBandwidth :: bool
  tn_Status :: string

record admin_config =
  st_OIDCEnabled :: bool
  st_OIDCProviderURL :: string
  st_OIDCClientID :: string
  st_LocalAuthEnabled :: bool
  st_ReadOnlyMode :: bool
  st_IPAllowlist :: "string list"
  st_GrafanaURL :: string
  st_PrometheusURL :: string
  st_LokiURL :: string

datatype console_body =
    LoginBody login_response | TokenBody string int string | StatusBody "(string \<times> string) list"
  | UserBody user | UsersBody "user list" | TenantBody tenant | TenantsBody "tenant list"
  | ProjectBody project | ProjectsBody "project list" | PolicyBody admin_policy | PoliciesBody "admin_policy list"
  | VersionsBody "policy_version list" | IngressBody ingress | IngressesBody "ingress list"
  | TaskBody task | TasksBody "task paginated" | NodesBody "node paginated" | ConsoleNode node | CredentialBody string string
  | AuditBody "audit_event paginated" | AuditJson "audit_event list" | AuditCsv string
  | DashboardBody "int \<times> int \<times> int" | TopologyBody "topology_node list" | SettingsBody admin_config
  | FromConfig config_body

type_synonym handler = "console_env \<Rightarrow> http_request \<Rightarrow> console \<Rightarrow> console \<times> console_body reply"

section \<open>Helpers\<close>

definition set_store :: "admin_store \<Rightarrow> console \<Rightarrow> console" where
  "set_store s c = c\<lparr>con_store := s\<rparr>"

definition json_content :: "http_request \<Rightarrow> bool" where
  "json_content r \<longleftrightarrow> header r ''Content-Type'' = [] \<or> prefix ''application/json'' (header r ''Content-Type'')"

definition unsupported :: "console_body reply" where
  "unsupported = Error 415 ''UNSUPPORTED_MEDIA_TYPE'' ''Content-Type must be application/json''"

definition bad_body :: "console_body reply" where
  "bad_body = Error 400 ''BAD_REQUEST'' ''invalid request body''"

text \<open>The handlers that read a body start alike.\<close>

definition read_body :: "('a \<Rightarrow> string \<Rightarrow> json \<Rightarrow> 'a \<times> bool) \<Rightarrow> 'a \<Rightarrow> http_request \<Rightarrow> console_body reply + 'a" where
  "read_body rd zero r =
    (if \<not> json_content r then Inl unsupported
     else case decode_first rd zero r of None \<Rightarrow> Inl bad_body | Some x \<Rightarrow> Inr x)"

text \<open>A failing audit statement is only logged.\<close>

definition audit :: "console_env \<Rightarrow> http_request \<Rightarrow> string \<Rightarrow> string \<Rightarrow> string \<Rightarrow> console \<Rightarrow> console" where
  "audit env r action resourceType resourceID c =
    set_store (fst (CreateAuditEvent (ce_audit env) (ce_now env 9) (ce_serial env) (ce_jsonb env)
      \<lparr>ae_ID = 0, ae_TenantID = header r ''X-Actor-TenantId'', ae_ProjectID = [], ae_ActorID = header r ''X-Actor-UserId'',
       ae_ActorEmail = header r ''X-Actor-Email'', ae_Action = action, ae_ResourceType = resourceType, ae_ResourceID = resourceID,
       ae_Before = None, ae_After = None, ae_RequestID = header r ''X-Request-Id'', ae_SourceIP = clientIP r,
       ae_UserAgent = header r ''User-Agent'', ae_Result = ''success'', ae_CreatedAt = 0\<rparr> (con_store c))) c"

definition sha256Hash :: "string \<Rightarrow> string" where
  "sha256Hash s = hex_encode (sha256 (bytes_of s))"

definition ipAllowlistMiddleware :: "http_request \<Rightarrow> console \<Rightarrow> console_body reply option" where
  "ipAllowlistMiddleware r c =
    (let allowlist = cc_IPAllowlist (con_cfg c) in
     if allowlist = [] \<or> clientIP r \<in> set allowlist then None
     else Some (Error 403 ''FORBIDDEN'' ''access denied by IP allowlist''))"

section \<open>Request bodies\<close>

text \<open>Times are read as RFC 3339 texts.\<close>

definition time_field :: "(int \<Rightarrow> 'a) \<Rightarrow> 'a \<Rightarrow> json \<Rightarrow> 'a \<times> bool" where
  "time_field put p v =
    (case v of JStr s \<Rightarrow> (case parse_rfc3339 False s of Some t \<Rightarrow> (put t, True) | None \<Rightarrow> (p, False))
     | JNull \<Rightarrow> (p, True) | _ \<Rightarrow> (p, False))"

text \<open>\<open>json.RawMessage\<close> takes any value, also \<open>null\<close>; a pointer is nil on \<open>null\<close>.\<close>

definition raw_field :: "(json option \<Rightarrow> 'a) \<Rightarrow> json \<Rightarrow> 'a \<times> bool" where
  "raw_field put v = (put (Some v), True)"

definition ptr_field :: "(('b \<Rightarrow> 'a) \<Rightarrow> 'a \<Rightarrow> json \<Rightarrow> 'a \<times> bool) \<Rightarrow> ('b option \<Rightarrow> 'a) \<Rightarrow> 'a \<Rightarrow> json \<Rightarrow> 'a \<times> bool" where
  "ptr_field rd put p v = (if v = JNull then (put None, True) else rd (\<lambda>x. put (Some x)) p v)"

record login_request =
  lq_Email :: string
  lq_Password :: string

definition login_field :: "login_request \<Rightarrow> string \<Rightarrow> json \<Rightarrow> login_request \<times> bool" where
  "login_field q k v =
    (if field_is ''email'' k then str_field (\<lambda>x. q\<lparr>lq_Email := x\<rparr>) q v
     else if field_is ''password'' k then str_field (\<lambda>x. q\<lparr>lq_Password := x\<rparr>) q v else (q, True))"

definition refresh_field :: "string \<Rightarrow> string \<Rightarrow> json \<Rightarrow> string \<times> bool" where
  "refresh_field q k v = (if field_is ''refresh_token'' k then str_field (\<lambda>x. x) q v else (q, True))"

record password_request =
  pq_CurrentPassword :: string
  pq_NewPassword :: string

definition password_field :: "password_request \<Rightarrow> string \<Rightarrow> json \<Rightarrow> password_request \<times> bool" where
  "password_field q k v =
    (if field_is ''current_password'' k then str_field (\<lambda>x. q\<lparr>pq_CurrentPassword := x\<rparr>) q v
     else if field_is ''new_password'' k then str_field (\<lambda>x. q\<lparr>pq_NewPassword := x\<rparr>) q v else (q, True))"

definition tenant_field :: "tenant \<Rightarrow> string \<Rightarrow> json \<Rightarrow> tenant \<times> bool" where
  "tenant_field t k v =
    (if field_is ''created_at'' k then time_field (\<lambda>x. t\<lparr>tn_CreatedAt := x\<rparr>) t v
     else if field_is ''updated_at'' k then time_field (\<lambda>x. t\<lparr>tn_UpdatedAt := x\<rparr>) t v
     else if field_is ''tenant_id'' k then str_field (\<lambda>x. t\<lparr>tn_TenantID := x\<rparr>) t v
     else if field_is ''name'' k then str_field (\<lambda>x. t\<lparr>tn_Name := x\<rparr>) t v
     else if field_is ''description'' k then str_field (\<lambda>x. t\<lparr>tn_Description := x\<rparr>) t v else (t, True))"

definition zero_tenant :: tenant where
  "zero_tenant = \<lparr>tn_TenantID = [], tn_Name = [], tn_Description = [], tn_CreatedAt = time_zero, tn_UpdatedAt = time_zero\<rparr>"

definition project_field :: "project \<Rightarrow> string \<Rightarrow> json \<Rightarrow> project \<times> bool" where
  "project_field p k v =
    (if field_is ''created_at'' k then time_field (\<lambda>x. p\<lparr>pj_CreatedAt := x\<rparr>) p v
     else if field_is ''updated_at'' k then time_field (\<lambda>x. p\<lparr>pj_UpdatedAt := x\<rparr>) p v
     else if field_is ''project_id'' k then str_field (\<lambda>x. p\<lparr>pj_ProjectID := x\<rparr>) p v
     else if field_is ''tenant_id'' k then str_field (\<lambda>x. p\<lparr>pj_TenantID := x\<rparr>) p v
     else if field_is ''name'' k then str_field (\<lambda>x. p\<lparr>pj_Name := x\<rparr>) p v
     else if field_is ''description'' k then str_field (\<lambda>x. p\<lparr>pj_Description := x\<rparr>) p v else (p, True))"

definition zero_project :: project where
  "zero_project = \<lparr>pj_ProjectID = [], pj_TenantID = [], pj_Name = [], pj_Description = [], pj_CreatedAt = time_zero, pj_UpdatedAt = time_zero\<rparr>"

definition role_field :: "role_binding \<Rightarrow> string \<Rightarrow> json \<Rightarrow> role_binding \<times> bool" where
  "role_field b k v =
    (if field_is ''role'' k then str_field (\<lambda>x. b\<lparr>rb_Role := x\<rparr>) b v
     else if field_is ''tenant_id'' k then str_field (\<lambda>x. b\<lparr>rb_TenantID := x\<rparr>) b v
     else if field_is ''project_id'' k then str_field (\<lambda>x. b\<lparr>rb_ProjectID := x\<rparr>) b v else (b, True))"

definition zero_role :: role_binding where
  "zero_role = \<lparr>rb_Role = [], rb_TenantID = [], rb_ProjectID = []\<rparr>"

record user_request =
  uq_TenantID :: string
  uq_Email :: string
  uq_DisplayName :: string
  uq_Password :: string
  uq_Roles :: "role_binding list option"

text \<open>A slice that is nil until the field occurs.\<close>

definition roles_field :: "(role_binding list option \<Rightarrow> 'a) \<Rightarrow> role_binding list option \<Rightarrow> 'a \<Rightarrow> json \<Rightarrow> 'a \<times> bool" where
  "roles_field put old p v =
    (if v = JNull then (put None, True)
     else slice_field role_field zero_role (\<lambda>x. put (Some x)) (case old of Some x \<Rightarrow> x | None \<Rightarrow> []) p v)"

definition user_field :: "user_request \<Rightarrow> string \<Rightarrow> json \<Rightarrow> user_request \<times> bool" where
  "user_field q k v =
    (if field_is ''tenant_id'' k then str_field (\<lambda>x. q\<lparr>uq_TenantID := x\<rparr>) q v
     else if field_is ''email'' k then str_field (\<lambda>x. q\<lparr>uq_Email := x\<rparr>) q v
     else if field_is ''display_name'' k then str_field (\<lambda>x. q\<lparr>uq_DisplayName := x\<rparr>) q v
     else if field_is ''password'' k then str_field (\<lambda>x. q\<lparr>uq_Password := x\<rparr>) q v
     else if field_is ''roles'' k then roles_field (\<lambda>x. q\<lparr>uq_Roles := x\<rparr>) (uq_Roles q) q v else (q, True))"

definition user_update_field :: "user_request \<Rightarrow> string \<Rightarrow> json \<Rightarrow> user_request \<times> bool" where
  "user_update_field q k v =
    (if field_is ''display_name'' k then str_field (\<lambda>x. q\<lparr>uq_DisplayName := x\<rparr>) q v
     else if field_is ''roles'' k then roles_field (\<lambda>x. q\<lparr>uq_Roles := x\<rparr>) (uq_Roles q) q v else (q, True))"

definition zero_user_request :: user_request where
  "zero_user_request = \<lparr>uq_TenantID = [], uq_Email = [], uq_DisplayName = [], uq_Password = [], uq_Roles = None\<rparr>"

section \<open>Sessions\<close>

definition issue_tokens :: "console_env \<Rightarrow> user \<Rightarrow> console \<Rightarrow> (string \<times> int) \<times> string option" where
  "issue_tokens env u c =
    (jwt_Sign (con_jwt c) (ce_now env 1 div 1000000000) (us_UserID u) (us_TenantID u) (us_Email u), GenerateRefreshToken (ce_random env))"

definition store_refresh :: "console_env \<Rightarrow> string \<Rightarrow> string \<Rightarrow> console \<Rightarrow> console" where
  "store_refresh env userID hash c =
    set_store (fst (UpdateUserRefreshToken (ce_db env 2) (ce_now env 2) userID hash (con_store c))) c"

definition handleLogin :: handler where
  "handleLogin env r c =
    (case Allow (ce_now env 0) (con_login c) of (rl, ok) \<Rightarrow>
      (let c = c\<lparr>con_login := rl\<rparr> in
       if \<not> ok then (c, Error 429 ''RATE_LIMITED'' ''too many login attempts, try again later'')
       else if \<not> cc_EnableLocalAuth (con_cfg c) then (c, Error 403 ''LOCAL_AUTH_DISABLED'' ''local authentication is disabled'')
       else case read_body login_field \<lparr>lq_Email = [], lq_Password = []\<rparr> r of
         Inl e \<Rightarrow> (c, e)
       | Inr req \<Rightarrow>
          (case GetUserByEmail (ce_db env 0) (lq_Email req) (con_store c) of
             Inl _ \<Rightarrow> (c, Error 401 ''INVALID_CREDENTIALS'' ''invalid email or password'')
           | Inr (u, passwordHash) \<Rightarrow>
              if \<not> ce_compare env passwordHash (lq_Password req) then (c, Error 401 ''INVALID_CREDENTIALS'' ''invalid email or password'')
              else case issue_tokens env u c of
                (_, None) \<Rightarrow> (c, Error 500 ''AUTH_FAILED'' ''failed to create refresh token'')
              | ((token, e), Some refreshToken) \<Rightarrow>
                 (let c = store_refresh env (us_UserID u) (sha256Hash refreshToken) c;
                      c = audit env r ''auth.login'' ''user'' (us_UserID u) c
                  in (c, Reply 200 (LoginBody \<lparr>lr_Token = token, lr_RefreshToken = refreshToken, lr_User = u, lr_ExpiresAt = e,
                    lr_Roles = us_Roles u, lr_MustChange = us_MustChange u\<rparr>))))))"

definition handleRefresh :: handler where
  "handleRefresh env r c =
    (case read_body refresh_field [] r of
       Inl e \<Rightarrow> (c, e)
     | Inr refreshToken \<Rightarrow>
        if refreshToken = [] then (c, Error 400 ''BAD_REQUEST'' ''refresh_token is required'')
        else case GetUserIDByRefreshToken (ce_db env 0) (sha256Hash refreshToken) (con_store c) of
          Inl _ \<Rightarrow> (c, Error 401 ''INVALID_REFRESH_TOKEN'' ''invalid refresh token'')
        | Inr userID \<Rightarrow>
           (case GetUser (ce_db env 1) userID (con_store c) of
              Inl _ \<Rightarrow> (c, Error 401 ''INVALID_REFRESH_TOKEN'' ''invalid refresh token'')
            | Inr u \<Rightarrow>
               (case issue_tokens env u c of
                  (_, None) \<Rightarrow> (c, Error 500 ''AUTH_FAILED'' ''failed to create refresh token'')
                | ((token, e), Some newRefreshToken) \<Rightarrow>
                   (store_refresh env (us_UserID u) (sha256Hash newRefreshToken) c, Reply 200 (TokenBody token e newRefreshToken)))))"

definition handleLogout :: handler where
  "handleLogout env r c =
    (let actorID = header r ''X-Actor-UserId'';
         c = store_refresh env actorID [] c
     in (audit env r ''auth.logout'' ''user'' actorID c, Reply 200 (StatusBody [(''status'', ''logged_out'')])))"

definition handleMe :: handler where
  "handleMe env r c =
    (let actorID = header r ''X-Actor-UserId'' in
     if actorID = [] then (c, Error 401 ''UNAUTHORIZED'' ''user id not found'')
     else case GetUser (ce_db env 0) actorID (con_store c) of
       Inl _ \<Rightarrow> (c, Error 404 ''NOT_FOUND'' ''user not found'')
     | Inr u \<Rightarrow> (c, Reply 200 (UserBody u)))"

definition handleChangePassword :: handler where
  "handleChangePassword env r c =
    (let actorID = header r ''X-Actor-UserId'' in
     if actorID = [] then (c, Error 401 ''UNAUTHORIZED'' ''user id not found'')
     else case read_body password_field \<lparr>pq_CurrentPassword = [], pq_NewPassword = []\<rparr> r of
       Inl e \<Rightarrow> (c, e)
     | Inr req \<Rightarrow>
        if length (pq_NewPassword req) < 8 then (c, Error 400 ''WEAK_PASSWORD'' ''new password must be at least 8 characters'')
        else if length (pq_NewPassword req) > 72 then (c, Error 400 ''PASSWORD_TOO_LONG'' ''password must be at most 72 characters'')
        else case GetUserPasswordHash (ce_db env 0) actorID (con_store c) of
          Inl _ \<Rightarrow> (c, Error 500 ''AUTH_FAILED'' ''failed to verify current password'')
        | Inr currentHash \<Rightarrow>
           if \<not> ce_compare env currentHash (pq_CurrentPassword req) then (c, Error 400 ''WRONG_PASSWORD'' ''current password is incorrect'')
           else case ce_hash env (pq_NewPassword req) of
             None \<Rightarrow> (c, Error 500 ''AUTH_FAILED'' ''failed to hash new password'')
           | Some hash \<Rightarrow>
              (case UpdateUserPassword (ce_db env 1) (ce_now env 1) actorID hash (con_store c) of
                 (s, Some _) \<Rightarrow> (set_store s c, Error 500 ''UPDATE_FAILED'' ''failed to update password'')
               | (s, None) \<Rightarrow> (set_store s c, Reply 200 (StatusBody [(''status'', ''password_changed'')]))))"

definition handleAdminHealthz :: handler where
  "handleAdminHealthz env r c = (c, Reply 200 (StatusBody [(''status'', ''ok''), (''time'', ce_format env (ce_now env 0))]))"

section \<open>The shapes the handlers share\<close>

text \<open>Creating a row, listing rows, getting one, deleting one.  \<open>entry\<close> is the audit entry: action, type of the
  resource and its identifier.\<close>

definition created :: "console_env \<Rightarrow> http_request \<Rightarrow> string \<times> string \<Rightarrow> ('r \<Rightarrow> string) \<Rightarrow> ('r \<Rightarrow> console_body) \<Rightarrow> string \<Rightarrow>
    admin_store \<times> (admin_error + 'r) \<Rightarrow> console \<Rightarrow> console \<times> console_body reply" where
  "created env r entry key body msg res c =
    (case res of
       (s, Inl _) \<Rightarrow> (set_store s c, Error 500 ''CREATE_FAILED'' msg)
     | (s, Inr x) \<Rightarrow> (audit env r (fst entry) (snd entry) (key x) (set_store s c), Reply 201 (body x)))"

definition changed :: "console_env \<Rightarrow> http_request \<Rightarrow> string \<times> string \<times> string \<Rightarrow> console_body \<Rightarrow> string \<Rightarrow> string \<Rightarrow>
    admin_store \<times> admin_error option \<Rightarrow> console \<Rightarrow> console \<times> console_body reply" where
  "changed env r entry body code msg res c =
    (case res of
       (s, Some _) \<Rightarrow> (set_store s c, Error 500 code msg)
     | (s, None) \<Rightarrow> (audit env r (fst entry) (fst (snd entry)) (snd (snd entry)) (set_store s c), Reply 200 body))"

definition found :: "('r \<Rightarrow> console_body) \<Rightarrow> string \<Rightarrow> admin_error + 'r \<Rightarrow> console_body reply" where
  "found body msg res = (case res of Inl _ \<Rightarrow> Error 404 ''NOT_FOUND'' msg | Inr x \<Rightarrow> Reply 200 (body x))"

definition listed :: "('r \<Rightarrow> console_body) \<Rightarrow> string \<Rightarrow> admin_error + 'r \<Rightarrow> console_body reply" where
  "listed body msg res = (case res of Inl _ \<Rightarrow> Error 500 ''LIST_FAILED'' msg | Inr x \<Rightarrow> Reply 200 (body x))"

text \<open>An update checks the content type, reads the row, then the body.\<close>

definition updating :: "('a \<Rightarrow> string \<Rightarrow> json \<Rightarrow> 'a \<times> bool) \<Rightarrow> 'a \<Rightarrow> http_request \<Rightarrow> string \<Rightarrow> admin_error + 'r \<Rightarrow> console_body reply + 'r \<times> 'a" where
  "updating rd zero r msg existing =
    (if \<not> json_content r then Inl unsupported
     else case existing of Inl _ \<Rightarrow> Inl (Error 404 ''NOT_FOUND'' msg)
     | Inr x \<Rightarrow> (case decode_first rd zero r of None \<Rightarrow> Inl bad_body | Some u \<Rightarrow> Inr (x, u)))"

abbreviation unless_empty :: "string \<Rightarrow> string \<Rightarrow> string" where
  "unless_empty new old \<equiv> if new \<noteq> [] then new else old"

section \<open>Tenants\<close>

definition handleCreateTenant :: handler where
  "handleCreateTenant env r c =
    (case read_body tenant_field zero_tenant r of
       Inl e \<Rightarrow> (c, e)
     | Inr t \<Rightarrow>
        (let t = t\<lparr>tn_Name := trim_space (tn_Name t)\<rparr> in
         if tn_Name t = [] then (c, Error 400 ''BAD_REQUEST'' ''name is required'')
         else created env r (''policy.create'', ''tenant'') tn_TenantID TenantBody ''failed to create tenant''
           (CreateTenant (ce_db env 0) (ce_now env 0) (ce_uid env 0) t (con_store c)) c))"

definition handleListTenants :: handler where
  "handleListTenants env r c = (c, listed TenantsBody ''failed to list tenants'' (ListTenants (ce_db env 0) (con_store c)))"

definition handleGetTenant :: "string \<Rightarrow> handler" where
  "handleGetTenant tenantID env r c = (c, found TenantBody ''tenant not found'' (GetTenant (ce_db env 0) tenantID (con_store c)))"

definition handleUpdateTenant :: "string \<Rightarrow> handler" where
  "handleUpdateTenant tenantID env r c =
    (case updating tenant_field zero_tenant r ''tenant not found'' (GetTenant (ce_db env 0) tenantID (con_store c)) of
       Inl e \<Rightarrow> (c, e)
     | Inr (t, u) \<Rightarrow>
        (let t = t\<lparr>tn_Name := unless_empty (tn_Name u) (tn_Name t), tn_Description := unless_empty (tn_Description u) (tn_Description t)\<rparr> in
         changed env r (''policy.update'', ''tenant'', tenantID) (TenantBody t) ''UPDATE_FAILED'' ''failed to update tenant''
           (UpdateTenant (ce_db env 1) (ce_now env 1) t (con_store c)) c))"

definition handleDeleteTenant :: "string \<Rightarrow> handler" where
  "handleDeleteTenant tenantID env r c =
    changed env r (''policy.update'', ''tenant'', tenantID) (StatusBody [(''status'', ''deleted'')]) ''DELETE_FAILED'' ''failed to delete tenant''
      (DeleteTenant (ce_db env 0) tenantID (con_store c)) c"

definition handleListUsers :: "string \<Rightarrow> handler" where
  "handleListUsers tenantID env r c = (c, listed UsersBody ''failed to list users'' (ListUsers (ce_db env 0) tenantID (con_store c)))"

section \<open>Projects\<close>

definition handleCreateProject :: "string \<Rightarrow> handler" where
  "handleCreateProject tenantID env r c =
    (case read_body project_field zero_project r of
       Inl e \<Rightarrow> (c, e)
     | Inr p \<Rightarrow>
        (let p = p\<lparr>pj_TenantID := tenantID, pj_Name := trim_space (pj_Name p)\<rparr> in
         if pj_Name p = [] then (c, Error 400 ''BAD_REQUEST'' ''name is required'')
         else created env r (''policy.create'', ''project'') pj_ProjectID ProjectBody ''failed to create project''
           (CreateProject (ce_db env 0) (ce_now env 0) (ce_uid env 0) p (con_store c)) c))"

definition handleListProjects :: "string \<Rightarrow> handler" where
  "handleListProjects tenantID env r c = (c, listed ProjectsBody ''failed to list projects'' (ListProjects (ce_db env 0) tenantID (con_store c)))"

definition handleGetProject :: "string \<Rightarrow> handler" where
  "handleGetProject projectID env r c = (c, found ProjectBody ''project not found'' (GetProject (ce_db env 0) projectID (con_store c)))"

definition handleUpdateProject :: "string \<Rightarrow> handler" where
  "handleUpdateProject projectID env r c =
    (case updating project_field zero_project r ''project not found'' (GetProject (ce_db env 0) projectID (con_store c)) of
       Inl e \<Rightarrow> (c, e)
     | Inr (p, u) \<Rightarrow>
        (let p = p\<lparr>pj_Name := unless_empty (pj_Name u) (pj_Name p), pj_Description := unless_empty (pj_Description u) (pj_Description p)\<rparr> in
         changed env r (''policy.update'', ''project'', projectID) (ProjectBody p) ''UPDATE_FAILED'' ''failed to update project''
           (UpdateProject (ce_db env 1) (ce_now env 1) p (con_store c)) c))"

definition handleDeleteProject :: "string \<Rightarrow> handler" where
  "handleDeleteProject projectID env r c =
    changed env r (''policy.update'', ''project'', projectID) (StatusBody [(''status'', ''deleted'')]) ''DELETE_FAILED'' ''failed to delete project''
      (DeleteProject (ce_db env 0) projectID (con_store c)) c"

section \<open>Users\<close>

definition handleCreateUser :: handler where
  "handleCreateUser env r c =
    (case read_body user_field zero_user_request r of
       Inl e \<Rightarrow> (c, e)
     | Inr body \<Rightarrow>
        (let email = trim_space (uq_Email body) in
         if email = [] \<or> uq_Password body = [] then (c, Error 400 ''BAD_REQUEST'' ''email and password are required'')
         else if length (uq_Password body) > 72 then (c, Error 400 ''BAD_REQUEST'' ''password must be at most 72 bytes'')
         else case ce_hash env (uq_Password body) of
           None \<Rightarrow> (c, Error 500 ''CREATE_FAILED'' ''failed to hash password'')
         | Some hash \<Rightarrow>
            created env r (''user.create'', ''user'') us_UserID UserBody ''failed to create user''
              (CreateUser (ce_db env 0) (ce_now env 0) (ce_uid env 0)
                \<lparr>us_UserID = [], us_TenantID = uq_TenantID body, us_Email = email, us_DisplayName = uq_DisplayName body,
                 us_Roles = (case uq_Roles body of Some rs \<Rightarrow> rs | None \<Rightarrow> []), us_MustChange = False,
                 us_CreatedAt = time_zero, us_UpdatedAt = time_zero\<rparr> hash (con_store c)) c))"

definition handleGetUser :: "string \<Rightarrow> handler" where
  "handleGetUser userID env r c = (c, found UserBody ''user not found'' (GetUser (ce_db env 0) userID (con_store c)))"

definition handleUpdateUser :: "string \<Rightarrow> handler" where
  "handleUpdateUser userID env r c =
    (case updating user_update_field zero_user_request r ''user not found'' (GetUser (ce_db env 0) userID (con_store c)) of
       Inl e \<Rightarrow> (c, e)
     | Inr (u, up) \<Rightarrow>
        (let u = u\<lparr>us_DisplayName := unless_empty (uq_DisplayName up) (us_DisplayName u),
               us_Roles := (case uq_Roles up of Some rs \<Rightarrow> rs | None \<Rightarrow> us_Roles u)\<rparr> in
         changed env r (''user.update'', ''user'', userID) (UserBody u) ''UPDATE_FAILED'' ''failed to update user''
           (UpdateUser (ce_db env 1) (ce_now env 1) u (con_store c)) c))"

definition handleDeleteUser :: "string \<Rightarrow> handler" where
  "handleDeleteUser userID env r c =
    changed env r (''user.update'', ''user'', userID) (StatusBody [(''status'', ''deleted'')]) ''DELETE_FAILED'' ''failed to delete user''
      (DeleteUser (ce_db env 0) userID (con_store c)) c"

section \<open>The first start\<close>

text \<open>\<open>NewAdminAPI\<close> seeds a tenant and a user when there is no tenant \<open>default\<close>; failing statements are only
  logged.  \<open>None\<close>: the password cannot be hashed.\<close>

definition seed :: "console_env \<Rightarrow> string \<Rightarrow> admin_store \<Rightarrow> admin_store option" where
  "seed env envSeed s =
    (case GetTenant (ce_db env 0) ''default'' s of
       Inr _ \<Rightarrow> Some s
     | Inl _ \<Rightarrow>
        (let s = fst (CreateTenant (ce_db env 1) (ce_now env 0) (ce_uid env 0) (zero_tenant\<lparr>tn_Name := ''Default'', tn_Description := ''Default tenant''\<rparr>) s) in
         case ce_hash env (if envSeed \<noteq> [] then envSeed else ''admin123'') of
           None \<Rightarrow> None
         | Some hash \<Rightarrow>
            Some (fst (CreateUser (ce_db env 2) (ce_now env 1) (ce_uid env 1)
              \<lparr>us_UserID = [], us_TenantID = ''default'', us_Email = ''admin@edf.local'', us_DisplayName = ''Admin'',
               us_Roles = [\<lparr>rb_Role = ''tenant_owner'', rb_TenantID = ''default'', rb_ProjectID = []\<rparr>], us_MustChange = True,
               us_CreatedAt = time_zero, us_UpdatedAt = time_zero\<rparr> hash s))))"

end
