(* ===== verification/Console_Resources.thy ===== *)
theory Console_Resources
  imports Console
begin

text \<open>
  The other handlers of the admin console in \<open>internal/controlplane/admin_api.go\<close>: nodes, policies,
  ingresses, cache tasks, the audit log, the dashboard and the settings; then the router.
\<close>

section \<open>Nodes\<close>

definition set_ctl_pg :: "pg_store \<Rightarrow> console \<Rightarrow> console" where
  "set_ctl_pg p c = c\<lparr>con_ctl := (con_ctl c)\<lparr>cs_pg := p\<rparr>\<rparr>"

definition set_ctl_redis :: "redis_store \<Rightarrow> console \<Rightarrow> console" where
  "set_ctl_redis rd c = c\<lparr>con_ctl := (con_ctl c)\<lparr>cs_redis := rd\<rparr>\<rparr>"

definition paginate :: "int \<Rightarrow> int \<Rightarrow> 'd list \<times> int \<Rightarrow> 'd paginated" where
  "paginate limit offset res =
    \<lparr>pg_Data = fst res, pg_Total = snd res, pg_Limit = limit, pg_Offset = offset, pg_HasMore = i64 (offset + limit) < snd res\<rparr>"

definition page_limit :: "http_request \<Rightarrow> int" where
  "page_limit r = (let l = fst (Atoi (query_get r ''limit'')) in if l \<le> 0 then 50 else l)"

definition page_offset :: "http_request \<Rightarrow> int" where
  "page_offset r = fst (Atoi (query_get r ''offset''))"

definition handleListNodes :: handler where
  "handleListNodes env r c =
    (let limit = page_limit r; offset = page_offset r in
     case (if offset < 0 then Inl PgFail
           else ListNodes (ce_db env 0 \<and> ce_db env 1) (query_get r ''tenant_id'') (query_get r ''status'') (query_get r ''region'') (query_get r ''isp'')
             (query_get r ''project_id'') (nat limit) (nat offset) (cs_pg (con_ctl c))) of
       Inl _ \<Rightarrow> (c, Error 500 ''LIST_FAILED'' ''failed to list nodes'')
     | Inr res \<Rightarrow> (c, Reply 200 (NodesBody (paginate limit offset res))))"

definition console_GetNode :: "string \<Rightarrow> handler" where
  "console_GetNode nodeID env r c =
    (case GetNode (ce_db env 0) (ce_now env 0) nodeID (cs_pg (con_ctl c)) of
       (p, Inl _) \<Rightarrow> (set_ctl_pg p c, Error 404 ''NOT_FOUND'' ''node not found'')
     | (p, Inr n) \<Rightarrow> (set_ctl_pg p c, Reply 200 (ConsoleNode n)))"

definition handleGetNodeCredentials :: "string \<Rightarrow> handler" where
  "handleGetNodeCredentials nodeID env r c =
    (case GetNodeToken (ce_db env 0) nodeID (cs_pg (con_ctl c)) of
       Inl _ \<Rightarrow> (c, Error 404 ''NOT_FOUND'' ''node not found'')
     | Inr token \<Rightarrow> (c, Reply 200 (CredentialBody nodeID token)))"

text \<open>A time that is zero counts as none.\<close>

definition some_time :: "int \<Rightarrow> int option" where
  "some_time t = (if t = time_zero then None else Some t)"

definition handleDisableNode :: "string \<Rightarrow> handler" where
  "handleDisableNode nodeID env r c =
    (case read_body disable_field \<lparr>dn_Reason = [], dn_Message = [], dn_Until = []\<rparr> r of
       Inl e \<Rightarrow> (c, e)
     | Inr body \<Rightarrow>
        (let until = (case parse_rfc3339 True (dn_Until body) of Some t \<Rightarrow> some_time t | None \<Rightarrow> None) in
         case NodeDisable (ce_db env 0) (ce_now env 0) nodeID (dn_Reason body) until (cs_pg (con_ctl c)) of
           (p, Some _) \<Rightarrow> (set_ctl_pg p c, Error 500 ''DISABLE_FAILED'' ''failed to disable node'')
         | (p, None) \<Rightarrow> (audit env r ''node.disable'' ''node'' nodeID (set_ctl_pg p c),
             Reply 200 (StatusBody [(''status'', ''disabled''), (''node_id'', nodeID)]))))"

definition handleEnableNode :: "string \<Rightarrow> handler" where
  "handleEnableNode nodeID env r c =
    (case NodeEnable (ce_db env 0) (ce_now env 0) nodeID (cs_pg (con_ctl c)) of
       (p, Some _) \<Rightarrow> (set_ctl_pg p c, Error 500 ''ENABLE_FAILED'' ''failed to enable node'')
     | (p, None) \<Rightarrow> (audit env r ''node.enable'' ''node'' nodeID (set_ctl_pg p c),
         Reply 200 (StatusBody [(''status'', ''enabled''), (''node_id'', nodeID)])))"

text \<open>The row is deleted, and heartbeats under its identifier are refused from now on.\<close>

definition console_RevokeNode :: "string \<Rightarrow> handler" where
  "console_RevokeNode nodeID env r c =
    (case RevokeNode (ce_db env 0) nodeID (cs_pg (con_ctl c)) of
       (p, Some _) \<Rightarrow> (set_ctl_pg p c, Error 500 ''REVOKE_FAILED'' ''failed to revoke node'')
     | (p, None) \<Rightarrow>
        (let c = set_ctl_pg p c;
             c = set_ctl_redis (fst (MarkNodeRevoked (ce_redis env 0) (ce_now env 0) nodeID (cs_redis (con_ctl c)))) c
         in (audit env r ''node.revoke'' ''node'' nodeID c, Reply 200 (StatusBody [(''status'', ''revoked''), (''node_id'', nodeID)]))))"

record node_patch =
  np_Labels :: "(string, string) gomap option"
  np_Weight :: "int option"
  np_ProjectID :: "string option"
  np_TenantID :: "string option"
  np_Disabled :: "bool option"
  np_DisableReason :: "string option"
  np_DisableUntil :: "int option"

definition zero_patch :: node_patch where
  "zero_patch = \<lparr>np_Labels = None, np_Weight = None, np_ProjectID = None, np_TenantID = None, np_Disabled = None,
     np_DisableReason = None, np_DisableUntil = None\<rparr>"

definition patch_field :: "node_patch \<Rightarrow> string \<Rightarrow> json \<Rightarrow> node_patch \<times> bool" where
  "patch_field q k v =
    (if field_is ''labels'' k then
       (if v = JNull then (q\<lparr>np_Labels := None\<rparr>, True)
        else strmap_field (\<lambda>x. q\<lparr>np_Labels := Some x\<rparr>) (case np_Labels q of Some m \<Rightarrow> m | None \<Rightarrow> []) q v)
     else if field_is ''weight'' k then ptr_field int_field (\<lambda>x. q\<lparr>np_Weight := x\<rparr>) q v
     else if field_is ''project_id'' k then ptr_field str_field (\<lambda>x. q\<lparr>np_ProjectID := x\<rparr>) q v
     else if field_is ''tenant_id'' k then ptr_field str_field (\<lambda>x. q\<lparr>np_TenantID := x\<rparr>) q v
     else if field_is ''disabled'' k then ptr_field bool_field (\<lambda>x. q\<lparr>np_Disabled := x\<rparr>) q v
     else if field_is ''disable_reason'' k then ptr_field str_field (\<lambda>x. q\<lparr>np_DisableReason := x\<rparr>) q v
     else if field_is ''disable_until'' k then ptr_field time_field (\<lambda>x. q\<lparr>np_DisableUntil := x\<rparr>) q v
     else (q, True))"

text \<open>The statement built from the fields given; none is issued when there are none.\<close>

definition patch_row :: "int \<Rightarrow> node_patch \<Rightarrow> node \<Rightarrow> node" where
  "patch_row now q n =
    n\<lparr>n_labels := (case np_Labels q of Some x \<Rightarrow> x | None \<Rightarrow> n_labels n), n_weight := (case np_Weight q of Some x \<Rightarrow> x | None \<Rightarrow> n_weight n),
      n_project_id := (case np_ProjectID q of Some x \<Rightarrow> x | None \<Rightarrow> n_project_id n),
      n_tenant_id := (case np_TenantID q of Some x \<Rightarrow> x | None \<Rightarrow> n_tenant_id n), n_updated_at := now\<rparr>"

definition patch_columns :: "console_env \<Rightarrow> string \<Rightarrow> node_patch \<Rightarrow> console \<Rightarrow> console" where
  "patch_columns env nodeID q c =
    (if np_Labels q = None \<and> np_Weight q = None \<and> np_ProjectID q = None \<and> np_TenantID q = None then c
     else set_ctl_pg (fst (update_node (ce_db env 1) (patch_row (ce_now env 1) q) nodeID (cs_pg (con_ctl c)))) c)"

definition handlePatchNode :: "string \<Rightarrow> handler" where
  "handlePatchNode nodeID env r c =
    (case read_body patch_field zero_patch r of
       Inl e \<Rightarrow> (c, e)
     | Inr q \<Rightarrow>
        (case (case np_Disabled q of
             None \<Rightarrow> (c, None)
           | Some True \<Rightarrow>
              (case NodeDisable (ce_db env 0) (ce_now env 0) nodeID (case np_DisableReason q of Some s \<Rightarrow> s | None \<Rightarrow> [])
                 (case np_DisableUntil q of Some t \<Rightarrow> some_time t | None \<Rightarrow> None) (cs_pg (con_ctl c)) of (p, e) \<Rightarrow> (set_ctl_pg p c, e))
           | Some False \<Rightarrow>
              (case NodeEnable (ce_db env 0) (ce_now env 0) nodeID (cs_pg (con_ctl c)) of
                 (p, Some e) \<Rightarrow> (set_ctl_pg p c, Some e)
               | (p, None) \<Rightarrow>
                  (let c = set_ctl_pg p c in (set_ctl_redis (fst (UnrevokeNode (ce_redis env 0) nodeID (cs_redis (con_ctl c)))) c, None)))) of
           (c, Some _) \<Rightarrow> (c, Error 500 ''PATCH_FAILED'' ''failed to patch node'')
         | (c, None) \<Rightarrow>
            (audit env r ''node.patch'' ''node'' nodeID (patch_columns env nodeID q c),
             Reply 200 (StatusBody [(''status'', ''patched''), (''node_id'', nodeID)]))))"

section \<open>Policies\<close>

definition policy_field :: "admin_policy \<Rightarrow> string \<Rightarrow> json \<Rightarrow> admin_policy \<times> bool" where
  "policy_field p k v =
    (if field_is ''created_at'' k then time_field (\<lambda>x. p\<lparr>ap_CreatedAt := x\<rparr>) p v
     else if field_is ''updated_at'' k then time_field (\<lambda>x. p\<lparr>ap_UpdatedAt := x\<rparr>) p v
     else if field_is ''content'' k then raw_field (\<lambda>x. p\<lparr>ap_Content := x\<rparr>) v
     else if field_is ''policy_id'' k then str_field (\<lambda>x. p\<lparr>ap_PolicyID := x\<rparr>) p v
     else if field_is ''tenant_id'' k then str_field (\<lambda>x. p\<lparr>ap_TenantID := x\<rparr>) p v
     else if field_is ''project_id'' k then str_field (\<lambda>x. p\<lparr>ap_ProjectID := x\<rparr>) p v
     else if field_is ''name'' k then str_field (\<lambda>x. p\<lparr>ap_Name := x\<rparr>) p v
     else if field_is ''type'' k then str_field (\<lambda>x. p\<lparr>ap_Type := x\<rparr>) p v
     else if field_is ''version'' k then int_field (\<lambda>x. p\<lparr>ap_Version := x\<rparr>) p v
     else if field_is ''is_published'' k then bool_field (\<lambda>x. p\<lparr>ap_IsPublished := x\<rparr>) p v
     else if field_is ''description'' k then str_field (\<lambda>x. p\<lparr>ap_Description := x\<rparr>) p v
     else (p, True))"

definition zero_policy :: admin_policy where
  "zero_policy = \<lparr>ap_PolicyID = [], ap_TenantID = [], ap_ProjectID = [], ap_Name = [], ap_Type = [], ap_Content = None, ap_Version = 0,
     ap_IsPublished = False, ap_Description = [], ap_CreatedAt = time_zero, ap_UpdatedAt = time_zero\<rparr>"

text \<open>A version that cannot be saved goes unnoticed.\<close>

definition save_version :: "console_env \<Rightarrow> string \<Rightarrow> int \<Rightarrow> json option \<Rightarrow> console \<Rightarrow> console" where
  "save_version env policyID version content c =
    set_store (fst (SavePolicyVersion (ce_db env 3) (ce_now env 3) (ce_uid env 3) (ce_jsonb env)
      \<lparr>pv_VersionID = [], pv_PolicyID = policyID, pv_Version = version, pv_Content = content, pv_CreatedAt = time_zero\<rparr> (con_store c))) c"

definition handleCreatePolicy :: handler where
  "handleCreatePolicy env r c =
    (case read_body policy_field zero_policy r of
       Inl e \<Rightarrow> (c, e)
     | Inr p \<Rightarrow>
        (let p = p\<lparr>ap_Name := trim_space (ap_Name p)\<rparr> in
         if ap_Name p = [] then (c, Error 400 ''BAD_REQUEST'' ''policy name is required'')
         else case CreateAdminPolicy (ce_db env 0) (ce_now env 0) (ce_uid env 0) (ce_jsonb env) p (con_store c) of
           (s, Inl _) \<Rightarrow> (set_store s c, Error 500 ''CREATE_FAILED'' ''failed to create policy'')
         | (s, Inr p) \<Rightarrow>
            (audit env r ''policy.create'' ''policy'' (ap_PolicyID p) (save_version env (ap_PolicyID p) 1 (ap_Content p) (set_store s c)),
             Reply 201 (PolicyBody p))))"

definition handleListPolicies :: handler where
  "handleListPolicies env r c =
    (c, listed PoliciesBody ''failed to list policies'' (ListAdminPolicies (ce_db env 0) (query_get r ''tenant_id'') (query_get r ''project_id'') (con_store c)))"

definition handleGetPolicy :: "string \<Rightarrow> handler" where
  "handleGetPolicy policyID env r c = (c, found PolicyBody ''policy not found'' (GetAdminPolicy (ce_db env 0) policyID (con_store c)))"

definition handleUpdatePolicy :: "string \<Rightarrow> handler" where
  "handleUpdatePolicy policyID env r c =
    (case updating policy_field zero_policy r ''policy not found'' (GetAdminPolicy (ce_db env 0) policyID (con_store c)) of
       Inl e \<Rightarrow> (c, e)
     | Inr (p, u) \<Rightarrow>
        (let p = p\<lparr>ap_Name := unless_empty (ap_Name u) (ap_Name p), ap_Type := unless_empty (ap_Type u) (ap_Type p),
               ap_Content := (if ap_Content u \<noteq> None then ap_Content u else ap_Content p),
               ap_Description := unless_empty (ap_Description u) (ap_Description p)\<rparr> in
         case UpdateAdminPolicy (ce_db env 1) (ce_now env 1) (ce_jsonb env) p (con_store c) of
           (s, Some _) \<Rightarrow> (set_store s c, Error 500 ''UPDATE_FAILED'' ''failed to update policy'')
         | (s, None) \<Rightarrow>
            (let c = set_store s c;
                 c = (case GetAdminPolicy (ce_db env 2) policyID (con_store c) of
                        Inl _ \<Rightarrow> c | Inr updated \<Rightarrow> save_version env (ap_PolicyID updated) (ap_Version updated) (ap_Content updated) c)
             in (audit env r ''policy.update'' ''policy'' policyID c, Reply 200 (PolicyBody p)))))"

definition handleDeletePolicy :: "string \<Rightarrow> handler" where
  "handleDeletePolicy policyID env r c =
    changed env r (''policy.update'', ''policy'', policyID) (StatusBody [(''status'', ''deleted'')]) ''DELETE_FAILED'' ''failed to delete policy''
      (DeleteAdminPolicy (ce_db env 0) policyID (con_store c)) c"

definition handlePublishPolicy :: "string \<Rightarrow> handler" where
  "handlePublishPolicy policyID env r c =
    changed env r (''policy.publish'', ''policy'', policyID) (StatusBody [(''status'', ''published''), (''policy_id'', policyID)])
      ''PUBLISH_FAILED'' ''failed to publish policy'' (PublishAdminPolicy (ce_db env 0) (ce_now env 0) policyID (con_store c)) c"

definition handleRollbackPolicy :: "string \<Rightarrow> handler" where
  "handleRollbackPolicy policyID env r c =
    (let versionStr = query_get r ''to'' in
     if versionStr = [] then (c, Error 400 ''BAD_REQUEST'' ''version parameter required'')
     else case Atoi versionStr of (version, good) \<Rightarrow>
       (if \<not> good then (c, Error 400 ''BAD_REQUEST'' ''invalid version parameter'')
        else case GetPolicyVersions (ce_db env 0) policyID (con_store c) of
          Inl _ \<Rightarrow> (c, Error 404 ''NOT_FOUND'' ''version not found'')
        | Inr versions \<Rightarrow>
           (case List.find (\<lambda>v. pv_Version v = version) versions of
              None \<Rightarrow> (c, Error 404 ''NOT_FOUND'' ''version not found'')
            | Some v \<Rightarrow>
               changed env r (''policy.rollback'', ''policy'', policyID) (StatusBody [(''status'', ''rolled_back''), (''version'', versionStr)])
                 ''ROLLBACK_FAILED'' ''failed to rollback policy''
                 (RollbackPolicy (ce_db env 1) (ce_now env 1) (ce_jsonb env) policyID (pv_Version v) (pv_Content v) (con_store c)) c)))"

definition handleGetPolicyVersions :: "string \<Rightarrow> handler" where
  "handleGetPolicyVersions policyID env r c =
    (c, listed VersionsBody ''failed to list versions'' (GetPolicyVersions (ce_db env 0) policyID (con_store c)))"

section \<open>Ingresses\<close>

definition ingress_field :: "ingress \<Rightarrow> string \<Rightarrow> json \<Rightarrow> ingress \<times> bool" where
  "ingress_field g k v =
    (if field_is ''created_at'' k then time_field (\<lambda>x. g\<lparr>ig_CreatedAt := x\<rparr>) g v
     else if field_is ''updated_at'' k then time_field (\<lambda>x. g\<lparr>ig_UpdatedAt := x\<rparr>) g v
     else if field_is ''config'' k then raw_field (\<lambda>x. g\<lparr>ig_Config := x\<rparr>) v
     else if field_is ''tenant_id'' k then str_field (\<lambda>x. g\<lparr>ig_TenantID := x\<rparr>) g v
     else if field_is ''project_id'' k then str_field (\<lambda>x. g\<lparr>ig_ProjectID := x\<rparr>) g v
     else if field_is ''ingress_id'' k then str_field (\<lambda>x. g\<lparr>ig_IngressID := x\<rparr>) g v
     else if field_is ''name'' k then str_field (\<lambda>x. g\<lparr>ig_Name := x\<rparr>) g v
     else if field_is ''type'' k then str_field (\<lambda>x. g\<lparr>ig_Type := x\<rparr>) g v
     else if field_is ''domain'' k then str_field (\<lambda>x. g\<lparr>ig_Domain := x\<rparr>) g v
     else (g, True))"

definition zero_ingress :: ingress where
  "zero_ingress = \<lparr>ig_IngressID = [], ig_TenantID = [], ig_ProjectID = [], ig_Name = [], ig_Type = [], ig_Domain = [], ig_Config = None,
     ig_CreatedAt = time_zero, ig_UpdatedAt = time_zero\<rparr>"

definition handleCreateIngress :: handler where
  "handleCreateIngress env r c =
    (case read_body ingress_field zero_ingress r of
       Inl e \<Rightarrow> (c, e)
     | Inr g \<Rightarrow>
        (let g = g\<lparr>ig_Name := trim_space (ig_Name g)\<rparr> in
         if ig_Name g = [] then (c, Error 400 ''BAD_REQUEST'' ''ingress name is required'')
         else created env r (''ingress.create'', ''ingress'') ig_IngressID IngressBody ''failed to create ingress''
           (CreateIngress (ce_db env 0) (ce_now env 0) (ce_uid env 0) (ce_jsonb env) g (con_store c)) c))"

definition handleListIngresses :: handler where
  "handleListIngresses env r c =
    (c, listed IngressesBody ''failed to list ingresses'' (ListIngresses (ce_db env 0) (query_get r ''tenant_id'') (query_get r ''project_id'') (con_store c)))"

definition handleGetIngress :: "string \<Rightarrow> handler" where
  "handleGetIngress ingressID env r c = (c, found IngressBody ''ingress not found'' (GetIngress (ce_db env 0) ingressID (con_store c)))"

definition handleUpdateIngress :: "string \<Rightarrow> handler" where
  "handleUpdateIngress ingressID env r c =
    (case updating ingress_field zero_ingress r ''ingress not found'' (GetIngress (ce_db env 0) ingressID (con_store c)) of
       Inl e \<Rightarrow> (c, e)
     | Inr (g, u) \<Rightarrow>
        (let g = g\<lparr>ig_Name := unless_empty (ig_Name u) (ig_Name g), ig_Type := unless_empty (ig_Type u) (ig_Type g),
               ig_Domain := unless_empty (ig_Domain u) (ig_Domain g), ig_Config := (if ig_Config u \<noteq> None then ig_Config u else ig_Config g)\<rparr> in
         changed env r (''ingress.update'', ''ingress'', ingressID) (IngressBody g) ''UPDATE_FAILED'' ''failed to update ingress''
           (UpdateIngress (ce_db env 1) (ce_now env 1) (ce_jsonb env) g (con_store c)) c))"

definition handleDeleteIngress :: "string \<Rightarrow> handler" where
  "handleDeleteIngress ingressID env r c =
    changed env r (''ingress.delete'', ''ingress'', ingressID) (StatusBody [(''status'', ''deleted'')]) ''DELETE_FAILED'' ''failed to delete ingress''
      (DeleteIngress (ce_db env 0) ingressID (con_store c)) c"

section \<open>Cache tasks\<close>

record task_params =
  tp_ObjectKey :: string
  tp_KeyPrefix :: string
  tp_TargetNodes :: "string list"
  tp_TargetScope :: string
  tp_Concurrency :: int
  tp_RateLimit :: int

definition params_field :: "task_params \<Rightarrow> string \<Rightarrow> json \<Rightarrow> task_params \<times> bool" where
  "params_field q k v =
    (if field_is ''object_key'' k then str_field (\<lambda>x. q\<lparr>tp_ObjectKey := x\<rparr>) q v
     else if field_is ''key_prefix'' k then str_field (\<lambda>x. q\<lparr>tp_KeyPrefix := x\<rparr>) q v
     else if field_is ''target_nodes'' k then strs_field (\<lambda>x. q\<lparr>tp_TargetNodes := x\<rparr>) (tp_TargetNodes q) q v
     else if field_is ''target_scope'' k then str_field (\<lambda>x. q\<lparr>tp_TargetScope := x\<rparr>) q v
     else if field_is ''concurrency'' k then int_field (\<lambda>x. q\<lparr>tp_Concurrency := x\<rparr>) q v
     else if field_is ''rate_limit'' k then int_field (\<lambda>x. q\<lparr>tp_RateLimit := x\<rparr>) q v
     else (q, True))"

definition zero_params :: task_params where
  "zero_params = \<lparr>tp_ObjectKey = [], tp_KeyPrefix = [], tp_TargetNodes = [], tp_TargetScope = [], tp_Concurrency = 0, tp_RateLimit = 0\<rparr>"

definition params_json :: "task_params \<Rightarrow> json" where
  "params_json q = JObj
    (omit_empty ''object_key'' (tp_ObjectKey q) @ omit_empty ''key_prefix'' (tp_KeyPrefix q) @
     (if tp_TargetNodes q = [] then [] else [(''target_nodes'', JArr (map JStr (tp_TargetNodes q)))]) @
     [(''target_scope'', JStr (tp_TargetScope q))] @
     (if tp_Concurrency q = 0 then [] else [(''concurrency'', JInt (tp_Concurrency q))]) @
     (if tp_RateLimit q = 0 then [] else [(''rate_limit'', JInt (tp_RateLimit q))]))"

definition createCacheTask :: "string \<Rightarrow> string \<Rightarrow> handler" where
  "createCacheTask taskType auditAction env r c =
    (case read_body params_field zero_params r of
       Inl e \<Rightarrow> (c, e)
     | Inr q \<Rightarrow>
        created env r (auditAction, ''task'') tk_TaskID TaskBody ''failed to create task''
          (CreateTask (ce_db env 0) (ce_now env 0) (ce_uid env 0) (ce_jsonb env)
            \<lparr>tk_TaskID = [], tk_TenantID = header r ''X-Actor-TenantId'', tk_ProjectID = [], tk_CreatorID = header r ''X-Actor-UserId'',
             tk_Type = taskType, tk_Status = ''pending'', tk_Params = Some (params_json q), tk_Result = None, tk_Progress = 0,
             tk_TotalNodes = 0, tk_DoneNodes = 0, tk_CreatedAt = time_zero, tk_UpdatedAt = time_zero\<rparr> (con_store c)) c)"

definition handlePrewarm :: handler where
  "handlePrewarm = createCacheTask ''prewarm'' ''cache.prewarm''"

definition handlePurge :: handler where
  "handlePurge = createCacheTask ''purge'' ''cache.purge''"

definition handleBlock :: handler where
  "handleBlock = createCacheTask ''block'' ''object.block''"

definition handleListTasks :: handler where
  "handleListTasks env r c =
    (let limit = page_limit r; offset = page_offset r in
     case ListTasks (ce_db env 0) (ce_db env 1) (header r ''X-Actor-TenantId'') (query_get r ''status'') (query_get r ''type'') limit offset (con_store c) of
       Inl _ \<Rightarrow> (c, Error 500 ''LIST_FAILED'' ''failed to list tasks'')
     | Inr res \<Rightarrow> (c, Reply 200 (TasksBody (paginate limit offset res))))"

definition handleGetTask :: "string \<Rightarrow> handler" where
  "handleGetTask taskID env r c = (c, found TaskBody ''task not found'' (GetTask (ce_db env 0) taskID (con_store c)))"

definition handleCancelTask :: "string \<Rightarrow> handler" where
  "handleCancelTask taskID env r c =
    changed env r (''task.cancel'', ''task'', taskID) (StatusBody [(''status'', ''canceled''), (''task_id'', taskID)])
      ''CANCEL_FAILED'' ''failed to cancel task''
      (UpdateTaskStatus (ce_db env 0) (ce_now env 0) (ce_jsonb env) taskID ''cancelled'' None 0 0 (con_store c)) c"

section \<open>The audit log\<close>

definition audit_query_of :: "http_request \<Rightarrow> audit_query" where
  "audit_query_of r = \<lparr>aq_ActorID = query_get r ''actor_id'', aq_Action = query_get r ''action'', aq_ResourceType = query_get r ''resource_type'',
     aq_ResourceID = query_get r ''resource_id'', aq_Result = query_get r ''result'', aq_TenantID = header r ''X-Actor-TenantId'',
     aq_ProjectID = [], aq_Since = None, aq_Until = None, aq_Limit = 0, aq_Offset = 0\<rparr>"

definition handleQueryAudit :: handler where
  "handleQueryAudit env r c =
    (let q = (audit_query_of r)\<lparr>aq_Limit := fst (Atoi (query_get r ''limit'')), aq_Offset := page_offset r\<rparr> in
     case QueryAuditEvents (ce_db env 0) (ce_db env 1) q (con_store c) of
       Inl _ \<Rightarrow> (c, Error 500 ''QUERY_FAILED'' ''failed to query audit events'')
     | Inr res \<Rightarrow> (c, Reply 200 (AuditBody (paginate (aq_Limit q) (aq_Offset q) res))))"

definition csvEscape :: "string \<Rightarrow> string" where
  "csvEscape s =
    (if CHR '','' \<in> set s \<or> CHR 0x22 \<in> set s \<or> CHR 0x0A \<in> set s
     then [CHR 0x22] @ concat (map (\<lambda>c. if c = CHR 0x22 then [CHR 0x22, CHR 0x22] else [c]) s) @ [CHR 0x22] else s)"

definition csv_fields :: "(int \<Rightarrow> string) \<Rightarrow> audit_event \<Rightarrow> string list" where
  "csv_fields fmt e = [csvEscape (format_int (ae_ID e)), fmt (ae_CreatedAt e), csvEscape (ae_TenantID e), csvEscape (ae_ActorID e), csvEscape (ae_ActorEmail e),
     csvEscape (ae_Action e), csvEscape (ae_ResourceType e), csvEscape (ae_ResourceID e), csvEscape (ae_Result e), csvEscape (ae_SourceIP e), csvEscape (ae_RequestID e)]"

definition audit_csv :: "(int \<Rightarrow> string) \<Rightarrow> audit_event list \<Rightarrow> string" where
  "audit_csv fmt es =
    [CHR 0xEF, CHR 0xBB, CHR 0xBF] @ ''ID,CreatedAt,TenantID,ActorID,ActorEmail,Action,ResourceType,ResourceID,Result,SourceIP,RequestID'' @ [CHR 0x0A] @
    concat (map (\<lambda>e. join_with (CHR '','') (csv_fields fmt e) @ [CHR 0x0A]) es)"

definition handleExportAudit :: handler where
  "handleExportAudit env r c =
    (let format = query_get r ''format'' in
     case QueryAuditEvents (ce_db env 0) (ce_db env 1) ((audit_query_of r)\<lparr>aq_Limit := 10000\<rparr>) (con_store c) of
       Inl _ \<Rightarrow> (c, Error 500 ''EXPORT_FAILED'' ''failed to export audit events'')
     | Inr (es, _) \<Rightarrow> (c, Reply 200 (if format = ''json'' then AuditJson es else AuditCsv (audit_csv (ce_format env) es))))"

section \<open>Dashboard, topology, configuration and settings\<close>

text \<open>The dashboard shows zeros when its statement fails.\<close>

definition handleDashboard :: handler where
  "handleDashboard env r c =
    (c, Reply 200 (DashboardBody (if ce_db env 0 then GetDashboardCounts (header r ''X-Actor-TenantId'') (cs_pg (con_ctl c)) else (0, 0, 0))))"

text \<open>The reply's list of links is always empty, and so is the hit ratio of a node.\<close>

definition handleP2PTopology :: handler where
  "handleP2PTopology env r c =
    (case ListActiveNodes (ce_db env 0) (cs_pg (con_ctl c)) of
       Inl _ \<Rightarrow> (c, Error 500 ''TOPO_FAILED'' ''failed to list nodes'')
     | Inr ns \<Rightarrow> (c, Reply 200 (TopologyBody (map (\<lambda>n. \<lparr>tn_NodeID = n_node_id n, tn_NodeName = n_name n,
         tn_BandwidthMbps = cap_max_uplink_mbps (n_capabilities n),
         tn_IsSmallBandwidth = (0 < cap_max_uplink_mbps (n_capabilities n) \<and> cap_max_uplink_mbps (n_capabilities n) < 100),
         tn_Status = status_string (n_status n)\<rparr>) ns))))"

text \<open>The configuration belongs to the scheduler; \<open>None\<close> is a console without one.\<close>

definition no_scheduler :: "console_body reply" where
  "no_scheduler = Error 500 ''NO_SCHEDULER'' ''scheduler not available''"

definition handleGetConfig :: handler where
  "handleGetConfig env r c =
    (c, case con_config c of None \<Rightarrow> no_scheduler | Some st \<Rightarrow> map_reply FromConfig (handleAdminGetConfig st))"

definition handleUpdateConfig :: handler where
  "handleUpdateConfig env r c =
    (case con_config c of
       None \<Rightarrow> (c, no_scheduler)
     | Some st \<Rightarrow>
        (case handleAdminUpdateConfig (ce_redis env 0) r st of (st', rep) \<Rightarrow> (c\<lparr>con_config := Some st'\<rparr>, map_reply FromConfig rep)))"

definition settings_field :: "admin_config \<Rightarrow> string \<Rightarrow> json \<Rightarrow> admin_config \<times> bool" where
  "settings_field q k v =
    (if field_is ''oidc_enabled'' k then bool_field (\<lambda>x. q\<lparr>st_OIDCEnabled := x\<rparr>) q v
     else if field_is ''oidc_provider_url'' k then str_field (\<lambda>x. q\<lparr>st_OIDCProviderURL := x\<rparr>) q v
     else if field_is ''oidc_client_id'' k then str_field (\<lambda>x. q\<lparr>st_OIDCClientID := x\<rparr>) q v
     else if field_is ''local_auth_enabled'' k then bool_field (\<lambda>x. q\<lparr>st_LocalAuthEnabled := x\<rparr>) q v
     else if field_is ''read_only_mode'' k then bool_field (\<lambda>x. q\<lparr>st_ReadOnlyMode := x\<rparr>) q v
     else if field_is ''ip_allowlist'' k then strs_field (\<lambda>x. q\<lparr>st_IPAllowlist := x\<rparr>) (st_IPAllowlist q) q v
     else if field_is ''grafana_url'' k then str_field (\<lambda>x. q\<lparr>st_GrafanaURL := x\<rparr>) q v
     else if field_is ''prometheus_url'' k then str_field (\<lambda>x. q\<lparr>st_PrometheusURL := x\<rparr>) q v
     else if field_is ''loki_url'' k then str_field (\<lambda>x. q\<lparr>st_LokiURL := x\<rparr>) q v
     else (q, True))"

definition zero_settings :: admin_config where
  "zero_settings = \<lparr>st_OIDCEnabled = False, st_OIDCProviderURL = [], st_OIDCClientID = [], st_LocalAuthEnabled = False, st_ReadOnlyMode = False,
     st_IPAllowlist = [], st_GrafanaURL = [], st_PrometheusURL = [], st_LokiURL = []\<rparr>"

definition settings_json :: "admin_config \<Rightarrow> json" where
  "settings_json q = JObj
    ((''oidc_enabled'', JBool (st_OIDCEnabled q)) # omit_empty ''oidc_provider_url'' (st_OIDCProviderURL q) @ omit_empty ''oidc_client_id'' (st_OIDCClientID q) @
     [(''local_auth_enabled'', JBool (st_LocalAuthEnabled q)), (''read_only_mode'', JBool (st_ReadOnlyMode q))] @
     (if st_IPAllowlist q = [] then [] else [(''ip_allowlist'', JArr (map JStr (st_IPAllowlist q)))]) @
     omit_empty ''grafana_url'' (st_GrafanaURL q) @ omit_empty ''prometheus_url'' (st_PrometheusURL q) @ omit_empty ''loki_url'' (st_LokiURL q))"

definition handleGetSettings :: handler where
  "handleGetSettings env r c =
    (let f = con_cfg c;
         shown = \<lparr>st_OIDCEnabled = cc_EnableOIDC f, st_OIDCProviderURL = cc_OIDCProviderURL f, st_OIDCClientID = cc_OIDCClientID f,
           st_LocalAuthEnabled = cc_EnableLocalAuth f, st_ReadOnlyMode = False, st_IPAllowlist = [], st_GrafanaURL = cc_GrafanaURL f,
           st_PrometheusURL = cc_PrometheusURL f, st_LokiURL = cc_LokiURL f\<rparr>
     in (c, Reply 200 (SettingsBody
       (case (if ce_redis env 0 then con_settings c else None) of
          None \<Rightarrow> shown
        | Some stored \<Rightarrow> (case read_struct settings_field zero_settings stored of None \<Rightarrow> shown | Some q \<Rightarrow> q)))))"

definition handleUpdateSettings :: handler where
  "handleUpdateSettings env r c =
    (case read_body settings_field zero_settings r of
       Inl e \<Rightarrow> (c, e)
     | Inr q \<Rightarrow>
        (let c = (if ce_redis env 0 then c\<lparr>con_settings := Some (json_print (settings_json q))\<rparr> else c);
             c = c\<lparr>con_cfg := \<lparr>cc_EnableOIDC = st_OIDCEnabled q, cc_OIDCProviderURL = st_OIDCProviderURL q, cc_OIDCClientID = st_OIDCClientID q,
               cc_EnableLocalAuth = st_LocalAuthEnabled q, cc_GrafanaURL = st_GrafanaURL q, cc_PrometheusURL = st_PrometheusURL q,
               cc_LokiURL = st_LokiURL q, cc_IPAllowlist = st_IPAllowlist q\<rparr>\<rparr>
         in (audit env r ''policy.update'' ''settings'' ''global'' c, Reply 200 (SettingsBody q))))"

section \<open>The router\<close>

text \<open>The routes with their handlers: the router (chi) chooses one and hands over the parameters of the path.
  The first three need no session.\<close>

datatype console_route =
    CHealthz | CLogin | CRefresh | CLogout | CMe | CPassword | CTenantNew | CTenants | CTenant string | CTenantSet string | CTenantDel string | CUsers string
  | CProjectNew string | CProjects string | CProject string | CProjectSet string | CProjectDel string
  | CUserNew | CUser string | CUserSet string | CUserDel string
  | CNodes | CNode string | CCredentials string | CDisable string | CEnable string | CRevoke string | CPatch string
  | CPolicyNew | CPolicies | CPolicy string | CPolicySet string | CPolicyDel string | CPublish string | CRollback string | CVersions string
  | CIngressNew | CIngresses | CIngress string | CIngressSet string | CIngressDel string
  | CPrewarm | CPurge | CBlock | CTasks | CTask string | CCancel string
  | CAudit | CExport | CDashboard | CTopology | CConfig | CConfigSet | CSettings | CSettingsSet

fun console_handle :: "console_route \<Rightarrow> handler" where
  "console_handle CHealthz = handleAdminHealthz" | "console_handle CLogin = handleLogin" | "console_handle CRefresh = handleRefresh"
| "console_handle CLogout = handleLogout" | "console_handle CMe = handleMe" | "console_handle CPassword = handleChangePassword"
| "console_handle CTenantNew = handleCreateTenant" | "console_handle CTenants = handleListTenants" | "console_handle (CTenant i) = handleGetTenant i"
| "console_handle (CTenantSet i) = handleUpdateTenant i" | "console_handle (CTenantDel i) = handleDeleteTenant i" | "console_handle (CUsers i) = handleListUsers i"
| "console_handle (CProjectNew i) = handleCreateProject i" | "console_handle (CProjects i) = handleListProjects i" | "console_handle (CProject i) = handleGetProject i"
| "console_handle (CProjectSet i) = handleUpdateProject i" | "console_handle (CProjectDel i) = handleDeleteProject i"
| "console_handle CUserNew = handleCreateUser" | "console_handle (CUser i) = handleGetUser i" | "console_handle (CUserSet i) = handleUpdateUser i"
| "console_handle (CUserDel i) = handleDeleteUser i"
| "console_handle CNodes = handleListNodes" | "console_handle (CNode i) = console_GetNode i" | "console_handle (CCredentials i) = handleGetNodeCredentials i"
| "console_handle (CDisable i) = handleDisableNode i" | "console_handle (CEnable i) = handleEnableNode i" | "console_handle (CRevoke i) = console_RevokeNode i"
| "console_handle (CPatch i) = handlePatchNode i"
| "console_handle CPolicyNew = handleCreatePolicy" | "console_handle CPolicies = handleListPolicies" | "console_handle (CPolicy i) = handleGetPolicy i"
| "console_handle (CPolicySet i) = handleUpdatePolicy i" | "console_handle (CPolicyDel i) = handleDeletePolicy i" | "console_handle (CPublish i) = handlePublishPolicy i"
| "console_handle (CRollback i) = handleRollbackPolicy i" | "console_handle (CVersions i) = handleGetPolicyVersions i"
| "console_handle CIngressNew = handleCreateIngress" | "console_handle CIngresses = handleListIngresses" | "console_handle (CIngress i) = handleGetIngress i"
| "console_handle (CIngressSet i) = handleUpdateIngress i" | "console_handle (CIngressDel i) = handleDeleteIngress i"
| "console_handle CPrewarm = handlePrewarm" | "console_handle CPurge = handlePurge" | "console_handle CBlock = handleBlock"
| "console_handle CTasks = handleListTasks" | "console_handle (CTask i) = handleGetTask i" | "console_handle (CCancel i) = handleCancelTask i"
| "console_handle CAudit = handleQueryAudit" | "console_handle CExport = handleExportAudit" | "console_handle CDashboard = handleDashboard"
| "console_handle CTopology = handleP2PTopology" | "console_handle CConfig = handleGetConfig" | "console_handle CConfigSet = handleUpdateConfig"
| "console_handle CSettings = handleGetSettings" | "console_handle CSettingsSet = handleUpdateSettings"

definition public_route :: "console_route \<Rightarrow> bool" where
  "public_route rt \<longleftrightarrow> rt \<in> {CHealthz, CLogin, CRefresh}"

definition console_serve :: "int \<Rightarrow> string \<Rightarrow> console_route \<Rightarrow> handler" where
  "console_serve now uuid rt env r c =
    (if public_route rt then console_handle rt env r c
     else case jwt_middleware (con_jwt c) now uuid r of
       Inl e \<Rightarrow> (c, e)
     | Inr r' \<Rightarrow> (case ipAllowlistMiddleware r' c of Some e \<Rightarrow> (c, e) | None \<Rightarrow> console_handle rt env r' c))"

end
