(* ===== verification/Leader.thy ===== *)
theory Leader
  imports Go_Prelude
begin

text \<open>
  \<open>internal/controlplane/leader.go\<close>: the instances of the control plane elect a leader through one Redis
  key that expires after ten seconds.  Each call of \<open>tryAcquire\<close> is a sequence of up to three commands,
  and the commands of different instances interleave.
\<close>

definition leaderTTL :: int where
  "leaderTTL = 10000000000"

text \<open>Where an instance is in \<open>tryAcquire\<close>: not inside, after \<open>SET NX\<close> found the key taken, after \<open>GET\<close>
  found its own name.\<close>

datatype pc = Idle | Asking | Renewing

text \<open>The key with its value and expiry, and per instance its position, the flag \<open>isLeader\<close>, and until when
  the last command that made it leader set the expiry of the key.\<close>

record election =
  el_key :: "(string \<times> int) option"
  el_pc :: "string \<Rightarrow> pc"
  el_isLeader :: "string \<Rightarrow> bool"
  el_term :: "string \<Rightarrow> int"

definition NewElection :: election where
  "NewElection = \<lparr>el_key = None, el_pc = (\<lambda>_. Idle), el_isLeader = (\<lambda>_. False), el_term = (\<lambda>_. 0)\<rparr>"

definition holder :: "int \<Rightarrow> election \<Rightarrow> string option" where
  "holder now s = (case el_key s of None \<Rightarrow> None | Some (i, e) \<Rightarrow> if now < e then Some i else None)"

definition become_leader :: "string \<Rightarrow> int \<Rightarrow> election \<Rightarrow> election" where
  "become_leader i now s =
    s\<lparr>el_pc := (el_pc s)(i := Idle), el_isLeader := (el_isLeader s)(i := True), el_term := (el_term s)(i := now + leaderTTL)\<rparr>"

definition not_leader :: "string \<Rightarrow> election \<Rightarrow> election" where
  "not_leader i s = s\<lparr>el_pc := (el_pc s)(i := Idle), el_isLeader := (el_isLeader s)(i := False)\<rparr>"

section \<open>The commands\<close>

text \<open>\<open>ok\<close>: the command got an answer from Redis.\<close>

definition acquire_setnx :: "string \<Rightarrow> bool \<Rightarrow> int \<Rightarrow> election \<Rightarrow> election" where
  "acquire_setnx i ok now s =
    (if \<not> ok then s
     else if holder now s = None then become_leader i now (s\<lparr>el_key := Some (i, now + leaderTTL)\<rparr>)
     else s\<lparr>el_pc := (el_pc s)(i := Asking)\<rparr>)"

definition acquire_get :: "string \<Rightarrow> bool \<Rightarrow> int \<Rightarrow> election \<Rightarrow> election" where
  "acquire_get i ok now s =
    (if \<not> ok then s\<lparr>el_pc := (el_pc s)(i := Idle)\<rparr>
     else case holder now s of
       None \<Rightarrow> s\<lparr>el_pc := (el_pc s)(i := Idle)\<rparr>
     | Some v \<Rightarrow> if v = i then s\<lparr>el_pc := (el_pc s)(i := Renewing)\<rparr> else not_leader i s)"

definition acquire_expire :: "string \<Rightarrow> bool \<Rightarrow> int \<Rightarrow> election \<Rightarrow> election" where
  "acquire_expire i ok now s =
    (if \<not> ok then not_leader i s
     else case holder now s of
       None \<Rightarrow> become_leader i now s
     | Some v \<Rightarrow> become_leader i now (s\<lparr>el_key := Some (v, now + leaderTTL)\<rparr>))"

definition resign :: "string \<Rightarrow> bool \<Rightarrow> int \<Rightarrow> election \<Rightarrow> election" where
  "resign i ok now s =
    (if \<not> el_isLeader s i then s else not_leader i (if ok then s\<lparr>el_key := None\<rparr> else s))"

definition IsLeader :: "string \<Rightarrow> election \<Rightarrow> bool" where
  "IsLeader i s = el_isLeader s i"

text \<open>One command of an instance: the next one of \<open>tryAcquire\<close>, or \<open>resign\<close> outside of it.\<close>

datatype command = Next | Resign

definition elect_step :: "(string \<times> command \<times> bool \<times> int) \<Rightarrow> election \<Rightarrow> election" where
  "elect_step ev s =
    (case ev of
       (i, Next, ok, now) \<Rightarrow>
         (case el_pc s i of Idle \<Rightarrow> acquire_setnx i ok now s | Asking \<Rightarrow> acquire_get i ok now s | Renewing \<Rightarrow> acquire_expire i ok now s)
     | (i, Resign, ok, now) \<Rightarrow> if el_pc s i = Idle then resign i ok now s else s)"

section \<open>One leader\<close>

text \<open>An event is calm when it touches no other instance's key: a renewal finds the instance still the holder,
  and so does a resignation, unless nobody is.\<close>

definition calm :: "election \<Rightarrow> (string \<times> command \<times> bool \<times> int) \<Rightarrow> bool" where
  "calm s ev =
    (case ev of
       (i, Next, ok, now) \<Rightarrow> el_pc s i = Renewing \<longrightarrow> ok \<longrightarrow> holder now s = Some i
     | (i, Resign, ok, now) \<Rightarrow> el_isLeader s i \<longrightarrow> holder now s \<in> {None, Some i})"

fun calm_run :: "int \<Rightarrow> election \<Rightarrow> (string \<times> command \<times> bool \<times> int) list \<Rightarrow> bool" where
  "calm_run t s [] = True"
| "calm_run t s (ev # evs) = (t \<le> snd (snd (snd ev)) \<and> calm s ev \<and> calm_run (snd (snd (snd ev))) (elect_step ev s) evs)"

fun end_time :: "int \<Rightarrow> (string \<times> command \<times> bool \<times> int) list \<Rightarrow> int" where
  "end_time t [] = t"
| "end_time t (ev # evs) = end_time (snd (snd (snd ev))) evs"

definition in_term :: "int \<Rightarrow> election \<Rightarrow> string \<Rightarrow> bool" where
  "in_term now s i \<longleftrightarrow> IsLeader i s \<and> now < el_term s i"

definition election_inv :: "int \<Rightarrow> election \<Rightarrow> bool" where
  "election_inv now s \<longleftrightarrow> (\<forall>i. in_term now s i \<longrightarrow> (\<exists>e. el_key s = Some (i, e) \<and> el_term s i \<le> e))"

lemma election_inv_later: "election_inv t s \<Longrightarrow> t \<le> t' \<Longrightarrow> election_inv t' s"
  by (auto simp: election_inv_def in_term_def)

lemma in_term_holds: "\<lbrakk>election_inv now s; in_term now s i\<rbrakk> \<Longrightarrow> holder now s = Some i"
  by (auto simp: election_inv_def in_term_def holder_def)

lemma elect_step_inv:
  assumes inv: "election_inv (snd (snd (snd ev))) s" and calm: "calm s ev"
  shows "election_inv (snd (snd (snd ev))) (elect_step ev s)"
proof -
  obtain i c ok now where ev: "ev = (i, c, ok, now)" by (cases ev) auto
  have h: "in_term now s j \<Longrightarrow> holder now s = Some j \<and> (\<exists>e. el_key s = Some (j, e) \<and> el_term s j \<le> e)" for j
    using inv in_term_holds [of now s j] by (auto simp: ev election_inv_def)
  have off: "in_term now (not_leader i s') j \<longleftrightarrow> j \<noteq> i \<and> in_term now s' j" for s' j
    by (auto simp: in_term_def not_leader_def IsLeader_def)
  have on: "in_term now (become_leader i now s') j \<longleftrightarrow> j = i \<or> in_term now s' j" for s' j
    by (auto simp: in_term_def become_leader_def IsLeader_def leaderTTL_def)
  have key: "el_key (become_leader i now s') = el_key s'" "el_key (not_leader i s') = el_key s'"
    "el_term (not_leader i s') = el_term s'" "el_term (become_leader i now s') = (el_term s')(i := now + leaderTTL)" for s'
    by (simp_all add: become_leader_def not_leader_def)
  have pc: "in_term now (s\<lparr>el_pc := f\<rparr>) j = in_term now s j" "in_term now (s\<lparr>el_key := k\<rparr>) j = in_term now s j" for f k j
    by (simp_all add: in_term_def IsLeader_def)
  show ?thesis
  proof (cases c)
    case Next
    show ?thesis
    proof (cases "el_pc s i")
      case Idle
      then show ?thesis
        using h ev Next by (force simp: elect_step_def acquire_setnx_def election_inv_def on key pc)
    next
      case Asking
      then show ?thesis
        using h ev Next by (auto simp: elect_step_def acquire_get_def election_inv_def off key pc split: option.splits)
    next
      case Renewing
      then have "ok \<Longrightarrow> holder now s = Some i" using calm ev Next by (simp add: calm_def)
      then show ?thesis
        using h ev Next Renewing by (cases ok) (force simp: elect_step_def acquire_expire_def election_inv_def on off key pc)+
    qed
  next
    case Resign
    then have "el_isLeader s i \<Longrightarrow> holder now s \<in> {None, Some i}" using calm ev by (simp add: calm_def)
    then show ?thesis
      using h ev Resign by (force simp: elect_step_def resign_def election_inv_def off key pc)
  qed
qed

lemma calm_run_inv: "\<lbrakk>election_inv t s; calm_run t s evs\<rbrakk> \<Longrightarrow> election_inv (end_time t evs) (fold elect_step evs s)"
proof (induction evs arbitrary: t s)
  case (Cons ev evs)
  have "election_inv (snd (snd (snd ev))) s" using Cons.prems by (intro election_inv_later [OF Cons.prems(1)]) simp
  then show ?case using Cons elect_step_inv [of ev s] by simp
qed simp


text \<open>A resignation that finds the key with another instance deletes it all the same: \<open>b\<close> took over when the
  lease of \<open>a\<close> had run out, and after \<open>a\<close> resigns a third instance can join \<open>b\<close> as leader.\<close>

lemma stale_resign_two_leaders:
  "let s = fold elect_step [(''a'', Next, True, 0), (''b'', Next, True, 10000000000), (''a'', Resign, True, 10000000001), (''c'', Next, True, 10000000002)] NewElection
   in IsLeader ''b'' s \<and> IsLeader ''c'' s \<and> 10000000003 < el_term s ''b'' \<and> 10000000003 < el_term s ''c''"
  by (simp add: elect_step_def acquire_setnx_def resign_def become_leader_def not_leader_def holder_def NewElection_def leaderTTL_def IsLeader_def)


end
