(* ===== verification/Cache_Accessor.thy ===== *)
theory Cache_Accessor
  imports Go_Binary
begin

text \<open>
  The interface \<open>CacheAccessor\<close> of \<open>internal/streaming/window.go\<close> (lines 16 to 22): four
  operations on a cache state, and what the sliding window relies on.  The first
  argument of an operation is the outcome of the calls it makes to its surroundings
  (disk, clock); the boolean of \<open>Put\<close> and \<open>Delete\<close> is that the error is nil.
\<close>

record ('e, 'c) cache_ops =
  co_Get :: "'e \<Rightarrow> string \<Rightarrow> 'c \<Rightarrow> byte list option \<times> 'c"
  co_Put :: "'e \<Rightarrow> string \<Rightarrow> byte list \<Rightarrow> 'c \<Rightarrow> bool \<times> 'c"
  co_Has :: "string \<Rightarrow> 'c \<Rightarrow> bool"
  co_Delete :: "'e \<Rightarrow> string \<Rightarrow> 'c \<Rightarrow> bool \<times> 'c"

text \<open>A loop that deletes keys and ignores the errors.\<close>

fun delete_keys :: "('e, 'c) cache_ops \<Rightarrow> (nat \<Rightarrow> 'e) \<Rightarrow> nat \<Rightarrow> string list \<Rightarrow> 'c \<Rightarrow> 'c" where
  "delete_keys ops env i [] c = c"
| "delete_keys ops env i (k # ks) c = delete_keys ops env (Suc i) ks (snd (co_Delete ops (env i) k c))"

text \<open>\<open>same k k'\<close>: the two keys name the same entry of the cache.\<close>

locale cache_accessor =
  fixes ops :: "('e, 'c) cache_ops"
    and same :: "string \<Rightarrow> string \<Rightarrow> bool"
  assumes put_has: "co_Has ops k' (snd (co_Put ops e k d c)) \<Longrightarrow> same k' k \<or> co_Has ops k' c"
    and delete_has: "fst (co_Delete ops e k c) \<Longrightarrow> \<not> co_Has ops k (snd (co_Delete ops e k c))"
    and delete_keeps: "co_Has ops k' (snd (co_Delete ops e k c)) \<Longrightarrow> co_Has ops k' c"
    and get_has: "co_Has ops k' (snd (co_Get ops e k c)) \<longleftrightarrow> co_Has ops k' c"
    and get_some: "fst (co_Get ops e k c) = Some d \<Longrightarrow> co_Has ops k c"
begin

text \<open>Deleting a list of keys, each deletion succeeding, removes them all and adds
  nothing.\<close>

lemma delete_keys_keeps: "co_Has ops k' (delete_keys ops env i ks c) \<Longrightarrow> co_Has ops k' c"
  by (induction ks arbitrary: i c) (auto dest: delete_keeps)

lemma delete_keys_has:
  "\<lbrakk>\<And>i k c. fst (co_Delete ops (env i) k c); k \<in> set ks\<rbrakk> \<Longrightarrow> \<not> co_Has ops k (delete_keys ops env i ks c)"
proof (induction ks arbitrary: i c)
  case (Cons x ks)
  show ?case
  proof (cases "k = x")
    case True
    then have "\<not> co_Has ops k (snd (co_Delete ops (env i) x c))"
      using delete_has Cons.prems(1) by blast
    then show ?thesis using delete_keys_keeps by auto
  qed (use Cons in auto)
qed simp

end

end
