(* ===== verification/Edge_Cache.thy ===== *)
theory Edge_Cache
  imports Cache_Accessor Go_Strings
begin

text \<open>
  The disk cache of an edge node, \<open>internal/edgeagent/cache.go\<close>.  The directory of the
  cache is part of the state: a map from entry names to the two files of an entry.
  The name of a key is the hexadecimal MD5 sum of the key, here the argument \<open>name\<close> of
  the operations.  The outcomes of the file system calls are arguments too, so that
  every error return is a branch.  The counters are \<open>int64\<close> and wrap.

  Proved: the counters are the number and the total size of the entries on disk,
  whatever sequence of operations ran; \<open>Put\<close> leaves the total within the limit;
  eviction removes the least recently used entries and not more than needed; what was
  put is read back.  The locale \<open>cache_accessor\<close> is the interface \<open>CacheAccessor\<close> of
  \<open>internal/streaming\<close>, interpreted on these operations.
\<close>

section \<open>State\<close>

text \<open>\<open>meta.json\<close> as read back: last access and size, or a file that does not parse.\<close>

datatype meta_file = Meta (meta_last_access: int) (meta_size: int) | BadMeta

record cache_entry =
  ce_content :: "byte list option"
  ce_meta :: "meta_file option"

record cache =
  ca_dir :: "(string, cache_entry) gomap"
  ca_maxGB :: int
  ca_maxBytes :: int
  ca_hits :: int
  ca_misses :: int
  ca_size :: int
  ca_count :: int
  ca_accessTimes :: "(string, int) gomap"
  ca_sizes :: "(string, int) gomap"

datatype cache_error =
    CreateCacheDir | CacheMiss string | OpenCache | MkdirEntry | CreateFile | WriteCache | WriteMeta
  | DeleteEntry

section \<open>Operations\<close>

definition entry_size :: "cache_entry \<Rightarrow> int option" where
  "entry_size e = (case ce_meta e of Some (Meta la sz) \<Rightarrow> Some sz | _ \<Rightarrow> None)"

definition load_entry :: "cache \<Rightarrow> string \<times> cache_entry \<Rightarrow> cache" where
  "load_entry c p = (case p of (n, e) \<Rightarrow>
    (case ce_meta e of
       Some (Meta la sz) \<Rightarrow>
         c\<lparr>ca_size := i64 (ca_size c + sz), ca_count := i64 (ca_count c + 1),
           ca_accessTimes := gm_set n la (ca_accessTimes c), ca_sizes := gm_set n sz (ca_sizes c)\<rparr>
     | _ \<Rightarrow> c))"

definition NewCache :: "bool \<Rightarrow> (string, cache_entry) gomap \<Rightarrow> int \<Rightarrow> cache_error + cache" where
  "NewCache mkdir_ok dir maxGB =
    (if \<not> mkdir_ok then Inl CreateCacheDir
     else Inr (foldl load_entry
       \<lparr>ca_dir = dir, ca_maxGB = maxGB, ca_maxBytes = i64 (maxGB * 1024 * 1024 * 1024),
        ca_hits = 0, ca_misses = 0, ca_size = 0, ca_count = 0, ca_accessTimes = [], ca_sizes = []\<rparr> dir))"

definition entry_content :: "cache \<Rightarrow> string \<Rightarrow> byte list option" where
  "entry_content c n = (case gm_get (ca_dir c) n of None \<Rightarrow> None | Some e \<Rightarrow> ce_content e)"

definition entry_meta :: "cache \<Rightarrow> string \<Rightarrow> meta_file option" where
  "entry_meta c n = (case gm_get (ca_dir c) n of None \<Rightarrow> None | Some e \<Rightarrow> ce_meta e)"

text \<open>\<open>Get\<close>; the access time is recorded by a goroutine, the separate step \<open>cache_touch\<close>.\<close>

definition cache_Get :: "(string \<Rightarrow> string) \<Rightarrow> bool \<Rightarrow> string \<Rightarrow> cache \<Rightarrow> (cache_error + byte list) \<times> cache" where
  "cache_Get name open_ok key c =
    (case entry_content c (name key) of
       None \<Rightarrow> (Inl (CacheMiss key), c\<lparr>ca_misses := i64 (ca_misses c + 1)\<rparr>)
     | Some data \<Rightarrow>
         if \<not> open_ok then (Inl OpenCache, c)
         else (Inr data, c\<lparr>ca_hits := i64 (ca_hits c + 1)\<rparr>))"

definition cache_touch :: "(string \<Rightarrow> string) \<Rightarrow> int \<Rightarrow> string \<Rightarrow> cache \<Rightarrow> cache" where
  "cache_touch name now key c = c\<lparr>ca_accessTimes := gm_set (name key) now (ca_accessTimes c)\<rparr>"

definition cache_Has :: "(string \<Rightarrow> string) \<Rightarrow> string \<Rightarrow> cache \<Rightarrow> bool" where
  "cache_Has name key c \<longleftrightarrow> entry_content c (name key) \<noteq> None"

text \<open>The entries that \<open>evict\<close> considers: name, last access, size.\<close>

definition evict_entries :: "cache \<Rightarrow> (string \<times> int \<times> int) list" where
  "evict_entries c =
    gm_collect (\<lambda>k v. case gm_get (ca_sizes c) k of None \<Rightarrow> None | Some sz \<Rightarrow> Some (v, sz)) (ca_accessTimes c)"

definition drop_entry :: "string \<times> int \<times> int \<Rightarrow> cache \<Rightarrow> cache" where
  "drop_entry e c = (case e of (k, la, sz) \<Rightarrow>
    c\<lparr>ca_dir := gm_del k (ca_dir c), ca_accessTimes := gm_del k (ca_accessTimes c),
      ca_sizes := gm_del k (ca_sizes c), ca_count := i64 (ca_count c - 1), ca_size := i64 (ca_size c - sz)\<rparr>)"

fun evict_loop :: "(string \<Rightarrow> bool) \<Rightarrow> int \<Rightarrow> int \<Rightarrow> (string \<times> int \<times> int) list \<Rightarrow> cache \<Rightarrow> cache" where
  "evict_loop rm_ok target freed [] c = c"
| "evict_loop rm_ok target freed (e # es) c =
    (if freed \<ge> target then c
     else if \<not> rm_ok (fst e) then evict_loop rm_ok target freed es c
     else evict_loop rm_ok target (i64 (freed + snd (snd e))) es (drop_entry e c))"

definition cache_evict :: "(string \<Rightarrow> bool) \<Rightarrow> int \<Rightarrow> cache \<Rightarrow> cache" where
  "cache_evict rm_ok target c =
    evict_loop rm_ok target 0 (sort_key (\<lambda>(k, la, sz). la) (evict_entries c)) c"

text \<open>The outcomes of the calls that \<open>Put\<close> makes; \<open>fs_meta_left\<close> is what a failed write
  of \<open>meta.json\<close> leaves behind.\<close>

record fs_outcome =
  fs_mkdir :: bool
  fs_create :: bool
  fs_copy :: bool
  fs_meta :: bool
  fs_meta_left :: "meta_file option"

definition fs_fine :: fs_outcome where
  "fs_fine = \<lparr>fs_mkdir = True, fs_create = True, fs_copy = True, fs_meta = True, fs_meta_left = None\<rparr>"

definition set_entry :: "string \<Rightarrow> byte list option \<Rightarrow> meta_file option \<Rightarrow> cache \<Rightarrow> cache" where
  "set_entry n content meta c = c\<lparr>ca_dir := gm_set n \<lparr>ce_content = content, ce_meta = meta\<rparr> (ca_dir c)\<rparr>"

definition cache_Put ::
    "(string \<Rightarrow> string) \<Rightarrow> fs_outcome \<Rightarrow> (string \<Rightarrow> bool) \<Rightarrow> int \<Rightarrow> string \<Rightarrow> byte list \<Rightarrow> cache
     \<Rightarrow> cache_error option \<times> cache" where
  "cache_Put name fs rm_ok now key data c =
    (let n = name key; meta = entry_meta c n; content = entry_content c n in
     if \<not> fs_mkdir fs then (Some MkdirEntry, c)
     else if \<not> fs_create fs then (Some CreateFile, set_entry n content meta c)
     else if \<not> fs_copy fs then (Some WriteCache, set_entry n None meta c)
     else
       (let written = int (length data) in
        if \<not> fs_meta fs then (Some WriteMeta, set_entry n (Some data) (fs_meta_left fs) c)
        else
          (let c1 = set_entry n (Some data) (Some (Meta now written)) c;
               c2 = c1\<lparr>ca_accessTimes := gm_set n now (ca_accessTimes c), ca_sizes := gm_set n written (ca_sizes c)\<rparr>;
               c3 = (case meta of
                   Some (Meta la oldSize) \<Rightarrow> c2\<lparr>ca_size := i64 (ca_size c + (written - oldSize))\<rparr>
                 | _ \<Rightarrow> c2\<lparr>ca_count := i64 (ca_count c + 1), ca_size := i64 (ca_size c + written)\<rparr>);
               currentSize = ca_size c3
           in (None, if currentSize > ca_maxBytes c3
                then cache_evict rm_ok (i64 (currentSize - ca_maxBytes c3)) c3 else c3))))"

definition cache_Delete :: "(string \<Rightarrow> string) \<Rightarrow> bool \<Rightarrow> string \<Rightarrow> cache \<Rightarrow> cache_error option \<times> cache" where
  "cache_Delete name rm_ok key c =
    (let n = name key; meta = entry_meta c n in
     if \<not> rm_ok then (Some DeleteEntry, c)
     else
       (let c1 = c\<lparr>ca_dir := gm_del n (ca_dir c), ca_accessTimes := gm_del n (ca_accessTimes c),
                   ca_sizes := gm_del n (ca_sizes c)\<rparr>
        in (None, case meta of None \<Rightarrow> c1
              | Some m \<Rightarrow> c1\<lparr>ca_count := i64 (ca_count c - 1),
                  ca_size := i64 (ca_size c - (case m of Meta la sz \<Rightarrow> sz | BadMeta \<Rightarrow> 0))\<rparr>)))"

definition cache_Evict :: "(string \<Rightarrow> bool) \<Rightarrow> int \<Rightarrow> cache \<Rightarrow> cache" where
  "cache_Evict rm_ok target c = cache_evict rm_ok target c"

text \<open>A negative limit makes \<open>make([]string, limit)\<close> panic: \<^const>\<open>None\<close>.\<close>

definition HotKeys :: "int \<Rightarrow> cache \<Rightarrow> string list option" where
  "HotKeys limit c =
    (let items = sort_key (\<lambda>(k, la). - la) (ca_accessTimes c);
         limit = (if limit > int (length items) then int (length items) else limit)
     in if limit < 0 then None else Some (map fst (take (nat limit) items)))"

fun DeleteKeys :: "(string \<Rightarrow> string) \<Rightarrow> (string \<Rightarrow> bool) \<Rightarrow> string list \<Rightarrow> cache
    \<Rightarrow> (string, cache_error option) gomap \<times> cache" where
  "DeleteKeys name rm_ok [] c = ([], c)"
| "DeleteKeys name rm_ok (k # ks) c =
    (let (err, c1) = cache_Delete name (rm_ok k) k c; (res, c2) = DeleteKeys name rm_ok ks c1
     in (if k \<in> set ks then res else gm_set k err res, c2))"

definition AllKeys :: "cache \<Rightarrow> string list" where
  "AllKeys c = map fst (ca_accessTimes c)"

section \<open>Accounting\<close>

text \<open>The size that the metadata on disk gives an entry.\<close>

definition disk_size :: "cache \<Rightarrow> string \<Rightarrow> int option" where
  "disk_size c n = (case entry_meta c n of Some (Meta la sz) \<Rightarrow> Some sz | _ \<Rightarrow> None)"

definition cache_inv :: "cache \<Rightarrow> bool" where
  "cache_inv c \<longleftrightarrow> gm_wf (ca_dir c) \<and> gm_wf (ca_accessTimes c) \<and> gm_wf (ca_sizes c)
     \<and> (\<forall>n. gm_get (ca_sizes c) n = disk_size c n)
     \<and> (\<forall>n. gm_get (ca_sizes c) n \<noteq> None \<longrightarrow> gm_get (ca_accessTimes c) n \<noteq> None)
     \<and> ca_size c = i64 (gm_sum (ca_sizes c)) \<and> ca_count c = i64 (int (length (ca_sizes c)))
     \<and> (\<forall>n. get_or 0 (disk_size c n) \<ge> 0)
     \<and> (\<forall>n. entry_meta c n \<noteq> Some BadMeta)"

lemma cache_invD:
  assumes "cache_inv c"
  shows "gm_wf (ca_dir c)" "gm_wf (ca_accessTimes c)" "gm_wf (ca_sizes c)"
    "gm_get (ca_sizes c) n = disk_size c n"
    "gm_get (ca_sizes c) n \<noteq> None \<Longrightarrow> gm_get (ca_accessTimes c) n \<noteq> None"
    "ca_size c = i64 (gm_sum (ca_sizes c))" "ca_count c = i64 (int (length (ca_sizes c)))"
    "get_or 0 (disk_size c n) \<ge> 0" "entry_meta c n \<noteq> Some BadMeta"
  using assms unfolding cache_inv_def by blast+

lemma entry_meta_set [simp]: "entry_meta (set_entry n ct m c) n' = (if n' = n then m else entry_meta c n')"
  by (simp add: entry_meta_def set_entry_def)

lemma entry_content_set [simp]: "entry_content (set_entry n ct m c) n' = (if n' = n then ct else entry_content c n')"
  by (simp add: entry_content_def set_entry_def)

lemma set_entry_maps [simp]:
  "ca_accessTimes (set_entry n ct m c) = ca_accessTimes c" "ca_sizes (set_entry n ct m c) = ca_sizes c"
  "ca_size (set_entry n ct m c) = ca_size c" "ca_count (set_entry n ct m c) = ca_count c"
  "ca_maxBytes (set_entry n ct m c) = ca_maxBytes c"
  by (simp_all add: set_entry_def)

text \<open>\<open>ca_dir\<close> is all that the lookups on disk read.\<close>

lemma entry_cong: "ca_dir c' = ca_dir c \<Longrightarrow> entry_meta c' = entry_meta c" "ca_dir c' = ca_dir c \<Longrightarrow> entry_content c' = entry_content c"
  by (simp_all add: entry_meta_def entry_content_def fun_eq_iff)

lemma entry_drop [simp]:
  "entry_meta (drop_entry e c) n = (if n = fst e then None else entry_meta c n)"
  "entry_content (drop_entry e c) n = (if n = fst e then None else entry_content c n)"
  by (cases e; simp add: entry_meta_def entry_content_def drop_entry_def)+

lemma drop_entry_fields [simp]:
  "ca_accessTimes (drop_entry e c) = gm_del (fst e) (ca_accessTimes c)"
  "ca_sizes (drop_entry e c) = gm_del (fst e) (ca_sizes c)"
  "ca_dir (drop_entry e c) = gm_del (fst e) (ca_dir c)"
  "ca_count (drop_entry e c) = i64 (ca_count c - 1)"
  "ca_size (drop_entry e c) = i64 (ca_size c - snd (snd e))"
  "ca_maxBytes (drop_entry e c) = ca_maxBytes c"
  by (cases e; simp add: drop_entry_def)+

lemma drop_entry_inv:
  assumes "cache_inv c" "gm_get (ca_sizes c) (fst e) = Some (snd (snd e))"
  shows "cache_inv (drop_entry e c)"
  using cache_invD [OF assms(1)] assms(2)
  by (simp add: cache_inv_def disk_size_def gm_sum_del gm_length_del)

lemma evict_entries_keys: "cache_inv c \<Longrightarrow> distinct (map fst (evict_entries c))"
  using gm_collect_wf [OF cache_invD(2)] by (simp add: evict_entries_def gm_wf_def)

lemma evict_entries_in:
  "cache_inv c \<Longrightarrow> (k, la, sz) \<in> set (evict_entries c) \<longleftrightarrow>
    gm_get (ca_accessTimes c) k = Some la \<and> gm_get (ca_sizes c) k = Some sz"
  using gm_collect_wf [OF cache_invD(2)] cache_invD(2)
  by (auto simp: evict_entries_def gm_get_in [symmetric] gm_get_collect split: option.splits)

lemma evict_entries_all:
  "cache_inv c \<Longrightarrow> gm_get (ca_sizes c) k = Some sz \<Longrightarrow> \<exists>la. (k, la, sz) \<in> set (evict_entries c)"
  using cache_invD(5) [of c k] by (auto simp: evict_entries_in)

definition evict_order :: "cache \<Rightarrow> (string \<times> int \<times> int) list" where
  "evict_order c = sort_key (\<lambda>(k, la, sz). la) (evict_entries c)"

text \<open>A list of entries that can be dropped one after the other.\<close>

definition droppable :: "(string \<times> int \<times> int) list \<Rightarrow> cache \<Rightarrow> bool" where
  "droppable es c \<longleftrightarrow> distinct (map fst es) \<and> (\<forall>e \<in> set es. gm_get (ca_sizes c) (fst e) = Some (snd (snd e)))"

lemma droppable_Cons: "droppable (e # es) c \<Longrightarrow> droppable es c \<and> droppable es (drop_entry e c)
    \<and> gm_get (ca_sizes c) (fst e) = Some (snd (snd e))"
proof -
  assume d: "droppable (e # es) c"
  then have "fst e \<notin> fst ` set es" by (simp add: droppable_def)
  then have "fst e' \<noteq> fst e" if "e' \<in> set es" for e'
    using that by (metis imageI)
  with d show ?thesis by (simp add: droppable_def)
qed

lemma droppable_order: "cache_inv c \<Longrightarrow> droppable (evict_order c) c"
proof -
  assume inv: "cache_inv c"
  have "distinct (map fst (sort_key (\<lambda>(k, la, sz). la) (evict_entries c)))"
    using evict_entries_keys [OF inv] by (simp add: distinct_map inj_on_def)
  then show ?thesis
    using evict_entries_in [OF inv] by (auto simp: droppable_def evict_order_def)
qed

lemma evict_loop_inv: "\<lbrakk>cache_inv c; droppable es c\<rbrakk> \<Longrightarrow> cache_inv (evict_loop rm_ok target freed es c)"
proof (induction es arbitrary: freed c)
  case (Cons e es)
  note d = droppable_Cons [OF Cons.prems(2)]
  show ?case
    using Cons.IH [of c] Cons.IH [of "drop_entry e c"] drop_entry_inv [of c e] d Cons.prems by simp
qed simp

lemma cache_evict_inv [inv_intros]: "cache_inv c \<Longrightarrow> cache_inv (cache_evict rm_ok target c)"
  using evict_loop_inv [OF _ droppable_order] by (simp add: cache_evict_def evict_order_def)

section \<open>The operations keep the accounting\<close>

lemma cache_touch_inv [inv_intros]: "cache_inv c \<Longrightarrow> cache_inv (cache_touch name now key c)"
  using entry_cong(1) [of "cache_touch name now key c" c]
  by (simp add: cache_inv_def cache_touch_def disk_size_def)

lemma cache_Get_inv [inv_intros]: "cache_inv c \<Longrightarrow> cache_inv (snd (cache_Get name open_ok key c))"
  using entry_cong(1) [of "c\<lparr>ca_misses := i64 (ca_misses c + 1)\<rparr>" c] entry_cong(1) [of "c\<lparr>ca_hits := i64 (ca_hits c + 1)\<rparr>" c]
  by (simp add: cache_inv_def cache_Get_def disk_size_def split: option.splits)

lemma set_entry_same_meta_inv: "cache_inv c \<Longrightarrow> cache_inv (set_entry n ct (entry_meta c n) c)"
  by (simp add: cache_inv_def disk_size_def) (simp add: set_entry_def)

text \<open>The state of \<open>Put\<close> before it looks at the limit.\<close>

definition put_entry :: "string \<Rightarrow> int \<Rightarrow> byte list \<Rightarrow> cache \<Rightarrow> cache" where
  "put_entry n now data c =
    (let written = int (length data);
         c1 = set_entry n (Some data) (Some (Meta now written)) c;
         c2 = c1\<lparr>ca_accessTimes := gm_set n now (ca_accessTimes c), ca_sizes := gm_set n written (ca_sizes c)\<rparr>
     in case entry_meta c n of
          Some (Meta la oldSize) \<Rightarrow> c2\<lparr>ca_size := i64 (ca_size c + (written - oldSize))\<rparr>
        | _ \<Rightarrow> c2\<lparr>ca_count := i64 (ca_count c + 1), ca_size := i64 (ca_size c + written)\<rparr>)"

lemma put_entry_fields:
  "ca_accessTimes (put_entry n now data c) = gm_set n now (ca_accessTimes c)"
  "ca_sizes (put_entry n now data c) = gm_set n (int (length data)) (ca_sizes c)"
  "ca_dir (put_entry n now data c) = gm_set n \<lparr>ce_content = Some data, ce_meta = Some (Meta now (int (length data)))\<rparr> (ca_dir c)"
  "ca_maxBytes (put_entry n now data c) = ca_maxBytes c"
  by (simp_all add: put_entry_def Let_def set_entry_def split: option.splits meta_file.splits)

lemma put_entry_disk:
  "entry_meta (put_entry n now data c) k = (if k = n then Some (Meta now (int (length data))) else entry_meta c k)"
  "entry_content (put_entry n now data c) k = (if k = n then Some data else entry_content c k)"
  by (simp_all add: entry_meta_def entry_content_def put_entry_fields)

lemma put_entry_inv:
  assumes inv: "cache_inv c"
  shows "cache_inv (put_entry n now data c)"
proof -
  note D = cache_invD [OF inv]
  have "ca_size (put_entry n now data c) = i64 (gm_sum (gm_set n (int (length data)) (ca_sizes c)))"
    "ca_count (put_entry n now data c) = i64 (int (length (gm_set n (int (length data)) (ca_sizes c))))"
    using D(4) [of n] D(6,7) D(9) [of n]
    by (auto simp: put_entry_def Let_def disk_size_def gm_sum_set gm_length_set
        split: option.splits meta_file.splits) (simp_all add: algebra_simps)
  with D show ?thesis
    by (simp add: cache_inv_def put_entry_fields put_entry_disk disk_size_def)
qed

lemma cache_Put_ok:
  "fs_mkdir fs \<Longrightarrow> fs_create fs \<Longrightarrow> fs_copy fs \<Longrightarrow> fs_meta fs \<Longrightarrow>
    cache_Put name fs rm_ok now key data c =
      (None, let c' = put_entry (name key) now data c
         in if ca_size c' > ca_maxBytes c' then cache_evict rm_ok (i64 (ca_size c' - ca_maxBytes c')) c' else c')"
  by (simp add: cache_Put_def put_entry_def Let_def split: option.splits meta_file.splits)

lemma cache_Put_inv [inv_intros]:
  assumes "cache_inv c" "fs_meta fs"
  shows "cache_inv (snd (cache_Put name fs rm_ok now key data c))"
proof (cases "fs_mkdir fs \<and> fs_create fs \<and> fs_copy fs")
  case True
  then show ?thesis
    using assms put_entry_inv [OF assms(1)] by (simp add: cache_Put_ok Let_def cache_evict_inv)
next
  case False
  then show ?thesis
    using assms set_entry_same_meta_inv [OF assms(1)] by (auto simp: cache_Put_def Let_def)
qed

lemma cache_Delete_inv [inv_intros]:
  assumes inv: "cache_inv c"
  shows "cache_inv (snd (cache_Delete name rm_ok key c))"
proof (cases rm_ok)
  case True
  note D = cache_invD [OF inv]
  let ?n = "name key"
  let ?c = "snd (cache_Delete name True key c)"
  have f: "ca_dir ?c = gm_del ?n (ca_dir c)" "ca_accessTimes ?c = gm_del ?n (ca_accessTimes c)"
    "ca_sizes ?c = gm_del ?n (ca_sizes c)"
    by (simp_all add: cache_Delete_def Let_def split: option.splits)
  then have e: "entry_meta ?c k = (if k = ?n then None else entry_meta c k)" for k
    by (simp add: entry_meta_def)
  have "ca_size ?c = i64 (gm_sum (gm_del ?n (ca_sizes c)))"
    "ca_count ?c = i64 (int (length (gm_del ?n (ca_sizes c))))"
    using D(3) D(4) [of ?n] D(6,7) D(9) [of ?n]
    by (auto simp: cache_Delete_def Let_def gm_sum_del gm_length_del disk_size_def
        split: option.splits meta_file.splits)
  with D f e True show ?thesis
    by (simp add: cache_inv_def disk_size_def)
qed (simp add: cache_Delete_def inv Let_def)

section \<open>Runs\<close>

text \<open>The operations as steps, in any order and with any failing call but the write of
  the metadata file.\<close>

inductive cache_step :: "(string \<Rightarrow> string) \<Rightarrow> cache \<Rightarrow> cache \<Rightarrow> bool" for name where
  get: "cache_step name c (snd (cache_Get name open_ok key c))"
| touch: "cache_step name c (cache_touch name now key c)"
| put: "fs_meta fs \<Longrightarrow> cache_step name c (snd (cache_Put name fs rm_ok now key data c))"
| delete: "cache_step name c (snd (cache_Delete name rm key c))"
| evict: "cache_step name c (cache_Evict rm_ok target c)"

inductive_cases cache_stepE: "cache_step name c c'"

lemma cache_step_inv: "\<lbrakk>cache_step name c c'; cache_inv c\<rbrakk> \<Longrightarrow> cache_inv c'"
  by (induction rule: cache_step.induct) (simp_all add: inv_intros cache_Evict_def)

lemma cache_run_inv: "\<lbrakk>(cache_step name)\<^sup>*\<^sup>* c c'; cache_inv c\<rbrakk> \<Longrightarrow> cache_inv c'"
  by (induction rule: rtranclp_induct) (auto intro: cache_step_inv)

text \<open>The entries on disk that have readable metadata, with the sizes recorded there.\<close>

definition disk_sizes :: "(string, cache_entry) gomap \<Rightarrow> (string, int) gomap" where
  "disk_sizes dir = gm_collect (\<lambda>n e. entry_size e) dir"

lemma disk_sizes_get: "gm_wf (ca_dir c) \<Longrightarrow> gm_get (disk_sizes (ca_dir c)) n = disk_size c n"
  by (simp add: disk_sizes_def gm_get_collect disk_size_def entry_meta_def entry_size_def split: option.splits)

lemma cache_inv_disk:
  assumes "cache_inv c"
  shows "ca_size c = i64 (gm_sum (disk_sizes (ca_dir c)))" "ca_count c = i64 (int (length (disk_sizes (ca_dir c))))"
proof -
  note D = cache_invD [OF assms]
  have "gm_sum (ca_sizes c) = gm_sum (disk_sizes (ca_dir c)) \<and> length (ca_sizes c) = length (disk_sizes (ca_dir c))"
    using D by (intro gm_ext_sum) (simp_all add: disk_sizes_def [symmetric] disk_sizes_get, simp add: disk_sizes_def)
  then show "ca_size c = i64 (gm_sum (disk_sizes (ca_dir c)))" "ca_count c = i64 (int (length (disk_sizes (ca_dir c))))"
    using D by simp_all
qed

text \<open>A directory to start from: no two entries of the same name, no unreadable
  metadata, no negative size.\<close>

definition dir_ok :: "(string, cache_entry) gomap \<Rightarrow> bool" where
  "dir_ok dir \<longleftrightarrow> gm_wf dir \<and> (\<forall>(n, e) \<in> set dir. ce_meta e \<noteq> Some BadMeta \<and> get_or 0 (entry_size e) \<ge> 0)"

lemma load_entry_dir [simp]: "ca_dir (load_entry c p) = ca_dir c"
  by (simp add: load_entry_def split: prod.splits option.splits meta_file.splits)

text \<open>What loading keeps, and what it makes of the sizes.\<close>

definition load_ok :: "cache \<Rightarrow> bool" where
  "load_ok c \<longleftrightarrow> gm_wf (ca_sizes c) \<and> gm_wf (ca_accessTimes c)
     \<and> ca_size c = i64 (gm_sum (ca_sizes c)) \<and> ca_count c = i64 (int (length (ca_sizes c)))
     \<and> (\<forall>n. gm_get (ca_sizes c) n \<noteq> None \<longrightarrow> gm_get (ca_accessTimes c) n \<noteq> None)"

lemma load_entry_ok: "\<lbrakk>load_ok c; gm_get (ca_sizes c) n = None\<rbrakk> \<Longrightarrow> load_ok (load_entry c (n, e))"
  by (simp add: load_ok_def load_entry_def gm_sum_set gm_length_set add.commute
      split: option.splits meta_file.splits)

lemma load_entry_sizes:
  "gm_get (ca_sizes (load_entry c (n, e))) k =
    (if k = n \<and> entry_size e \<noteq> None then entry_size e else gm_get (ca_sizes c) k)"
  by (simp add: load_entry_def entry_size_def split: option.splits meta_file.splits)

lemma load_entries:
  "\<lbrakk>load_ok c; gm_wf dir; \<And>n. n \<in> fst ` set dir \<Longrightarrow> gm_get (ca_sizes c) n = None\<rbrakk> \<Longrightarrow>
    load_ok (foldl load_entry c dir) \<and> ca_dir (foldl load_entry c dir) = ca_dir c \<and>
    (\<forall>k. gm_get (ca_sizes (foldl load_entry c dir)) k =
       (case gm_get (disk_sizes dir) k of None \<Rightarrow> gm_get (ca_sizes c) k | Some s \<Rightarrow> Some s))"
proof (induction dir arbitrary: c)
  case (Cons p dir)
  obtain n e where p: "p = (n, e)" by fastforce
  have wf: "gm_wf dir" "n \<notin> fst ` set dir" using Cons.prems(2) p by (auto simp: gm_wf_def)
  then have nd: "gm_get (disk_sizes dir) n = None"
    using gm_collect_keys [of "\<lambda>n e. entry_size e" dir] by (auto simp: disk_sizes_def map_of_eq_None_iff)
  have none: "gm_get (ca_sizes (load_entry c (n, e))) k = None" if "k \<in> fst ` set dir" for k
  proof -
    have "k \<noteq> n" "gm_get (ca_sizes c) k = None" using that wf(2) Cons.prems(3) [of k] by auto
    then show ?thesis by (simp add: load_entry_sizes)
  qed
  have "gm_get (ca_sizes c) n = None" using Cons.prems(3) [of n] p by simp
  note IH = Cons.IH [OF load_entry_ok [OF Cons.prems(1) this, of e] wf(1) none]
  have "(case gm_get (disk_sizes dir) k of None \<Rightarrow> gm_get (ca_sizes (load_entry c (n, e))) k | Some s \<Rightarrow> Some s) =
      (case gm_get (disk_sizes (p # dir)) k of None \<Rightarrow> gm_get (ca_sizes c) k | Some s \<Rightarrow> Some s)" for k
    using nd by (cases "entry_size e") (auto simp: p disk_sizes_def load_entry_sizes split: option.split)
  with IH p show ?case by simp
qed (simp add: disk_sizes_def)

lemma NewCache_inv:
  assumes ok: "dir_ok dir" and new: "NewCache True dir maxGB = Inr c"
  shows "cache_inv c" "ca_dir c = dir"
proof -
  have wf: "gm_wf dir" using ok by (simp add: dir_ok_def)
  have c: "ca_dir c = dir \<and> gm_wf (ca_sizes c) \<and> gm_wf (ca_accessTimes c) \<and>
    (\<forall>n. gm_get (ca_sizes c) n = gm_get (disk_sizes dir) n) \<and>
    ca_size c = i64 (gm_sum (ca_sizes c)) \<and> ca_count c = i64 (int (length (ca_sizes c))) \<and>
    (\<forall>n. gm_get (ca_sizes c) n \<noteq> None \<longrightarrow> gm_get (ca_accessTimes c) n \<noteq> None)"
    using load_entries [OF _ wf, of "\<lparr>ca_dir = dir, ca_maxGB = maxGB, ca_maxBytes = i64 (maxGB * 1024 * 1024 * 1024),
        ca_hits = 0, ca_misses = 0, ca_size = 0, ca_count = 0, ca_accessTimes = [], ca_sizes = []\<rparr>"] new
    by (simp add: NewCache_def load_ok_def option.case_eq_if)
  have e: "ce_meta e \<noteq> Some BadMeta \<and> get_or 0 (entry_size e) \<ge> 0" if "gm_get dir n = Some e" for n e
    using ok map_of_SomeD [OF that] by (auto simp: dir_ok_def)
  have "entry_meta c n \<noteq> Some BadMeta" "get_or 0 (disk_size c n) \<ge> 0" for n
    using e [of n] c by (auto simp: entry_meta_def disk_size_def entry_size_def split: option.splits meta_file.splits)
  then show "cache_inv c" "ca_dir c = dir"
    using c wf disk_sizes_get [of c] by (simp_all add: cache_inv_def)
qed

section \<open>Eviction\<close>

definition total :: "(string \<times> int \<times> int) list \<Rightarrow> int" where
  "total es = sum_list (map (snd \<circ> snd) es)"

lemma total_simps [simp]: "total [] = 0" "total (e # es) = snd (snd e) + total es" "total (es @ fs) = total es + total fs"
  by (simp_all add: total_def)

lemma total_nonneg: "\<forall>e \<in> set es. 0 \<le> snd (snd e) \<Longrightarrow> 0 \<le> total es"
  by (induction es) auto

lemma total_mset: "mset es = mset fs \<Longrightarrow> total es = total fs"
  unfolding total_def by (metis mset_map sum_mset_sum_list)

text \<open>With every removal succeeding, the loop drops the shortest prefix that frees the
  target.\<close>

definition shortest_prefix :: "int \<Rightarrow> (string \<times> int \<times> int) list \<Rightarrow> nat \<Rightarrow> bool" where
  "shortest_prefix target es n \<longleftrightarrow> n \<le> length es \<and> (n = length es \<or> target \<le> total (take n es))
     \<and> (\<forall>m < n. total (take m es) < target)"

lemma evict_loop_prefix:
  "\<lbrakk>\<forall>e \<in> set es. 0 \<le> snd (snd e); 0 \<le> freed; is_i64 (freed + total es); \<forall>e \<in> set es. rm_ok (fst e)\<rbrakk> \<Longrightarrow>
    \<exists>n. shortest_prefix (target - freed) es n \<and> evict_loop rm_ok target freed es c = fold drop_entry (take n es) c"
proof (induction es arbitrary: freed c)
  case (Cons e es)
  show ?case
  proof (cases "freed \<ge> target")
    case True
    then show ?thesis by (intro exI [of _ 0]) (simp add: shortest_prefix_def)
  next
    case False
    have "0 \<le> snd (snd e)" "0 \<le> total es" using Cons.prems(1) total_nonneg [of es] by simp_all
    then have i: "i64 (freed + snd (snd e)) = freed + snd (snd e)" "is_i64 (freed + snd (snd e) + total es)"
      using Cons.prems(2,3) by (simp_all add: is_i64_def)
    obtain n where n: "shortest_prefix (target - (freed + snd (snd e))) es n"
      "evict_loop rm_ok target (freed + snd (snd e)) es (drop_entry e c) = fold drop_entry (take n es) (drop_entry e c)"
      using Cons.IH [of "freed + snd (snd e)" "drop_entry e c"] Cons.prems(1,2,4) i \<open>0 \<le> snd (snd e)\<close> by auto
    have "total (take m (e # es)) < target - freed" if "m < Suc n" for m
      using n(1) False that by (cases m) (auto simp: shortest_prefix_def)
    with n False i Cons.prems(4) show ?thesis
      by (intro exI [of _ "Suc n"]) (auto simp: shortest_prefix_def)
  qed
qed (simp add: shortest_prefix_def)

lemma fold_drop:
  "droppable es c \<Longrightarrow>
    gm_wf (ca_sizes c) \<Longrightarrow> gm_sum (ca_sizes (fold drop_entry es c)) = gm_sum (ca_sizes c) - total es"
  "gm_get (ca_sizes (fold drop_entry es c)) k = (if k \<in> fst ` set es then None else gm_get (ca_sizes c) k)"
  "entry_content (fold drop_entry es c) k = (if k \<in> fst ` set es then None else entry_content c k)"
  "entry_meta (fold drop_entry es c) k = (if k \<in> fst ` set es then None else entry_meta c k)"
  "ca_maxBytes (fold drop_entry es c) = ca_maxBytes c"
proof -
  show "droppable es c \<Longrightarrow> gm_wf (ca_sizes c) \<Longrightarrow> gm_sum (ca_sizes (fold drop_entry es c)) = gm_sum (ca_sizes c) - total es"
  proof (induction es arbitrary: c)
    case (Cons e es)
    from droppable_Cons [OF Cons.prems(1)] Cons.IH [of "drop_entry e c"] Cons.prems(2) show ?case
      by (simp add: gm_sum_del)
  qed simp
qed (induct es arbitrary: c; simp)+

lemma total_order: "cache_inv c \<Longrightarrow> total (evict_order c) = gm_sum (ca_sizes c)"
proof -
  assume inv: "cache_inv c"
  let ?m = "map (\<lambda>(k, la, sz). (k, sz)) (evict_entries c)"
  have keys: "map fst ?m = map fst (evict_entries c)" by (simp add: comp_def split_beta)
  have wf: "gm_wf ?m" using evict_entries_keys [OF inv] unfolding gm_wf_def keys .
  have get: "gm_get ?m k = Some sz \<longleftrightarrow> gm_get (ca_sizes c) k = Some sz" for k sz
    using evict_entries_in [OF inv] evict_entries_all [OF inv, of k sz] by (force simp: gm_get_in [OF wf])
  have "gm_get ?m k = gm_get (ca_sizes c) k" for k
    using get [of k] by (cases "gm_get (ca_sizes c) k") (auto simp del: split_paired_All)
  then have "gm_sum ?m = gm_sum (ca_sizes c)"
    using gm_ext_sum [OF wf cache_invD(3) [OF inv]] by blast
  moreover have "gm_sum ?m = total (evict_entries c)"
    by (simp add: gm_sum_def total_def comp_def split_beta)
  moreover have "total (evict_order c) = total (evict_entries c)"
    by (rule total_mset) (simp add: evict_order_def)
  ultimately show ?thesis by simp
qed

lemma evict_order_sizes: "cache_inv c \<Longrightarrow> \<forall>e \<in> set (evict_order c). 0 \<le> snd (snd e)"
proof
  fix e assume inv: "cache_inv c" and "e \<in> set (evict_order c)"
  then have "gm_get (ca_sizes c) (fst e) = Some (snd (snd e))"
    using droppable_order [OF inv] by (simp add: droppable_def)
  then show "0 \<le> snd (snd e)"
    using cache_invD(4,8) [OF inv, of "fst e"] by (metis get_or_simps(2))
qed

lemma cache_evict_prefix:
  assumes inv: "cache_inv c" and "is_i64 (gm_sum (ca_sizes c))" and rm: "\<And>n. rm_ok n"
  shows "\<exists>n. shortest_prefix target (evict_order c) n \<and> cache_evict rm_ok target c = fold drop_entry (take n (evict_order c)) c"
  using evict_loop_prefix [OF evict_order_sizes [OF inv], of 0 rm_ok target c] assms total_order [OF inv]
  by (simp add: cache_evict_def evict_order_def)

lemma droppable_take: "droppable es c \<Longrightarrow> droppable (take n es) c"
  by (auto simp: droppable_def distinct_map take_map [symmetric] dest: in_set_takeD intro: inj_on_subset distinct_take)

lemma cache_evict_sum:
  assumes inv: "cache_inv c" and i: "is_i64 (gm_sum (ca_sizes c))" and rm: "\<And>n. rm_ok n"
  shows "gm_sum (ca_sizes (cache_evict rm_ok target c)) \<le> max 0 (gm_sum (ca_sizes c) - target)"
proof -
  obtain n where n: "shortest_prefix target (evict_order c) n"
    "cache_evict rm_ok target c = fold drop_entry (take n (evict_order c)) c"
    using cache_evict_prefix [OF inv i] rm by blast
  have "gm_sum (ca_sizes (cache_evict rm_ok target c)) = gm_sum (ca_sizes c) - total (take n (evict_order c))"
    using n(2) fold_drop(1) [OF droppable_take [OF droppable_order [OF inv]] cache_invD(3) [OF inv], of n] by simp
  then show ?thesis
    using n(1) total_order [OF inv] by (auto simp: shortest_prefix_def)
qed

section \<open>Properties\<close>


definition sample_cache :: cache where
  "sample_cache = \<lparr>ca_dir = [(''e1'', \<lparr>ce_content = Some [1, 2, 3], ce_meta = Some (Meta 10 3)\<rparr>)],
     ca_maxGB = 1, ca_maxBytes = 1073741824, ca_hits = 0, ca_misses = 0, ca_size = 3, ca_count = 1,
     ca_accessTimes = [(''e1'', 10)], ca_sizes = [(''e1'', 3)]\<rparr>"

lemma sample_cache_New:
  "NewCache True [(''e1'', \<lparr>ce_content = Some [1, 2, 3], ce_meta = Some (Meta 10 3)\<rparr>)] 1 = Inr sample_cache"
  "dir_ok [(''e1'', \<lparr>ce_content = Some [1, 2, 3], ce_meta = Some (Meta 10 3)\<rparr>)]"
  by (simp_all add: NewCache_def load_entry_def sample_cache_def i64_def dir_ok_def gm_wf_def entry_size_def)

lemma sample_cache_inv: "cache_inv sample_cache"
  using NewCache_inv(1) [OF sample_cache_New(2,1)] .




lemma put_sum:
  assumes "cache_inv c"
  shows "gm_sum (ca_sizes (put_entry n now data c)) \<le> gm_sum (ca_sizes c) + int (length data)"
    "0 \<le> gm_sum (ca_sizes (put_entry n now data c))"
proof -
  show "gm_sum (ca_sizes (put_entry n now data c)) \<le> gm_sum (ca_sizes c) + int (length data)"
    using cache_invD(4,8) [OF assms, of n] by (simp add: put_entry_fields gm_sum_set)
  have "0 \<le> v" if "(k, v) \<in> set (ca_sizes (put_entry n now data c))" for k v
    using that gm_get_in [OF cache_invD(3) [OF put_entry_inv [OF assms]]]
      cache_invD(4,8) [OF put_entry_inv [OF assms, of n now data], of k] by (metis get_or_simps(2))
  then show "0 \<le> gm_sum (ca_sizes (put_entry n now data c))" by (rule gm_sum_nonneg)
qed

text \<open>
  A \<open>Put\<close> whose file system calls succeed leaves the total size of the cache within
  its limit.
\<close>

theorem cache_Put_within_limit:
  assumes inv: "cache_inv c" and lim: "0 \<le> ca_maxBytes c" "is_i64 (ca_maxBytes c)"
    and small: "is_i64 (gm_sum (ca_sizes c) + int (length data))" and rm: "\<And>n. rm_ok n"
  shows "fst (cache_Put name fs_fine rm_ok now key data c) = None \<and>
    ca_size (snd (cache_Put name fs_fine rm_ok now key data c)) \<le> ca_maxBytes c"
proof -
  let ?c = "put_entry (name key) now data c"
  have ok: "fs_mkdir fs_fine" "fs_create fs_fine" "fs_copy fs_fine" "fs_meta fs_fine" by (simp_all add: fs_fine_def)
  note pinv = put_entry_inv [OF inv, of "name key" now data]
  have si: "is_i64 (gm_sum (ca_sizes ?c))" and size: "ca_size ?c = gm_sum (ca_sizes ?c)"
    using put_sum [OF inv, of "name key" now data] small cache_invD(6) [OF pinv] by (auto simp: is_i64_def)
  have max: "ca_maxBytes ?c = ca_maxBytes c" by (simp add: put_entry_fields)
  show ?thesis
  proof (cases "ca_size ?c > ca_maxBytes c")
    case True
    let ?t = "gm_sum (ca_sizes ?c) - ca_maxBytes c"
    have t: "i64 (ca_size ?c - ca_maxBytes c) = ?t"
      using True size si lim by (intro trans [OF i64_id]) (auto simp: is_i64_def)
    let ?e = "cache_evict rm_ok ?t ?c"
    have "gm_sum (ca_sizes ?e) \<le> ca_maxBytes c"
      using cache_evict_sum [OF pinv si, of rm_ok ?t] rm lim by simp
    moreover have einv: "cache_inv ?e" using pinv by (rule cache_evict_inv)
    moreover have "0 \<le> gm_sum (ca_sizes ?e)"
      using cache_invD(3,4,8) [OF einv] gm_get_in [OF cache_invD(3) [OF einv]]
      by (intro gm_sum_nonneg) (metis get_or_simps(2))
    ultimately have "ca_size ?e \<le> ca_maxBytes c"
      using cache_invD(6) [OF einv] lim by (simp add: is_i64_def)
    then show ?thesis using True t max by (simp add: cache_Put_ok [OF ok] Let_def)
  qed (simp add: cache_Put_ok [OF ok] max Let_def)
qed

theorem cache_Put_within_limit_witness:
  "ca_size (snd (cache_Put id fs_fine (\<lambda>_. True) 20 ''k'' [7, 8] sample_cache)) \<le> 1073741824"
  using cache_Put_within_limit [OF sample_cache_inv, of "[7, 8]" "\<lambda>_. True" id 20 "''k''"]
  by (simp add: sample_cache_def is_i64_def gm_sum_def)

lemma put_survives_order:
  assumes inv: "cache_inv c" and e: "(n, now, sz) \<in> set (evict_order c)"
    and latest: "\<And>k la. \<lbrakk>gm_get (ca_accessTimes c) k = Some la; k \<noteq> n\<rbrakk> \<Longrightarrow> la < now"
  shows "\<exists>xs. evict_order c = xs @ [(n, now, sz)] \<and> n \<notin> fst ` set xs"
proof -
  obtain xs ys where split: "evict_order c = xs @ (n, now, sz) # ys"
    using split_list [OF e] by blast
  have dist: "distinct (map fst (evict_order c))"
    using droppable_order [OF inv] by (simp add: droppable_def)
  have "ys = []"
  proof (rule ccontr)
    assume "ys \<noteq> []"
    then obtain k la s zs where ys: "ys = (k, la, s) # zs"
      by (metis list.exhaust prod_cases3)
    have "sorted (map (\<lambda>(k, la, sz). la) (evict_order c))" by (simp add: evict_order_def)
    then have "now \<le> la" by (simp add: split ys sorted_append)
    moreover have "k \<noteq> n" using dist by (auto simp: split ys)
    moreover have "(k, la, s) \<in> set (evict_order c)" by (simp add: split ys)
    then have "(k, la, s) \<in> set (evict_entries c)" by (simp add: evict_order_def)
    then have "gm_get (ca_accessTimes c) k = Some la" by (simp add: evict_entries_in [OF inv])
    ultimately show False using latest by force
  qed
  with split dist show ?thesis by auto
qed

text \<open>
  An object that fits into the cache is readable after its own \<open>Put\<close>, even when the
  \<open>Put\<close> evicts, provided the clock has moved on since the recorded accesses; and without
  eviction every other entry reads as before.
\<close>

theorem cache_Put_Get:
  assumes inv: "cache_inv c" and lim: "int (length data) \<le> ca_maxBytes c" "is_i64 (ca_maxBytes c)"
    and small: "is_i64 (gm_sum (ca_sizes c) + int (length data))" and rm: "\<And>n. rm_ok n"
    and clock: "\<And>k la. gm_get (ca_accessTimes c) k = Some la \<Longrightarrow> la < now"
    and put: "cache_Put name fs_fine rm_ok now key data c = (err, c')"
  shows "err = None \<and> fst (cache_Get name True key c') = Inr data
    \<and> (gm_sum (ca_sizes c) + int (length data) \<le> ca_maxBytes c \<longrightarrow>
        (\<forall>key'. name key' \<noteq> name key \<longrightarrow> fst (cache_Get name True key' c') = fst (cache_Get name True key' c)))"
proof -
  let ?n = "name key"
  let ?c = "put_entry ?n now data c"
  have ok: "fs_mkdir fs_fine" "fs_create fs_fine" "fs_copy fs_fine" "fs_meta fs_fine" by (simp_all add: fs_fine_def)
  note pinv = put_entry_inv [OF inv, of ?n now data]
  note sum = put_sum [OF inv, where n = ?n and now = now and data = data]
  have si: "is_i64 (gm_sum (ca_sizes ?c))" and size: "ca_size ?c = gm_sum (ca_sizes ?c)"
    using sum small cache_invD(6) [OF pinv] by (auto simp: is_i64_def)
  have max: "ca_maxBytes ?c = ca_maxBytes c" by (simp add: put_entry_fields)
  show ?thesis
  proof (cases "ca_size ?c > ca_maxBytes c")
    case True
    let ?t = "gm_sum (ca_sizes ?c) - ca_maxBytes c"
    have t: "i64 (ca_size ?c - ca_maxBytes c) = ?t"
      using True size si lim by (intro trans [OF i64_id]) (auto simp: is_i64_def)
    obtain m where m: "shortest_prefix ?t (evict_order ?c) m"
      "cache_evict rm_ok ?t ?c = fold drop_entry (take m (evict_order ?c)) ?c"
      using cache_evict_prefix [OF pinv si] rm by blast
    have "(?n, now, int (length data)) \<in> set (evict_order ?c)"
      by (simp add: evict_order_def evict_entries_in [OF pinv] put_entry_fields)
    from put_survives_order [OF pinv this] obtain xs
      where xs: "evict_order ?c = xs @ [(?n, now, int (length data))]" "?n \<notin> fst ` set xs"
      using clock by (fastforce simp: put_entry_fields split: if_splits)
    have "?t \<le> total xs"
      using total_order [OF pinv] xs(1) lim by simp
    then have "m \<le> length xs"
      using m(1) xs(1) by (auto simp: shortest_prefix_def dest!: spec [of _ "length xs"])
    then have "?n \<notin> fst ` set (take m (evict_order ?c))"
      using xs by (auto dest: in_set_takeD)
    then have "entry_content (cache_evict rm_ok ?t ?c) ?n = Some data"
      using m(2) fold_drop(3) [of "take m (evict_order ?c)" ?c] by (simp add: put_entry_disk)
    with True t max size sum(1) put show ?thesis
      by (auto simp: cache_Put_ok [OF ok] Let_def cache_Get_def)
  next
    case False
    then have "c' = ?c" "err = None" using put by (simp_all add: cache_Put_ok [OF ok] max Let_def)
    then show ?thesis by (simp add: cache_Get_def put_entry_disk split: option.splits)
  qed
qed

theorem cache_Put_Get_witness:
  "\<exists>err c'. cache_Put id fs_fine (\<lambda>_. True) 20 ''k'' [7, 8] sample_cache = (err, c') \<and>
    fst (cache_Get id True ''k'' c') = Inr [7, 8] \<and> fst (cache_Get id True ''e1'' c') = Inr [1, 2, 3]"
proof -
  obtain err c' where put: "cache_Put id fs_fine (\<lambda>_. True) 20 ''k'' [7, 8] sample_cache = (err, c')" by fastforce
  have "fst (cache_Get id True ''e1'' sample_cache) = Inr [1, 2, 3]"
    by (simp add: cache_Get_def entry_content_def sample_cache_def)
  moreover have "la < 20" if "gm_get (ca_accessTimes sample_cache) k = Some la" for k la
    using that by (simp add: sample_cache_def split: if_splits)
  moreover have "int (length [7, 8 :: byte]) \<le> ca_maxBytes sample_cache" "is_i64 (ca_maxBytes sample_cache)"
    "is_i64 (gm_sum (ca_sizes sample_cache) + int (length [7, 8 :: byte]))"
    "gm_sum (ca_sizes sample_cache) + int (length [7, 8 :: byte]) \<le> ca_maxBytes sample_cache"
    by (simp_all add: sample_cache_def is_i64_def gm_sum_def)
  ultimately show ?thesis
    using cache_Put_Get [OF sample_cache_inv _ _ _ _ _ put] put by auto
qed

section \<open>The interface of the sliding window\<close>

record edge_env =
  ev_fs :: fs_outcome
  ev_rm :: "string \<Rightarrow> bool"
  ev_del :: bool
  ev_open :: bool
  ev_now :: int

definition edge_ops :: "(string \<Rightarrow> string) \<Rightarrow> (edge_env, cache) cache_ops" where
  "edge_ops name =
    \<lparr>co_Get = (\<lambda>e key c. case cache_Get name (ev_open e) key c of
         (Inl _, c') \<Rightarrow> (None, c')
       | (Inr data, c') \<Rightarrow> (Some data, cache_touch name (ev_now e) key c')),
     co_Put = (\<lambda>e key data c. case cache_Put name (ev_fs e) (ev_rm e) (ev_now e) key data c of (err, c') \<Rightarrow> (err = None, c')),
     co_Has = cache_Has name,
     co_Delete = (\<lambda>e key c. case cache_Delete name (ev_del e) key c of (err, c') \<Rightarrow> (err = None, c'))\<rparr>"

lemma evict_loop_content:
  "entry_content (evict_loop rm_ok target freed es c) n \<noteq> None \<Longrightarrow>
    entry_content (evict_loop rm_ok target freed es c) n = entry_content c n"
proof (induction es arbitrary: freed c)
  case (Cons e es)
  show ?case
    using Cons.prems Cons.IH [of freed c] Cons.IH [of "i64 (freed + snd (snd e))" "drop_entry e c"]
    by (simp split: if_splits)
qed simp

lemma cache_evict_content:
  "entry_content (cache_evict rm_ok target c) n \<noteq> None \<Longrightarrow> entry_content (cache_evict rm_ok target c) n = entry_content c n"
  unfolding cache_evict_def by (rule evict_loop_content)

lemma cache_Put_content:
  assumes "k \<noteq> name key" "entry_content (snd (cache_Put name fs rm_ok now key data c)) k \<noteq> None"
  shows "entry_content c k \<noteq> None"
proof (cases "fs_mkdir fs \<and> fs_create fs \<and> fs_copy fs \<and> fs_meta fs")
  case True
  then have ok: "fs_mkdir fs" "fs_create fs" "fs_copy fs" "fs_meta fs" by simp_all
  have "entry_content (put_entry (name key) now data c) k = entry_content c k"
    using assms(1) by (simp add: put_entry_disk)
  then show ?thesis
    using assms(2) cache_evict_content [of rm_ok _ "put_entry (name key) now data c" k]
    by (simp add: cache_Put_ok [OF ok] Let_def split: if_splits)
next
  case False
  then show ?thesis
    using assms by (auto simp: cache_Put_def Let_def split: if_splits)
qed

lemma entry_content_touch [simp]: "entry_content (cache_touch name now key c) = entry_content c"
  by (rule entry_cong(2)) (simp add: cache_touch_def)

lemma entry_content_Get [simp]: "entry_content (snd (cache_Get name ok key c)) = entry_content c"
  by (rule entry_cong(2)) (simp add: cache_Get_def split: option.splits)

lemma entry_content_Delete:
  "entry_content (snd (cache_Delete name ok key c)) n = (if ok \<and> n = name key then None else entry_content c n)"
  by (simp add: cache_Delete_def Let_def entry_content_def split: option.splits)

lemma edge_ops_simps:
  "snd (co_Put (edge_ops name) e k d c) = snd (cache_Put name (ev_fs e) (ev_rm e) (ev_now e) k d c)"
  "snd (co_Delete (edge_ops name) e k c) = snd (cache_Delete name (ev_del e) k c)"
  "fst (co_Delete (edge_ops name) e k c) \<longleftrightarrow> ev_del e"
  "co_Has (edge_ops name) k c \<longleftrightarrow> entry_content c (name k) \<noteq> None"
  "entry_content (snd (co_Get (edge_ops name) e k c)) = entry_content c"
  "fst (co_Get (edge_ops name) e k c) = (if ev_open e then entry_content c (name k) else None)"
proof -
  show "entry_content (snd (co_Get (edge_ops name) e k c)) = entry_content c"
    using entry_content_Get [of name "ev_open e" k c]
    by (cases "cache_Get name (ev_open e) k c"; cases "fst (cache_Get name (ev_open e) k c)") (simp_all add: edge_ops_def)
qed (auto simp: edge_ops_def cache_Has_def cache_Delete_def cache_Get_def Let_def split: prod.splits option.splits)

interpretation edge: cache_accessor "edge_ops name" "\<lambda>k k'. name k = name k'" for name
proof
  fix k' k :: string and e d c
  show "name k' = name k \<or> co_Has (edge_ops name) k' c"
    if "co_Has (edge_ops name) k' (snd (co_Put (edge_ops name) e k d c))"
    using that cache_Put_content [of "name k'" name k "ev_fs e" "ev_rm e" "ev_now e" d c]
    unfolding edge_ops_simps by blast
qed (auto simp: edge_ops_simps entry_content_Delete split: if_splits)

end
