(* ===== verification/Sliding_Window.thy ===== *)
theory Sliding_Window
  imports Edge_Cache Streaming_Keys
begin

text \<open>
  \<open>SlidingWindow\<close> of \<open>internal/streaming/window.go\<close> (lines 24 to 147) over any
  \<open>CacheAccessor\<close>: per stream, the sequence numbers of the most recent chunks, older
  ones being deleted from the cache as new ones come in.  The lemmas are proved from
  the contract of the accessor; the properties are their instances for the disk cache
  of the edge.  The lock of the window is held around each part of an operation, which
  is here one step.
\<close>

section \<open>Definitions\<close>

record stream_window =
  win_seqs :: "int list"
  win_headSeq :: int
  win_maxSize :: int
  win_evictions :: int

record sliding_window =
  sw_WindowSize :: int
  sw_windows :: "(string, stream_window) gomap"

text \<open>\<open>make\<close> panics on a negative capacity.\<close>

datatype window_error = CachePutError | PanicMakeCap

definition NewSlidingWindow :: "int \<Rightarrow> sliding_window" where
  "NewSlidingWindow windowSize = \<lparr>sw_WindowSize = windowSize, sw_windows = []\<rparr>"

definition cache_into :: "('e, 'c) cache_ops \<Rightarrow> (nat \<Rightarrow> 'e) \<Rightarrow> string \<Rightarrow> int \<Rightarrow> byte list \<Rightarrow> stream_window
    \<Rightarrow> sliding_window \<Rightarrow> 'c \<Rightarrow> window_error option \<times> sliding_window \<times> 'c" where
  "cache_into ops env streamKey seqNum chunkData win sw c =
    (let sw = sw\<lparr>sw_windows := gm_set streamKey win (sw_windows sw)\<rparr>;
         (ok, c) = (if chunkData \<noteq> [] then co_Put ops (env 0) (ChunkCacheKey streamKey seqNum) chunkData c else (True, c))
     in if \<not> ok then (Some CachePutError, sw, c)
        else
          (let seqs = win_seqs win @ [seqNum] in
           if int (length seqs) > win_maxSize win
           then
             (let toEvict = int (length seqs) - win_maxSize win;
                  c = delete_keys ops env 1 (map (ChunkCacheKey streamKey) (take (nat toEvict) seqs)) c;
                  win = win\<lparr>win_seqs := drop (nat toEvict) seqs, win_headSeq := seqNum,
                            win_evictions := i64 (win_evictions win + toEvict)\<rparr>
              in (None, sw\<lparr>sw_windows := gm_set streamKey win (sw_windows sw)\<rparr>, c))
           else (None, sw\<lparr>sw_windows := gm_set streamKey (win\<lparr>win_seqs := seqs, win_headSeq := seqNum\<rparr>)
                            (sw_windows sw)\<rparr>, c)))"

definition CacheChunk :: "('e, 'c) cache_ops \<Rightarrow> (nat \<Rightarrow> 'e) \<Rightarrow> string \<Rightarrow> int \<Rightarrow> byte list
    \<Rightarrow> sliding_window \<Rightarrow> 'c \<Rightarrow> window_error option \<times> sliding_window \<times> 'c" where
  "CacheChunk ops env streamKey seqNum chunkData sw c =
    (case gm_get (sw_windows sw) streamKey of
       Some win \<Rightarrow> cache_into ops env streamKey seqNum chunkData win sw c
     | None \<Rightarrow>
         if sw_WindowSize sw < 0 then (Some PanicMakeCap, sw, c)
         else cache_into ops env streamKey seqNum chunkData
           \<lparr>win_seqs = [], win_headSeq = 0, win_maxSize = sw_WindowSize sw, win_evictions = 0\<rparr> sw c)"

definition GetChunk :: "('e, 'c) cache_ops \<Rightarrow> 'e \<Rightarrow> string \<Rightarrow> int \<Rightarrow> 'c \<Rightarrow> byte list option \<times> 'c" where
  "GetChunk ops e streamKey seqNum c = co_Get ops e (ChunkCacheKey streamKey seqNum) c"

definition HasChunk :: "('e, 'c) cache_ops \<Rightarrow> string \<Rightarrow> int \<Rightarrow> 'c \<Rightarrow> bool" where
  "HasChunk ops streamKey seqNum c = co_Has ops (ChunkCacheKey streamKey seqNum) c"

definition WindowStats :: "sliding_window \<Rightarrow> string \<Rightarrow> int \<times> int" where
  "WindowStats sw streamKey =
    (case gm_get (sw_windows sw) streamKey of Some win \<Rightarrow> (win_headSeq win, win_evictions win) | None \<Rightarrow> (0, 0))"

definition EvictStream :: "('e, 'c) cache_ops \<Rightarrow> (nat \<Rightarrow> 'e) \<Rightarrow> string \<Rightarrow> sliding_window \<Rightarrow> 'c \<Rightarrow> sliding_window \<times> 'c" where
  "EvictStream ops env streamKey sw c =
    (case gm_get (sw_windows sw) streamKey of None \<Rightarrow> (sw, c)
     | Some win \<Rightarrow>
         (sw\<lparr>sw_windows := gm_del streamKey (sw_windows sw)\<rparr>,
          delete_keys ops env 0 (map (ChunkCacheKey streamKey) (win_seqs win)) c))"

definition TotalEvictions :: "sliding_window \<Rightarrow> int" where
  "TotalEvictions sw = i64 (sum_list (map (\<lambda>(k, w). win_evictions w) (sw_windows sw)))"

section \<open>Invariant\<close>

definition win_ok :: "int \<Rightarrow> stream_window \<Rightarrow> bool" where
  "win_ok m w \<longleftrightarrow> win_maxSize w = m \<and> int (length (win_seqs w)) \<le> m \<and> list_all is_i64 (win_seqs w)"

definition window_wf :: "sliding_window \<Rightarrow> bool" where
  "window_wf sw \<longleftrightarrow> gm_wf (sw_windows sw) \<and>
     (\<forall>sk. case gm_get (sw_windows sw) sk of None \<Rightarrow> True | Some w \<Rightarrow> win_ok (sw_WindowSize sw) w)"

text \<open>The chunks of a stream that its window knows of.\<close>

definition window_seqs :: "sliding_window \<Rightarrow> string \<Rightarrow> int set" where
  "window_seqs sw sk = (case gm_get (sw_windows sw) sk of None \<Rightarrow> {} | Some w \<Rightarrow> set (win_seqs w))"

text \<open>Every chunk in the cache is in the window of its stream.\<close>

definition chunks_in_window :: "('e, 'c) cache_ops \<Rightarrow> sliding_window \<Rightarrow> 'c \<Rightarrow> bool" where
  "chunks_in_window ops sw c \<longleftrightarrow>
     (\<forall>sk n. is_i64 n \<longrightarrow> HasChunk ops sk n c \<longrightarrow> n \<in> window_seqs sw sk)"

lemma window_seqs_set [simp]:
  "window_seqs (sw\<lparr>sw_windows := gm_set sk w m\<rparr>) k =
    (if k = sk then set (win_seqs w) else window_seqs (sw\<lparr>sw_windows := m\<rparr>) k)"
  by (simp add: window_seqs_def)

lemma window_wfD: "\<lbrakk>window_wf sw; gm_get (sw_windows sw) sk = Some w\<rbrakk> \<Longrightarrow> win_ok (sw_WindowSize sw) w"
  unfolding window_wf_def by (metis option.simps(5))

lemma window_wf_set: "\<lbrakk>window_wf sw; win_ok (sw_WindowSize sw) w\<rbrakk> \<Longrightarrow>
    window_wf (sw\<lparr>sw_windows := gm_set sk w (sw_windows sw)\<rparr>)"
  by (simp add: window_wf_def cong: option.case_cong)

lemma window_wf_New [inv_intros]: "window_wf (NewSlidingWindow m)"
  by (simp add: window_wf_def NewSlidingWindow_def)

lemma window_wf_Evict [inv_intros]: "window_wf sw \<Longrightarrow> window_wf (fst (EvictStream ops env sk sw c))"
  by (cases "gm_get (sw_windows sw) sk") (simp_all add: window_wf_def EvictStream_def cong: option.case_cong)

lemma cache_into_wf:
  assumes "window_wf sw" "win_ok (sw_WindowSize sw) w" "is_i64 n"
  shows "window_wf (fst (snd (cache_into ops env sk n data w sw c)))
    \<and> sw_WindowSize (fst (snd (cache_into ops env sk n data w sw c))) = sw_WindowSize sw"
proof -
  let ?seqs = "win_seqs w @ [n]"
  let ?w1 = "w\<lparr>win_seqs := ?seqs, win_headSeq := n\<rparr>"
  let ?t = "int (length ?seqs) - win_maxSize w"
  let ?w2 = "w\<lparr>win_seqs := drop (nat ?t) ?seqs, win_headSeq := n, win_evictions := i64 (win_evictions w + ?t)\<rparr>"
  have set: "window_wf (sw\<lparr>sw_windows := gm_set sk v (gm_set sk w (sw_windows sw))\<rparr>)"
    if "win_ok (sw_WindowSize sw) v" for v
    using window_wf_set [OF window_wf_set [OF assms(1,2), of sk], of v sk] that by simp
  have "win_ok (sw_WindowSize sw) ?w1" if "\<not> int (length ?seqs) > win_maxSize w"
    using assms(2,3) that by (simp add: win_ok_def)
  moreover have "win_ok (sw_WindowSize sw) ?w2" if "int (length ?seqs) > win_maxSize w"
    using assms(2,3) that by (auto simp: win_ok_def list_all_iff dest: in_set_dropD)
  ultimately show ?thesis
    using set window_wf_set [OF assms(1,2)] by (simp add: cache_into_def Let_def split: prod.splits)
qed

definition fresh_window :: "int \<Rightarrow> stream_window" where
  "fresh_window m = \<lparr>win_seqs = [], win_headSeq = 0, win_maxSize = m, win_evictions = 0\<rparr>"

text \<open>\<open>CacheChunk\<close> with a window, found or fresh.\<close>

lemma CacheChunk_cases:
  obtains (panic) "gm_get (sw_windows sw) sk = None" "sw_WindowSize sw < 0" "CacheChunk ops env sk n data sw c = (Some PanicMakeCap, sw, c)"
  | (fresh) "gm_get (sw_windows sw) sk = None" "0 \<le> sw_WindowSize sw"
      "CacheChunk ops env sk n data sw c = cache_into ops env sk n data (fresh_window (sw_WindowSize sw)) sw c"
  | (found) w where "gm_get (sw_windows sw) sk = Some w"
      "CacheChunk ops env sk n data sw c = cache_into ops env sk n data w sw c"
proof (cases "gm_get (sw_windows sw) sk")
  case None
  then show thesis
    using panic fresh by (cases "sw_WindowSize sw < 0") (simp_all add: CacheChunk_def fresh_window_def)
next
  case (Some w)
  then show thesis using found by (simp add: CacheChunk_def)
qed

lemma win_ok_fresh: "0 \<le> m \<Longrightarrow> win_ok m (fresh_window m)"
  by (simp add: win_ok_def fresh_window_def)

lemma CacheChunk_wf:
  assumes "window_wf sw" "is_i64 n"
  shows "window_wf (fst (snd (CacheChunk ops env sk n data sw c)))
    \<and> sw_WindowSize (fst (snd (CacheChunk ops env sk n data sw c))) = sw_WindowSize sw"
proof (cases rule: CacheChunk_cases [of sw sk ops env n data c])
  case panic
  then show ?thesis using assms(1) by simp
next
  case fresh
  then show ?thesis using cache_into_wf [OF assms(1) win_ok_fresh assms(2)] by simp
next
  case (found w)
  then show ?thesis using cache_into_wf [OF assms(1) window_wfD [OF assms(1) found(1)] assms(2)] by simp
qed

section \<open>Runs\<close>

text \<open>The operations of the window, with deletions that succeed, beside other uses of
  the same cache: reads, and writes and deletions of keys that are not chunk keys.\<close>

inductive window_step :: "('e, 'c) cache_ops \<Rightarrow> sliding_window \<times> 'c \<Rightarrow> sliding_window \<times> 'c \<Rightarrow> bool" for ops where
  chunk: "\<lbrakk>is_i64 n; CacheChunk ops env sk n data sw c = (None, sw', c'); \<And>i k c. fst (co_Delete ops (env i) k c)\<rbrakk>
    \<Longrightarrow> window_step ops (sw, c) (sw', c')"
| evict: "(\<And>i k c. fst (co_Delete ops (env i) k c)) \<Longrightarrow> window_step ops (sw, c) (EvictStream ops env sk sw c)"
| get: "window_step ops (sw, c) (sw, snd (GetChunk ops e sk n c))"
| other_put: "ParseChunkKey k = None \<Longrightarrow> window_step ops (sw, c) (sw, snd (co_Put ops e k d c))"
| other_delete: "window_step ops (sw, c) (sw, snd (co_Delete ops e k c))"

section \<open>From the contract of the cache\<close>

context cache_accessor
begin

lemma cache_into_chunks:
  assumes inv: "chunks_in_window ops sw c" and n: "is_i64 n" "list_all is_i64 (win_seqs w)"
    and old: "window_seqs sw sk \<subseteq> set (win_seqs w)"
    and inj: "\<And>k k'. same k k' \<Longrightarrow> k = k'"
    and del: "\<And>i k c. fst (co_Delete ops (env i) k c)"
    and res: "cache_into ops env sk n data w sw c = (None, sw', c')"
  shows "chunks_in_window ops sw' c'"
proof -
  obtain ok c1 where put: "(if data \<noteq> [] then co_Put ops (env 0) (ChunkCacheKey sk n) data c else (True, c)) = (ok, c1)"
    by fastforce
  have c1: "k = sk \<and> i = n \<or> HasChunk ops k i c" if "is_i64 i" "HasChunk ops k i c1" for k i
  proof (cases "data = []")
    case False
    then have "c1 = snd (co_Put ops (env 0) (ChunkCacheKey sk n) data c)" using put by simp
    then have "same (ChunkCacheKey k i) (ChunkCacheKey sk n) \<or> HasChunk ops k i c"
      using that(2) put_has by (simp add: HasChunk_def)
    then show ?thesis using inj ChunkCacheKey_inj [OF that(1) n(1)] by blast
  qed (use put that in auto)
  have in_win: "i \<in> window_seqs sw k" if "is_i64 i" "HasChunk ops k i c" for k i
    using inv that by (simp add: chunks_in_window_def)
  let ?seqs = "win_seqs w @ [n]"
  show ?thesis
  proof (cases "int (length ?seqs) > win_maxSize w")
    case True
    let ?t = "nat (int (length ?seqs) - win_maxSize w)"
    let ?gone = "map (ChunkCacheKey sk) (take ?t ?seqs)"
    have eq: "c' = delete_keys ops env 1 ?gone c1"
      "sw' = sw\<lparr>sw_windows := gm_set sk (w\<lparr>win_seqs := drop ?t ?seqs, win_headSeq := n,
          win_evictions := i64 (win_evictions w + (int (length ?seqs) - win_maxSize w))\<rparr>) (gm_set sk w (sw_windows sw))\<rparr>"
      using res put True by (auto simp: cache_into_def Let_def split: if_splits)
    have "i \<in> window_seqs sw' k" if i: "is_i64 i" "HasChunk ops k i c'" for k i
    proof -
      have has: "HasChunk ops k i c1"
        using i(2) eq(1) delete_keys_keeps by (simp add: HasChunk_def)
      have "i \<notin> set (take ?t ?seqs)" if "k = sk"
      proof
        assume "i \<in> set (take ?t ?seqs)"
        then have "ChunkCacheKey sk i \<in> set ?gone" unfolding set_map by (rule imageI)
        then show False
          using delete_keys_has [of env "ChunkCacheKey sk i" ?gone 1 c1] del i(2) eq(1) that
          by (simp add: HasChunk_def)
      qed
      moreover have "i \<in> set ?seqs" if "k = sk"
        using c1 [OF i(1) has] in_win [OF i(1)] old that by auto
      ultimately have "i \<in> set (drop ?t ?seqs)" if "k = sk"
        using that by (metis Un_iff append_take_drop_id set_append)
      then show ?thesis
        using c1 [OF i(1) has] in_win [OF i(1), of k] by (simp add: eq(2)) blast
    qed
    then show ?thesis by (simp add: chunks_in_window_def)
  next
    case False
    then have eq: "c' = c1" "sw' = sw\<lparr>sw_windows := gm_set sk (w\<lparr>win_seqs := ?seqs, win_headSeq := n\<rparr>) (gm_set sk w (sw_windows sw))\<rparr>"
      using res put by (auto simp: cache_into_def Let_def split: if_splits)
    have "i \<in> window_seqs sw' k" if i: "is_i64 i" "HasChunk ops k i c'" for k i
      using c1 [OF i(1)] in_win [OF i(1)] old i(2) by (simp add: eq) blast
    then show ?thesis by (simp add: chunks_in_window_def)
  qed
qed

lemma CacheChunk_chunks:
  assumes wf: "window_wf sw" and inv: "chunks_in_window ops sw c" and n: "is_i64 n"
    and inj: "\<And>k k'. same k k' \<Longrightarrow> k = k'" and del: "\<And>i k c. fst (co_Delete ops (env i) k c)"
    and res: "CacheChunk ops env sk n data sw c = (None, sw', c')"
  shows "chunks_in_window ops sw' c'"
proof (cases rule: CacheChunk_cases [of sw sk ops env n data c])
  case panic
  then show ?thesis using res by simp
next
  case fresh
  show ?thesis
    by (rule cache_into_chunks [OF inv n _ _ inj del]) (use fresh res in \<open>auto simp: fresh_window_def window_seqs_def\<close>)
next
  case (found w)
  have "win_ok (sw_WindowSize sw) w" using window_wfD [OF wf found(1)] .
  then show ?thesis
    using found res by (intro cache_into_chunks [OF inv n _ _ inj del]) (auto simp: window_seqs_def win_ok_def)
qed

lemma EvictStream_chunks:
  assumes inv: "chunks_in_window ops sw c" and del: "\<And>i k c. fst (co_Delete ops (env i) k c)"
    and res: "EvictStream ops env sk sw c = (sw', c')"
  shows "chunks_in_window ops sw' c'" "is_i64 n \<Longrightarrow> \<not> HasChunk ops sk n c'"
proof -
  have in_win: "i \<in> window_seqs sw k" if "is_i64 i" "HasChunk ops k i c" for k i
    using inv that by (simp add: chunks_in_window_def)
  have *: "HasChunk ops k i c \<and> k \<noteq> sk" if i: "is_i64 i" "HasChunk ops k i c'" for k i
  proof (cases "gm_get (sw_windows sw) sk")
    case None
    then show ?thesis using res i in_win [OF i(1), of k] by (auto simp: EvictStream_def window_seqs_def)
  next
    case (Some w)
    let ?ks = "map (ChunkCacheKey sk) (win_seqs w)"
    have c': "c' = delete_keys ops env 0 ?ks c" using res Some by (simp add: EvictStream_def)
    have has: "HasChunk ops k i c" using i(2) delete_keys_keeps by (simp add: c' HasChunk_def)
    moreover have "k \<noteq> sk"
    proof
      assume "k = sk"
      then have "ChunkCacheKey sk i \<in> set ?ks"
        using in_win [OF i(1) has] Some by (simp add: window_seqs_def)
      then show False
        using delete_keys_has [of env _ ?ks 0 c] del i(2) \<open>k = sk\<close> by (simp add: c' HasChunk_def)
    qed
    ultimately show ?thesis by simp
  qed
  have "window_seqs sw' k = window_seqs sw k" if "k \<noteq> sk" for k
    using res that by (auto simp: EvictStream_def window_seqs_def split: option.splits)
  then show "chunks_in_window ops sw' c'"
    using * in_win by (auto simp: chunks_in_window_def)
  show "is_i64 n \<Longrightarrow> \<not> HasChunk ops sk n c'" using * by blast
qed

lemma window_step_inv:
  assumes "window_step ops s s'" and inj: "\<And>k k'. same k k' \<Longrightarrow> k = k'"
    and "window_wf (fst s)" "chunks_in_window ops (fst s) (snd s)"
  shows "window_wf (fst s') \<and> sw_WindowSize (fst s') = sw_WindowSize (fst s) \<and> chunks_in_window ops (fst s') (snd s')"
  using assms(1,3,4)
proof (induction rule: window_step.induct)
  case (chunk n env sk data sw c sw' c')
  then show ?case
    using CacheChunk_chunks [OF _ _ chunk(1) inj chunk(3,2)] CacheChunk_wf [OF _ chunk(1), of sw ops env sk data c] by simp
next
  case (evict env sw c sk)
  obtain sw' c' where res: "EvictStream ops env sk sw c = (sw', c')" by fastforce
  moreover have "sw_WindowSize sw' = sw_WindowSize sw"
    using res by (auto simp: EvictStream_def split: option.splits)
  ultimately show ?case
    using EvictStream_chunks(1) [OF _ evict(1) res] window_wf_Evict [of sw ops env sk c] evict(2,3) by simp
next
  case (get sw c e sk n)
  then show ?case by (simp add: chunks_in_window_def HasChunk_def GetChunk_def get_has)
next
  case (other_put k sw c e d)
  have "HasChunk ops sk i c" if "is_i64 i" "HasChunk ops sk i (snd (co_Put ops e k d c))" for sk i
  proof -
    have "ChunkCacheKey sk i \<noteq> k" using other_put(1) Parse_ChunkCacheKey [OF that(1), of sk] by auto
    then show ?thesis
      using put_has [of "ChunkCacheKey sk i" e k d c] that(2) inj by (auto simp: HasChunk_def)
  qed
  with other_put show ?case by (simp add: chunks_in_window_def)
next
  case (other_delete sw c e k)
  then show ?case using delete_keeps by (simp add: chunks_in_window_def HasChunk_def)
qed

lemma window_run_inv:
  assumes "(window_step ops)\<^sup>*\<^sup>* s s'" and inj: "\<And>k k'. same k k' \<Longrightarrow> k = k'"
    and "window_wf (fst s)" "chunks_in_window ops (fst s) (snd s)"
  shows "window_wf (fst s') \<and> sw_WindowSize (fst s') = sw_WindowSize (fst s) \<and> chunks_in_window ops (fst s') (snd s')"
  using assms(1)
proof (induction rule: rtranclp_induct)
  case base
  then show ?case using assms by simp
next
  case (step y z)
  then show ?case using window_step_inv [OF step(2) inj] by simp
qed

end

section \<open>Properties\<close>

lemma window_seqs_bound:
  assumes "window_wf sw" "0 \<le> sw_WindowSize sw"
  shows "card (window_seqs sw sk) \<le> nat (sw_WindowSize sw)" "finite (window_seqs sw sk)"
proof -
  show "card (window_seqs sw sk) \<le> nat (sw_WindowSize sw)"
  proof (cases "gm_get (sw_windows sw) sk")
    case (Some w)
    have "length (win_seqs w) \<le> nat (sw_WindowSize sw)"
      using window_wfD [OF assms(1) Some] by (simp add: win_ok_def nat_le_iff le_nat_iff assms)
    then show ?thesis using Some card_length [of "win_seqs w"] by (simp add: window_seqs_def)
  qed (simp add: window_seqs_def)
qed (simp add: window_seqs_def split: option.splits)

text \<open>
  Over the disk cache of the edge, starting with no chunk cached and with keys that
  have different entries, after any sequence of window operations and of other uses
  of the cache, the cached chunks of a stream are in its window, and so there are
  never more of them than the configured window size.
\<close>

theorem window_bounds_cached_chunks:
  assumes "inj name" "0 \<le> windowSize" "\<And>sk n. is_i64 n \<Longrightarrow> \<not> HasChunk (edge_ops name) sk n c0"
    "(window_step (edge_ops name))\<^sup>*\<^sup>* (NewSlidingWindow windowSize, c0) (sw, c)"
  shows "{n. is_i64 n \<and> HasChunk (edge_ops name) sk n c} \<subseteq> window_seqs sw sk
    \<and> card {n. is_i64 n \<and> HasChunk (edge_ops name) sk n c} \<le> nat windowSize"
proof -
  have inj: "name k = name k' \<Longrightarrow> k = k'" for k k' using assms(1) by (rule injD)
  have "window_wf sw \<and> sw_WindowSize sw = windowSize \<and> chunks_in_window (edge_ops name) sw c"
    using edge.window_run_inv [OF assms(4) inj] window_wf_New assms(3)
    by (simp add: NewSlidingWindow_def chunks_in_window_def)
  then have "{n. is_i64 n \<and> HasChunk (edge_ops name) sk n c} \<subseteq> window_seqs sw sk"
    "card (window_seqs sw sk) \<le> nat windowSize" "finite (window_seqs sw sk)"
    using window_seqs_bound [of sw sk] assms(2) by (auto simp: chunks_in_window_def)
  then show ?thesis using card_mono by (meson order_trans)
qed

definition fine_env :: "int \<Rightarrow> edge_env" where
  "fine_env now = \<lparr>ev_fs = fs_fine, ev_rm = (\<lambda>_. True), ev_del = True, ev_open = True, ev_now = now\<rparr>"

definition empty_cache :: cache where
  "empty_cache = \<lparr>ca_dir = [], ca_maxGB = 1, ca_maxBytes = 1073741824, ca_hits = 0, ca_misses = 0,
     ca_size = 0, ca_count = 0, ca_accessTimes = [], ca_sizes = []\<rparr>"

lemma empty_cache_chunks: "\<not> HasChunk (edge_ops name) sk n empty_cache"
  by (simp add: HasChunk_def edge_ops_simps entry_content_def empty_cache_def)

lemma sample_window_run:
  "\<exists>sw c. (window_step (edge_ops id))\<^sup>*\<^sup>* (NewSlidingWindow 2, empty_cache) (sw, c) \<and> window_seqs sw ''s'' = {5}"
proof -
  obtain err sw c where res: "CacheChunk (edge_ops id) (\<lambda>_. fine_env 7) ''s'' 5 [1] (NewSlidingWindow 2) empty_cache = (err, sw, c)"
    by (metis prod_cases3)
  then have ok: "err = None \<and> window_seqs sw ''s'' = {5}"
    by (auto simp: CacheChunk_def NewSlidingWindow_def cache_into_def edge_ops_def cache_Put_def fine_env_def fs_fine_def Let_def
        window_seqs_def split: prod.splits)
  have "window_step (edge_ops id) (NewSlidingWindow 2, empty_cache) (sw, c)"
    by (rule window_step.chunk [of 5 _ "\<lambda>_. fine_env 7" "''s''" "[1]"])
      (use res ok in \<open>auto simp: is_i64_def edge_ops_simps fine_env_def\<close>)
  then show ?thesis using ok by blast
qed

theorem window_bounds_cached_chunks_witness:
  "\<exists>sw c. window_seqs sw ''s'' = {5} \<and> card {n. is_i64 n \<and> HasChunk (edge_ops id) ''s'' n c} \<le> 2"
proof -
  obtain sw c where run: "(window_step (edge_ops id))\<^sup>*\<^sup>* (NewSlidingWindow 2, empty_cache) (sw, c)" "window_seqs sw ''s'' = {5}"
    using sample_window_run by blast
  from window_bounds_cached_chunks [OF inj_on_id _ _ run(1), of "''s''"] empty_cache_chunks run(2) show ?thesis
    by fastforce
qed

text \<open>
  After a stream is evicted, none of its chunks is in the cache.
\<close>

theorem EvictStream_removes_stream:
  assumes "inj name" "\<And>sk n. is_i64 n \<Longrightarrow> \<not> HasChunk (edge_ops name) sk n c0"
    "(window_step (edge_ops name))\<^sup>*\<^sup>* (NewSlidingWindow windowSize, c0) (sw, c)"
    "\<And>i. ev_del (env i)" "is_i64 n"
  shows "\<not> HasChunk (edge_ops name) sk n (snd (EvictStream (edge_ops name) env sk sw c))
    \<and> gm_get (sw_windows (fst (EvictStream (edge_ops name) env sk sw c))) sk = None"
proof -
  have inj: "name k = name k' \<Longrightarrow> k = k'" for k k' using assms(1) by (rule injD)
  have inv: "chunks_in_window (edge_ops name) sw c"
    using edge.window_run_inv [OF assms(3) inj] window_wf_New assms(2)
    by (simp add: NewSlidingWindow_def chunks_in_window_def)
  have "fst (co_Delete (edge_ops name) (env i) k c)" for i k c
    using assms(4) by (simp add: edge_ops_simps)
  from edge.EvictStream_chunks(2) [OF inv this prod.collapse [symmetric] assms(5)] show ?thesis
    by (simp add: EvictStream_def split: option.splits)
qed

theorem EvictStream_removes_stream_witness:
  "\<exists>sw c. window_seqs sw ''s'' = {5} \<and>
    \<not> HasChunk (edge_ops id) ''s'' 5 (snd (EvictStream (edge_ops id) (\<lambda>_. fine_env 8) ''s'' sw c))"
proof -
  obtain sw c where run: "(window_step (edge_ops id))\<^sup>*\<^sup>* (NewSlidingWindow 2, empty_cache) (sw, c)" "window_seqs sw ''s'' = {5}"
    using sample_window_run by blast
  have "is_i64 5" "\<And>i. ev_del ((\<lambda>_. fine_env 8) i)" by (simp_all add: is_i64_def fine_env_def)
  from EvictStream_removes_stream [OF inj_on_id empty_cache_chunks run(1) this(2,1), of "''s''"] run(2) show ?thesis
    by blast
qed

end
