(* ===== verification/Tunnel_Message.thy ===== *)
theory Tunnel_Message
  imports Go_Json_Print Go_Binary
begin

text \<open>
  \<open>internal/tunnel/message.go\<close>: the frames of the reverse tunnel.  A frame is a header of ten bytes
  in network byte order and a payload of the length it announces.  A writer is the outcome of its
  calls, a reader the bytes it still delivers before the end of the stream.
\<close>

abbreviation MsgTypeRegister :: "8 word" where "MsgTypeRegister \<equiv> 0x01"
abbreviation MsgTypeRegisterOK :: "8 word" where "MsgTypeRegisterOK \<equiv> 0x02"
abbreviation MsgTypeHeartbeat :: "8 word" where "MsgTypeHeartbeat \<equiv> 0x03"
abbreviation MsgTypeError :: "8 word" where "MsgTypeError \<equiv> 0x04"
abbreviation MsgTypeRequest :: "8 word" where "MsgTypeRequest \<equiv> 0x10"
abbreviation MsgTypeResponse :: "8 word" where "MsgTypeResponse \<equiv> 0x11"
abbreviation MsgTypeData :: "8 word" where "MsgTypeData \<equiv> 0x12"
abbreviation MsgTypeDataEnd :: "8 word" where "MsgTypeDataEnd \<equiv> 0x13"

record message_header =
  mh_Version :: "8 word"
  mh_Type :: "8 word"
  mh_StreamID :: "32 word"
  mh_Length :: "32 word"

record message =
  m_Header :: message_header
  m_Payload :: "byte list"

definition HeaderSize :: nat where
  "HeaderSize = 10"

section \<open>Writing and reading\<close>

definition header_bytes :: "message_header \<Rightarrow> byte list" where
  "header_bytes h = [mh_Version h, mh_Type h] @ put_be32 (mh_StreamID h) @ put_be32 (mh_Length h)"

datatype write_error = WriteHeader | WritePayload

text \<open>A call of \<open>w.Write\<close> fails after \<open>Some n\<close> bytes, or takes them all (\<open>None\<close>).\<close>

definition writes :: "nat option \<Rightarrow> byte list \<Rightarrow> byte list \<times> bool" where
  "writes fail bs = (case fail of None \<Rightarrow> (bs, True) | Some n \<Rightarrow> (take n bs, False))"

text \<open>The payload is sliced to the announced length: \<open>spare\<close> is what its backing array holds behind
  it, and a length beyond that is a run-time panic (\<^const>\<open>None\<close>).\<close>

definition WriteMessage :: "nat option \<Rightarrow> nat option \<Rightarrow> byte list \<Rightarrow> message \<Rightarrow> (byte list \<times> write_error option) option" where
  "WriteMessage fail1 fail2 spare msg =
    (case writes fail1 (header_bytes (m_Header msg)) of
       (out, False) \<Rightarrow> Some (out, Some WriteHeader)
     | (out, True) \<Rightarrow>
         if mh_Length (m_Header msg) > 0 \<and> length (m_Payload msg) > 0 then
           (let n = unat (mh_Length (m_Header msg)); all = m_Payload msg @ spare in
            if n > length all then None
            else case writes fail2 (take n all) of
               (out2, False) \<Rightarrow> Some (out @ out2, Some WritePayload)
             | (out2, True) \<Rightarrow> Some (out @ out2, None))
         else Some (out, None))"

datatype read_error = EOF | UnexpectedEOF

definition ReadFull :: "nat \<Rightarrow> byte list \<Rightarrow> byte list \<times> (read_error + byte list)" where
  "ReadFull n bs =
    (if n \<le> length bs then (drop n bs, Inr (take n bs))
     else ([], Inl (if bs = [] then EOF else UnexpectedEOF)))"

definition ReadMessage :: "byte list \<Rightarrow> byte list \<times> (read_error + message)" where
  "ReadMessage r =
    (case ReadFull HeaderSize r of
       (r, Inl e) \<Rightarrow> (r, Inl e)
     | (r, Inr buf) \<Rightarrow>
        (let h = \<lparr>mh_Version = buf ! 0, mh_Type = buf ! 1,
                  mh_StreamID = be32 (take 4 (drop 2 buf)), mh_Length = be32 (take 4 (drop 6 buf))\<rparr> in
         if mh_Length h > 0 then
           (case ReadFull (unat (mh_Length h)) r of
              (r, Inl e) \<Rightarrow> (r, Inl e)
            | (r, Inr p) \<Rightarrow> (r, Inr \<lparr>m_Header = h, m_Payload = p\<rparr>))
         else (r, Inr \<lparr>m_Header = h, m_Payload = []\<rparr>)))"

section \<open>Making messages\<close>

definition NewMessage :: "8 word \<Rightarrow> 32 word \<Rightarrow> byte list \<Rightarrow> message" where
  "NewMessage ty stream data =
    \<lparr>m_Header = \<lparr>mh_Version = 1, mh_Type = ty, mh_StreamID = stream, mh_Length = of_nat (length data)\<rparr>,
     m_Payload = data\<rparr>"

definition NewDataMessage :: "8 word \<Rightarrow> 32 word \<Rightarrow> byte list \<Rightarrow> message" where
  "NewDataMessage ty stream data = NewMessage ty stream data"

definition NewControlMessage :: "8 word \<Rightarrow> 32 word \<Rightarrow> json \<Rightarrow> message" where
  "NewControlMessage ty stream payload = NewMessage ty stream (bytes_of (json_print payload))"

text \<open>The payloads as JSON values, and back.\<close>

record register_payload =
  rp_NodeID :: string
  rp_NodeToken :: string
  rp_ServiceAddr :: string

definition register_json :: "register_payload \<Rightarrow> json" where
  "register_json p = JObj [(''node_id'', JStr (rp_NodeID p)), (''node_token'', JStr (rp_NodeToken p)),
     (''service_addr'', JStr (rp_ServiceAddr p))]"

definition register_field :: "register_payload \<Rightarrow> string \<Rightarrow> json \<Rightarrow> register_payload \<times> bool" where
  "register_field p k v =
    (if field_is ''node_id'' k then str_field (\<lambda>s. p\<lparr>rp_NodeID := s\<rparr>) p v
     else if field_is ''node_token'' k then str_field (\<lambda>s. p\<lparr>rp_NodeToken := s\<rparr>) p v
     else if field_is ''service_addr'' k then str_field (\<lambda>s. p\<lparr>rp_ServiceAddr := s\<rparr>) p v
     else (p, True))"

definition read_register :: "byte list \<Rightarrow> register_payload option" where
  "read_register bs = read_struct register_field \<lparr>rp_NodeID = [], rp_NodeToken = [], rp_ServiceAddr = []\<rparr> (string_of bs)"

record register_ok_payload =
  ro_TunnelID :: string
  ro_ExternalAddr :: string

definition register_ok_json :: "register_ok_payload \<Rightarrow> json" where
  "register_ok_json p = JObj [(''tunnel_id'', JStr (ro_TunnelID p)), (''external_addr'', JStr (ro_ExternalAddr p))]"

definition register_ok_field :: "register_ok_payload \<Rightarrow> string \<Rightarrow> json \<Rightarrow> register_ok_payload \<times> bool" where
  "register_ok_field p k v =
    (if field_is ''tunnel_id'' k then str_field (\<lambda>s. p\<lparr>ro_TunnelID := s\<rparr>) p v
     else if field_is ''external_addr'' k then str_field (\<lambda>s. p\<lparr>ro_ExternalAddr := s\<rparr>) p v
     else (p, True))"

definition read_register_ok :: "byte list \<Rightarrow> register_ok_payload option" where
  "read_register_ok bs = read_struct register_ok_field \<lparr>ro_TunnelID = [], ro_ExternalAddr = []\<rparr> (string_of bs)"

record error_payload =
  ep_Code :: int
  ep_Message :: string

definition error_json :: "error_payload \<Rightarrow> json" where
  "error_json p = JObj [(''code'', JNum (format_int (ep_Code p))), (''message'', JStr (ep_Message p))]"

definition error_field :: "error_payload \<Rightarrow> string \<Rightarrow> json \<Rightarrow> error_payload \<times> bool" where
  "error_field p k v =
    (if field_is ''code'' k then int_field (\<lambda>n. p\<lparr>ep_Code := n\<rparr>) p v
     else if field_is ''message'' k then str_field (\<lambda>s. p\<lparr>ep_Message := s\<rparr>) p v
     else (p, True))"

definition read_error_payload :: "byte list \<Rightarrow> error_payload option" where
  "read_error_payload bs = read_struct error_field \<lparr>ep_Code = 0, ep_Message = []\<rparr> (string_of bs)"

section \<open>Framing\<close>

text \<open>A message whose header announces its payload, as the constructors make it.\<close>

definition message_ok :: "message \<Rightarrow> bool" where
  "message_ok m \<longleftrightarrow> length (m_Payload m) = unat (mh_Length (m_Header m))"

definition frame :: "message \<Rightarrow> byte list" where
  "frame m = header_bytes (m_Header m) @ m_Payload m"

lemma length_header_bytes [simp]: "length (header_bytes h) = HeaderSize"
  by (simp add: header_bytes_def HeaderSize_def)

lemma message_ok_empty: "message_ok m \<Longrightarrow> 0 < mh_Length (m_Header m) \<longleftrightarrow> m_Payload m \<noteq> []"
  by (auto simp: message_ok_def word_less_nat_alt simp flip: length_greater_0_conv)

lemma WriteMessage_frame:
  assumes "message_ok m"
  shows "WriteMessage None None spare m = Some (frame m, None)"
  using message_ok_empty [OF assms] assms
  by (cases "m_Payload m = []") (simp_all add: WriteMessage_def writes_def frame_def message_ok_def Let_def word_less_nat_alt)

lemma WriteMessage_prefix:
  assumes "message_ok m"
  shows "\<exists>out e. WriteMessage f1 f2 spare m = Some (out, e) \<and> prefix out (frame m) \<and> (e = None \<longrightarrow> out = frame m)"
proof (cases f1)
  case (Some n)
  then show ?thesis by (auto simp: WriteMessage_def writes_def frame_def take_is_prefix intro: prefix_prefix)
next
  case None
  then show ?thesis
  proof (cases f2)
    case (Some k)
    then show ?thesis using None assms message_ok_empty [OF assms]
      by (cases "m_Payload m = []") (simp_all add: WriteMessage_def writes_def frame_def message_ok_def Let_def take_is_prefix word_less_nat_alt)
  qed (use WriteMessage_frame [OF assms] None in auto)
qed

lemma header_parts:
  "header_bytes h ! 0 = mh_Version h" "header_bytes h ! Suc 0 = mh_Type h"
  "be32 (take 4 (drop 2 (header_bytes h))) = mh_StreamID h" "be32 (take 4 (drop 6 (header_bytes h))) = mh_Length h"
  by (simp_all add: header_bytes_def)

lemma ReadMessage_header:
  "ReadMessage (header_bytes h @ r) =
    (if mh_Length h > 0 then
       (case ReadFull (unat (mh_Length h)) r of
          (r, Inl e) \<Rightarrow> (r, Inl e) | (r, Inr p) \<Rightarrow> (r, Inr \<lparr>m_Header = h, m_Payload = p\<rparr>))
     else (r, Inr \<lparr>m_Header = h, m_Payload = []\<rparr>))"
proof -
  have rf: "ReadFull HeaderSize (header_bytes h @ r) = (r, Inr (header_bytes h))" by (simp add: ReadFull_def)
  have "\<lparr>mh_Version = mh_Version h, mh_Type = mh_Type h, mh_StreamID = mh_StreamID h, mh_Length = mh_Length h\<rparr> = h" by simp
  then show ?thesis unfolding ReadMessage_def rf by (simp only: header_parts Let_def prod.case sum.case One_nat_def message_header.select_convs)
qed

lemma ReadMessage_frame:
  assumes "message_ok m"
  shows "ReadMessage (frame m @ rest) = (rest, Inr m)"
proof (cases m)
  case (fields h p)
  have p: "length p = unat (mh_Length h)" using assms fields by (simp add: message_ok_def)
  have "mh_Length h > 0 \<longleftrightarrow> p \<noteq> []" using message_ok_empty [OF assms] fields by simp
  then show ?thesis using p fields by (auto simp: frame_def ReadMessage_header ReadFull_def)
qed

lemma NewMessage_ok: "length data < 2 ^ 32 \<Longrightarrow> message_ok (NewMessage ty stream data)"
  by (simp add: message_ok_def NewMessage_def unat_of_nat)

fun read_all :: "nat \<Rightarrow> byte list \<Rightarrow> message list \<times> byte list" where
  "read_all 0 r = ([], r)"
| "read_all (Suc n) r =
    (case ReadMessage r of (r', Inl _) \<Rightarrow> ([], r')
     | (r', Inr m) \<Rightarrow> apfst ((#) m) (read_all n r'))"

lemma ReadFull_short: "length bs < n \<Longrightarrow> ReadFull n bs = ([], Inl (if bs = [] then EOF else UnexpectedEOF))"
  by (simp add: ReadFull_def)

lemma ReadMessage_short:
  assumes "message_ok m" "strict_prefix bs (frame m)"
  shows "\<exists>e. ReadMessage bs = ([], Inl e)"
proof (cases "length bs < HeaderSize")
  case True
  then show ?thesis by (simp add: ReadMessage_def ReadFull_short)
next
  case False
  obtain z where z: "frame m = bs @ z" "z \<noteq> []" using assms(2) by (auto simp: strict_prefix_def prefix_def)
  let ?h = "m_Header m"
  define q where "q = drop HeaderSize bs"
  have bs: "bs = header_bytes ?h @ q"
    using z(1) False unfolding frame_def q_def
    by (metis append_take_drop_id length_header_bytes append_eq_append_conv_if not_less)
  have p: "m_Payload m = q @ z" using z(1) bs by (simp add: frame_def)
  then have pos: "0 < mh_Length ?h" using z(2) message_ok_empty [OF assms(1)] by simp
  have "length q < unat (mh_Length ?h)" using p z(2) assms(1) by (simp add: message_ok_def flip: length_greater_0_conv)
  then show ?thesis unfolding bs by (simp add: ReadMessage_header pos ReadFull_short)
qed

lemma read_all_frames:
  "list_all message_ok ms \<Longrightarrow> read_all (length ms) (concat (map frame ms) @ rest) = (ms, rest)"
  by (induction ms) (simp_all add: ReadMessage_frame)

text \<open>C23: framing.  Messages whose header announces their payload, as the constructors make them for
  payloads of less than four gigabytes, are written back to back without a panic, and reading the
  stream yields the same messages in order, leaving what follows untouched; a stream that breaks off
  inside a frame, be it in the header or in the payload, yields an error and never a message.\<close>

theorem tunnel_framing_roundtrip:
  assumes "list_all message_ok ms" "message_ok m" "strict_prefix tail (frame m)"
  shows "list_all (\<lambda>x. WriteMessage None None spare x = Some (frame x, None)) ms \<and>
    read_all (length ms) (concat (map frame ms) @ rest) = (ms, rest) \<and>
    read_all (Suc (length ms)) (concat (map frame ms) @ tail) = (ms, [])"
proof -
  have "read_all (Suc (length ms)) (concat (map frame ms) @ tail) = (ms, [])"
    using assms(1) ReadMessage_short [OF assms(2,3)] by (induction ms) (auto simp: ReadMessage_frame)
  then show ?thesis
    using assms(1) read_all_frames [OF assms(1)] by (auto simp: list_all_iff WriteMessage_frame)
qed

definition sample_message :: message where
  "sample_message = NewDataMessage MsgTypeData 7 [1, 2, 3]"

theorem tunnel_framing_roundtrip_witness:
  "read_all 2 (concat (map frame [sample_message, NewDataMessage MsgTypeDataEnd 7 []]) @ [0x01, 0x12]) =
    ([sample_message, NewDataMessage MsgTypeDataEnd 7 []], [0x01, 0x12]) \<and>
   read_all 3 (concat (map frame [sample_message, NewDataMessage MsgTypeDataEnd 7 []]) @ [0x01, 0x12]) =
    ([sample_message, NewDataMessage MsgTypeDataEnd 7 []], [])"
proof -
  have ok: "list_all message_ok [sample_message, NewDataMessage MsgTypeDataEnd 7 []]" "message_ok sample_message"
    by (simp_all add: sample_message_def NewDataMessage_def NewMessage_ok)
  have "strict_prefix [0x01, 0x12] (frame sample_message)"
    by (simp add: frame_def header_bytes_def sample_message_def NewDataMessage_def NewMessage_def strict_prefix_def)
  from tunnel_framing_roundtrip [OF ok this, of _ "[0x01, 0x12]"] show ?thesis by (simp add: numeral_2_eq_2 numeral_3_eq_3)
qed

section \<open>Payloads\<close>

lemma payload_names:
  "plain_name ''node_id''" "plain_name ''node_token''" "plain_name ''service_addr''" "plain_name ''tunnel_id''"
  "plain_name ''external_addr''" "plain_name ''code''" "plain_name ''message''"
  by (simp_all add: plain_name_def)

lemma read_register_print:
  assumes "valid_utf8 (rp_NodeID p)" "valid_utf8 (rp_NodeToken p)" "valid_utf8 (rp_ServiceAddr p)"
  shows "read_register (m_Payload (NewControlMessage ty stream (register_json p))) = Some p"
proof -
  have "json_ok 10000 (register_json p)" using assms by (simp add: register_json_def utf8_plain payload_names)
  then show ?thesis
    by (cases p) (simp add: read_register_def NewControlMessage_def NewMessage_def register_json_def read_struct_print
        read_member_def register_field_def payload_names del: json_ok.simps json_print.simps)
qed

lemma read_register_ok_print:
  assumes "valid_utf8 (ro_TunnelID p)" "valid_utf8 (ro_ExternalAddr p)"
  shows "read_register_ok (m_Payload (NewControlMessage ty stream (register_ok_json p))) = Some p"
proof -
  have "json_ok 10000 (register_ok_json p)" using assms by (simp add: register_ok_json_def utf8_plain payload_names)
  then show ?thesis
    by (cases p) (simp add: read_register_ok_def NewControlMessage_def NewMessage_def register_ok_json_def read_struct_print
        read_member_def register_ok_field_def payload_names del: json_ok.simps json_print.simps)
qed

lemma read_error_print:
  assumes "valid_utf8 (ep_Message p)" "is_i64 (ep_Code p)"
  shows "read_error_payload (m_Payload (NewControlMessage ty stream (error_json p))) = Some p"
proof -
  have "json_ok 10000 (error_json p)" using assms by (simp add: error_json_def utf8_plain payload_names)
  then show ?thesis using assms(2)
    by (cases p) (simp add: read_error_payload_def NewControlMessage_def NewMessage_def error_json_def read_struct_print
        read_member_def error_field_def payload_names del: json_ok.simps json_print.simps)
qed

end
