(* ===== verification/Tunnel_Session.thy ===== *)
theory Tunnel_Session
  imports Tunnel_Message
begin

text \<open>
  \<open>internal/tunnel/tunnel.go\<close> and \<open>server.go\<close>: tunnel sessions, their multiplexed streams and the
  server's goroutines.  Streams and sessions are shared by reference between the reader of a connection,
  the handlers that forward requests and the readers of response bodies, so both live in a store and
  are named by their address in it.  Closing a closed channel is a run-time panic (\<^const>\<open>None\<close>).
\<close>

record stream =
  st_ID :: "32 word"
  st_Response :: "message list"
  st_Done :: bool

record tunnel_session =
  ts_TunnelID :: string
  ts_NodeID :: string
  ts_ServiceAddr :: string
  ts_ExternalAddr :: string
  ts_Streams :: "(32 word, nat) gomap"
  ts_closed :: bool
  ts_conn_open :: bool
  ts_sent :: "message list"

record tunnel_server =
  sv_streams :: "stream list"
  sv_sessions :: "tunnel_session list"
  sv_tunnels :: "(string, nat) gomap"
  sv_nextID :: "64 word"

definition NewServer :: tunnel_server where
  "NewServer = \<lparr>sv_streams = [], sv_sessions = [], sv_tunnels = [], sv_nextID = 0\<rparr>"

definition upd_stream :: "nat \<Rightarrow> (stream \<Rightarrow> stream) \<Rightarrow> tunnel_server \<Rightarrow> tunnel_server" where
  "upd_stream a f s = s\<lparr>sv_streams := (sv_streams s)[a := f (sv_streams s ! a)]\<rparr>"

definition upd_session :: "nat \<Rightarrow> (tunnel_session \<Rightarrow> tunnel_session) \<Rightarrow> tunnel_server \<Rightarrow> tunnel_server" where
  "upd_session i f s = s\<lparr>sv_sessions := (sv_sessions s)[i := f (sv_sessions s ! i)]\<rparr>"

section \<open>Streams of a session\<close>

definition NewTunnelSession :: "string \<Rightarrow> string \<Rightarrow> string \<Rightarrow> tunnel_session" where
  "NewTunnelSession tunnelID nodeID serviceAddr =
    \<lparr>ts_TunnelID = tunnelID, ts_NodeID = nodeID, ts_ServiceAddr = serviceAddr, ts_ExternalAddr = [],
     ts_Streams = [], ts_closed = False, ts_conn_open = True, ts_sent = []\<rparr>"

definition CreateStream :: "nat \<Rightarrow> 32 word \<Rightarrow> tunnel_server \<Rightarrow> tunnel_server \<times> nat" where
  "CreateStream i sid s =
    (let a = length (sv_streams s);
         s = s\<lparr>sv_streams := sv_streams s @ [\<lparr>st_ID = sid, st_Response = [], st_Done = False\<rparr>]\<rparr>
     in (upd_session i (\<lambda>t. t\<lparr>ts_Streams := gm_set sid a (ts_Streams t)\<rparr>) s, a))"

definition GetStream :: "nat \<Rightarrow> 32 word \<Rightarrow> tunnel_server \<Rightarrow> nat option" where
  "GetStream i sid s = gm_get (ts_Streams (sv_sessions s ! i)) sid"

definition close_done :: "nat \<Rightarrow> tunnel_server \<Rightarrow> tunnel_server option" where
  "close_done a s = (if st_Done (sv_streams s ! a) then None else Some (upd_stream a (\<lambda>x. x\<lparr>st_Done := True\<rparr>) s))"

definition RemoveStream :: "nat \<Rightarrow> 32 word \<Rightarrow> tunnel_server \<Rightarrow> tunnel_server option" where
  "RemoveStream i sid s =
    (case GetStream i sid s of None \<Rightarrow> Some s
     | Some a \<Rightarrow> map_option (upd_session i (\<lambda>t. t\<lparr>ts_Streams := gm_del sid (ts_Streams t)\<rparr>)) (close_done a s))"

fun close_all :: "nat list \<Rightarrow> tunnel_server \<Rightarrow> tunnel_server option" where
  "close_all [] s = Some s"
| "close_all (a # as) s = (case close_done a s of None \<Rightarrow> None | Some s' \<Rightarrow> close_all as s')"

definition session_Close :: "nat \<Rightarrow> tunnel_server \<Rightarrow> tunnel_server option" where
  "session_Close i s =
    (if ts_closed (sv_sessions s ! i) then Some s
     else
       (let s = upd_session i (\<lambda>t. t\<lparr>ts_closed := True\<rparr>) s in
        map_option (upd_session i (\<lambda>t. t\<lparr>ts_Streams := [], ts_conn_open := False\<rparr>))
          (close_all (map snd (ts_Streams (sv_sessions s ! i))) s)))"

section \<open>The tunnel manager\<close>

definition tunnel_Register :: "tunnel_session \<Rightarrow> tunnel_server \<Rightarrow> tunnel_server \<times> nat option" where
  "tunnel_Register session s =
    (if gm_get (sv_tunnels s) (ts_NodeID session) \<noteq> None then (s, None)
     else (let i = length (sv_sessions s) in
       (s\<lparr>sv_sessions := sv_sessions s @ [session], sv_tunnels := gm_set (ts_NodeID session) i (sv_tunnels s)\<rparr>, Some i)))"

definition Unregister :: "string \<Rightarrow> tunnel_server \<Rightarrow> tunnel_server option" where
  "Unregister nodeID s =
    (case gm_get (sv_tunnels s) nodeID of None \<Rightarrow> Some s
     | Some i \<Rightarrow> map_option (\<lambda>s. s\<lparr>sv_tunnels := gm_del nodeID (sv_tunnels s)\<rparr>) (session_Close i s))"

definition tunnel_Get :: "string \<Rightarrow> tunnel_server \<Rightarrow> nat option" where
  "tunnel_Get nodeID s = gm_get (sv_tunnels s) nodeID"

definition IsConnected :: "string \<Rightarrow> tunnel_server \<Rightarrow> bool" where
  "IsConnected nodeID s = (case gm_get (sv_tunnels s) nodeID of None \<Rightarrow> False | Some i \<Rightarrow> \<not> ts_closed (sv_sessions s ! i))"

definition ActiveTunnels :: "tunnel_server \<Rightarrow> int" where
  "ActiveTunnels s = int (length (sv_tunnels s))"

fun close_sessions :: "nat list \<Rightarrow> tunnel_server \<Rightarrow> tunnel_server option" where
  "close_sessions [] s = Some s"
| "close_sessions (i # is) s = (case session_Close i s of None \<Rightarrow> None | Some s' \<Rightarrow> close_sessions is s')"

definition manager_Close :: "tunnel_server \<Rightarrow> tunnel_server option" where
  "manager_Close s = map_option (\<lambda>s. s\<lparr>sv_tunnels := []\<rparr>) (close_sessions (map snd (sv_tunnels s)) s)"

section \<open>The server\<close>

definition send :: "nat \<Rightarrow> message \<Rightarrow> tunnel_server \<Rightarrow> tunnel_server" where
  "send i m s = upd_session i (\<lambda>t. t\<lparr>ts_sent := ts_sent t @ [m]\<rparr>) s"

definition sendError :: "32 word \<Rightarrow> string \<Rightarrow> message" where
  "sendError sid msg = NewControlMessage MsgTypeError sid (error_json \<lparr>ep_Code = 1, ep_Message = msg\<rparr>)"

datatype 'a blocking = Blocks | Panics | Returns 'a

fun returns :: "'a option \<Rightarrow> 'a blocking" where
  "returns None = Panics"
| "returns (Some x) = Returns x"

datatype handshake_result = ReadFailed read_error | Refused message | Accepted nat "byte list"

text \<open>A new connection up to the reply to its registration; \<open>r\<close> is what arrives on it.  The check of
  the number of tunnels and the registration take the manager's lock one after the other.\<close>

definition handshake :: "string \<Rightarrow> int \<Rightarrow> string \<Rightarrow> string \<Rightarrow> byte list \<Rightarrow> tunnel_server \<Rightarrow> tunnel_server \<times> handshake_result" where
  "handshake authToken maxTunnels tunnelID remote r s =
    (case ReadMessage r of
       (_, Inl e) \<Rightarrow> (s, ReadFailed e)
     | (r, Inr msg) \<Rightarrow>
        if mh_Type (m_Header msg) \<noteq> MsgTypeRegister then (s, Refused (sendError 0 ''expected register message''))
        else
          (case read_register (m_Payload msg) of
             None \<Rightarrow> (s, Refused (sendError 0 ''invalid register payload''))
           | Some reg \<Rightarrow>
              if authToken \<noteq> [] \<and> rp_NodeToken reg \<noteq> authToken then (s, Refused (sendError 0 ''invalid token''))
              else if ActiveTunnels s \<ge> maxTunnels then (s, Refused (sendError 0 ''max tunnels reached''))
              else
                (let ext = ''tunnel://'' @ remote;
                     session = (NewTunnelSession tunnelID (rp_NodeID reg) (rp_ServiceAddr reg))\<lparr>ts_ExternalAddr := ext\<rparr>
                 in case tunnel_Register session s of
                    (s, None) \<Rightarrow> (s, Refused (sendError 0 (''tunnel already exists for node '' @ rp_NodeID reg)))
                  | (s, Some i) \<Rightarrow>
                      (send i (NewControlMessage MsgTypeRegisterOK 0 (register_ok_json \<lparr>ro_TunnelID = tunnelID, ro_ExternalAddr = ext\<rparr>)) s,
                       Accepted i r))))"

text \<open>One message of the loop that reads a connection.  The response channel of a stream holds one
  message; a full one blocks the reader until it is drained.\<close>

definition deliver :: "nat \<Rightarrow> message \<Rightarrow> tunnel_server \<Rightarrow> tunnel_server" where
  "deliver a m s = upd_stream a (\<lambda>x. x\<lparr>st_Response := st_Response x @ [m]\<rparr>) s"

definition handle_message :: "nat \<Rightarrow> message \<Rightarrow> tunnel_server \<Rightarrow> tunnel_server blocking" where
  "handle_message i m s =
    (let ty = mh_Type (m_Header m); sid = mh_StreamID (m_Header m) in
     if ty = MsgTypeHeartbeat then Returns (send i (NewControlMessage MsgTypeHeartbeat 0 JNull) s)
     else if ty = MsgTypeResponse \<or> ty = MsgTypeData then
       (case GetStream i sid s of None \<Rightarrow> Returns s
        | Some a \<Rightarrow> if length (st_Response (sv_streams s ! a)) < 1 then Returns (deliver a m s) else Blocks)
     else if ty = MsgTypeDataEnd then returns (RemoveStream i sid s)
     else Returns s)"

text \<open>Forwarding a request: a stream, the request, the body in chunks up to its end (or an error) and
  the end marker.  \<open>fail\<close> is the number of messages after which a write fails.\<close>

definition body_messages :: "32 word \<Rightarrow> (byte list list \<times> bool) option \<Rightarrow> message list \<times> bool" where
  "body_messages sid body =
    (case body of None \<Rightarrow> ([], True)
     | Some (chunks, eof) \<Rightarrow>
        (map (NewDataMessage MsgTypeData sid) (filter (\<lambda>c. c \<noteq> []) chunks) @
         (if eof then [NewDataMessage MsgTypeDataEnd sid []] else []), eof))"

definition forward_start :: "string \<Rightarrow> json \<Rightarrow> (byte list list \<times> bool) option \<Rightarrow> nat option \<Rightarrow> tunnel_server
    \<Rightarrow> (tunnel_server \<times> (nat \<times> 32 word \<times> nat) option) option" where
  "forward_start nodeID req body fail s =
    (case tunnel_Get nodeID s of None \<Rightarrow> Some (s, None)
     | Some i \<Rightarrow>
        (let n = sv_nextID s + 1; sid = ucast n;
             (s, a) = CreateStream i sid (s\<lparr>sv_nextID := n\<rparr>);
             (ms, eof) = body_messages sid body;
             out = NewControlMessage MsgTypeRequest sid req # ms;
             (done, ok) = (case fail of None \<Rightarrow> (out, True) | Some k \<Rightarrow> (take k out, length out \<le> k));
             s = fold (send i) done s
         in if ok \<and> eof then Some (s, Some (i, sid, a))
            else map_option (\<lambda>s. (s, None)) (RemoveStream i sid s)))"

record http_response_header =
  hr_StreamID :: nat
  hr_StatusCode :: int
  hr_Headers :: "(string, string) gomap"
  hr_BodyLen :: int

definition zero_response :: http_response_header where
  "zero_response = \<lparr>hr_StreamID = 0, hr_StatusCode = 0, hr_Headers = [], hr_BodyLen = 0\<rparr>"

definition response_field :: "http_response_header \<Rightarrow> string \<Rightarrow> json \<Rightarrow> http_response_header \<times> bool" where
  "response_field p k v =
    (if field_is ''stream_id'' k then uint_field 32 (\<lambda>n. p\<lparr>hr_StreamID := n\<rparr>) p v
     else if field_is ''status_code'' k then int_field (\<lambda>n. p\<lparr>hr_StatusCode := n\<rparr>) p v
     else if field_is ''headers'' k then strmap_field (\<lambda>h. p\<lparr>hr_Headers := h\<rparr>) (hr_Headers p) p v
     else if field_is ''body_len'' k then int_field (\<lambda>n. p\<lparr>hr_BodyLen := n\<rparr>) p v
     else (p, True))"

record body_reader =
  br_stream :: nat
  br_remain :: int
  br_buf :: "byte list"

datatype forward_error = ForwardTimeout | RemoteError string | BadResponse

definition take_response :: "nat \<Rightarrow> tunnel_server \<Rightarrow> (message \<times> tunnel_server) option" where
  "take_response a s =
    (case st_Response (sv_streams s ! a) of [] \<Rightarrow> None
     | m # ms \<Rightarrow> Some (m, upd_stream a (\<lambda>x. x\<lparr>st_Response := ms\<rparr>) s))"

definition response_of :: "nat \<Rightarrow> message \<Rightarrow> forward_error + http_response_header \<times> body_reader" where
  "response_of a m =
    (if mh_Type (m_Header m) = MsgTypeError then
       Inl (RemoteError (ep_Message (read_partial error_field \<lparr>ep_Code = 0, ep_Message = []\<rparr> (string_of (m_Payload m)))))
     else
       (case read_struct response_field zero_response (string_of (m_Payload m)) of
          None \<Rightarrow> Inl BadResponse
        | Some h \<Rightarrow> Inr (h, \<lparr>br_stream = a, br_remain = hr_BodyLen h, br_buf = []\<rparr>)))"

text \<open>The wait for the response, and the deferred removal of the stream.\<close>

definition forward_finish :: "nat \<Rightarrow> 32 word \<Rightarrow> nat \<Rightarrow> bool \<Rightarrow> tunnel_server
    \<Rightarrow> (tunnel_server \<times> (forward_error + http_response_header \<times> body_reader)) blocking" where
  "forward_finish i sid a timeout s =
    (if timeout then returns (map_option (\<lambda>s. (s, Inl ForwardTimeout)) (RemoveStream i sid s))
     else
       (case take_response a s of None \<Rightarrow> Blocks
        | Some (m, s) \<Rightarrow> returns (map_option (\<lambda>s. (s, response_of a m)) (RemoveStream i sid s))))"

datatype body_error = BodyEOF | BodyUnexpected "8 word" | BodyTimeout

datatype body_case = CaseResponse | CaseDone | CaseTimer

text \<open>Reading the response body: what is buffered first, else whichever case of the \<open>select\<close> is chosen
  among those that are ready.\<close>

definition body_Read :: "nat \<Rightarrow> body_case \<Rightarrow> body_reader \<Rightarrow> tunnel_server
    \<Rightarrow> (body_reader \<times> tunnel_server \<times> byte list \<times> body_error option) blocking" where
  "body_Read len c r s =
    (if br_remain r \<le> 0 \<and> br_buf r = [] then Returns (r, s, [], Some BodyEOF)
     else if br_buf r \<noteq> [] then Returns (r\<lparr>br_buf := drop len (br_buf r)\<rparr>, s, take len (br_buf r), None)
     else case c of
        CaseResponse \<Rightarrow>
          (case take_response (br_stream r) s of None \<Rightarrow> Blocks
           | Some (m, s) \<Rightarrow>
              if mh_Type (m_Header m) = MsgTypeData then
                Returns (r\<lparr>br_remain := i64 (br_remain r - int (length (m_Payload m))), br_buf := drop len (m_Payload m)\<rparr>, s,
                  take len (m_Payload m), None)
              else if mh_Type (m_Header m) = MsgTypeDataEnd then Returns (r, s, [], Some BodyEOF)
              else Returns (r, s, [], Some (BodyUnexpected (mh_Type (m_Header m)))))
      | CaseDone \<Rightarrow> if st_Done (sv_streams s ! br_stream r) then Returns (r, s, [], Some BodyEOF) else Blocks
      | CaseTimer \<Rightarrow> Returns (r, s, [], Some BodyTimeout))"

section \<open>Every interleaving of the goroutines\<close>

text \<open>The atomic actions: a new connection, a message read on a session, the end of a connection, a
  request sent, a response awaited, a read of a body, the shutdown.  The addresses are any the program
  can hold, so the runs include all of its schedules.\<close>

datatype tunnel_op =
    OpConnect string int string string "byte list"
  | OpMessage nat message
  | OpDisconnect string
  | OpForward string json "(byte list list \<times> bool) option" "nat option"
  | OpFinish nat "32 word" nat bool
  | OpBody nat body_case body_reader
  | OpStop

fun op_ok :: "tunnel_server \<Rightarrow> tunnel_op \<Rightarrow> bool" where
  "op_ok s (OpMessage i m) = (i < length (sv_sessions s))"
| "op_ok s (OpFinish i sid a t) = (i < length (sv_sessions s) \<and> a < length (sv_streams s))"
| "op_ok s (OpBody n c r) = (br_stream r < length (sv_streams s))"
| "op_ok s _ = True"

fun map_blocking :: "('a \<Rightarrow> 'b) \<Rightarrow> 'a blocking \<Rightarrow> 'b blocking" where
  "map_blocking f Blocks = Blocks"
| "map_blocking f Panics = Panics"
| "map_blocking f (Returns x) = Returns (f x)"

fun tunnel_exec :: "tunnel_op \<Rightarrow> tunnel_server \<Rightarrow> tunnel_server blocking" where
  "tunnel_exec (OpConnect auth mx tid remote r) s = Returns (fst (handshake auth mx tid remote r s))"
| "tunnel_exec (OpMessage i m) s = handle_message i m s"
| "tunnel_exec (OpDisconnect n) s = returns (Unregister n s)"
| "tunnel_exec (OpForward n req body fail) s = returns (map_option fst (forward_start n req body fail s))"
| "tunnel_exec (OpFinish i sid a t) s = map_blocking fst (forward_finish i sid a t s)"
| "tunnel_exec (OpBody n c r) s = map_blocking (fst \<circ> snd) (body_Read n c r s)"
| "tunnel_exec OpStop s = returns (manager_Close s)"

inductive tunnel_reachable :: "tunnel_server \<Rightarrow> bool" where
  start: "tunnel_reachable NewServer"
| step: "\<lbrakk>tunnel_reachable s; op_ok s op; tunnel_exec op s = Returns s'\<rbrakk> \<Longrightarrow> tunnel_reachable s'"

section \<open>Invariants\<close>

definition addrs :: "tunnel_session \<Rightarrow> nat list" where
  "addrs t = map snd (ts_Streams t)"

definition listed :: "tunnel_server \<Rightarrow> nat list" where
  "listed s = concat (map addrs (sv_sessions s))"

definition others :: "nat \<Rightarrow> tunnel_server \<Rightarrow> nat list" where
  "others i s = concat ((map addrs (sv_sessions s))[i := []])"

definition streams_inv :: "tunnel_server \<Rightarrow> bool" where
  "streams_inv s \<longleftrightarrow> distinct (listed s) \<and> (\<forall>a\<in>set (listed s). a < length (sv_streams s) \<and> \<not> st_Done (sv_streams s ! a))"

definition ids_ok :: "stream list \<Rightarrow> tunnel_session \<Rightarrow> bool" where
  "ids_ok xs t \<longleftrightarrow> gm_wf (ts_Streams t) \<and> (\<forall>(sid, a)\<in>set (ts_Streams t). st_ID (xs ! a) = sid)"

definition stream_ok :: "stream \<Rightarrow> bool" where
  "stream_ok x \<longleftrightarrow> length (st_Response x) \<le> 1 \<and> (\<forall>m\<in>set (st_Response x). mh_StreamID (m_Header m) = st_ID x)"

definition mgr_inv :: "tunnel_server \<Rightarrow> bool" where
  "mgr_inv s \<longleftrightarrow> gm_wf (sv_tunnels s) \<and> distinct (map snd (sv_tunnels s)) \<and>
    (\<forall>(n, i)\<in>set (sv_tunnels s). i < length (sv_sessions s) \<and> ts_NodeID (sv_sessions s ! i) = n \<and> \<not> ts_closed (sv_sessions s ! i))"

definition tunnel_inv :: "tunnel_server \<Rightarrow> bool" where
  "tunnel_inv s \<longleftrightarrow> streams_inv s \<and> (\<forall>t\<in>set (sv_sessions s). ids_ok (sv_streams s) t) \<and>
    (\<forall>x\<in>set (sv_streams s). stream_ok x) \<and> mgr_inv s"

lemma sv_sessions_upd: "sv_sessions (upd_session i f s) = (sv_sessions s)[i := f (sv_sessions s ! i)]"
  by (simp add: upd_session_def)

lemma mset_concat_update:
  "i < length xss \<Longrightarrow> mset (concat (xss[i := ys])) = mset (concat (xss[i := []])) + mset ys"
  by (induction xss arbitrary: i) (auto split: nat.splits)

lemma listed_upd:
  assumes "i < length (sv_sessions s)"
  shows "mset (listed (upd_session i f s)) = mset (others i s @ addrs (f (sv_sessions s ! i)))"
  using assms mset_concat_update [of i "map addrs (sv_sessions s)" "addrs (f (sv_sessions s ! i))"]
  unfolding listed_def others_def sv_sessions_upd by (simp only: map_update mset_append length_map simp_thms)

lemma listed_split:
  assumes "i < length (sv_sessions s)"
  shows "mset (listed s) = mset (others i s @ addrs (sv_sessions s ! i))"
  using listed_upd [OF assms, of "\<lambda>t. t"] by (simp add: upd_session_def)

lemma gm_set_subset: "set (gm_set k a m) \<subseteq> insert (k, a) (set m)"
  by (induction m) auto

lemma distinct_snd_set: "\<lbrakk>distinct (map snd m); a \<notin> snd ` set m\<rbrakk> \<Longrightarrow> distinct (map snd (gm_set k a m))"
proof (induction m)
  case (Cons p m)
  have "snd ` set (gm_set k a m) \<subseteq> insert a (snd ` set m)"
    using image_mono [OF gm_set_subset, of snd k a m] by simp
  moreover have "snd p \<noteq> a" "snd p \<notin> snd ` set m" using Cons.prems by auto
  ultimately have "snd p \<notin> snd ` set (gm_set k a m)" by blast
  then show ?case using Cons by (cases p) auto
qed simp

lemma distinct_snd_del: "distinct (map snd m) \<Longrightarrow> distinct (map snd (gm_del k m))"
  by (simp add: AList.delete_eq distinct_map_filter)

text \<open>Closing streams that are open and distinct never panics.\<close>

definition mark_done :: "nat list \<Rightarrow> tunnel_server \<Rightarrow> tunnel_server" where
  "mark_done as s = s\<lparr>sv_streams := map (\<lambda>a. if a \<in> set as then (sv_streams s ! a)\<lparr>st_Done := True\<rparr> else sv_streams s ! a) [0..<length (sv_streams s)]\<rparr>"

lemma mark_done_fields [simp]:
  "sv_sessions (mark_done as s) = sv_sessions s" "sv_tunnels (mark_done as s) = sv_tunnels s"
  "length (sv_streams (mark_done as s)) = length (sv_streams s)"
  "a < length (sv_streams s) \<Longrightarrow> sv_streams (mark_done as s) ! a = (if a \<in> set as then (sv_streams s ! a)\<lparr>st_Done := True\<rparr> else sv_streams s ! a)"
  by (simp_all add: mark_done_def)

lemma close_done_open:
  assumes "a < length (sv_streams s)" "\<not> st_Done (sv_streams s ! a)"
  shows "close_done a s = Some (mark_done [a] s)"
proof -
  have "(sv_streams s)[a := (sv_streams s ! a)\<lparr>st_Done := True\<rparr>] = sv_streams (mark_done [a] s)"
    using assms by (intro nth_equalityI) (auto simp: nth_list_update)
  then show ?thesis using assms by (simp add: close_done_def upd_stream_def mark_done_def)
qed

lemma mark_done_Cons: "a < length (sv_streams s) \<Longrightarrow> mark_done as (mark_done [a] s) = mark_done (a # as) s"
proof -
  assume "a < length (sv_streams s)"
  have "sv_streams (mark_done as (mark_done [a] s)) = sv_streams (mark_done (a # as) s)"
    by (rule nth_equalityI) auto
  then show ?thesis by (simp add: mark_done_def)
qed

lemma close_all_open:
  "\<lbrakk>distinct as; \<forall>a\<in>set as. a < length (sv_streams s) \<and> \<not> st_Done (sv_streams s ! a)\<rbrakk> \<Longrightarrow> close_all as s = Some (mark_done as s)"
proof (induction as arbitrary: s)
  case Nil
  have "map (\<lambda>a. sv_streams s ! a) [0..<length (sv_streams s)] = sv_streams s" by (rule map_nth)
  then show ?case by (simp add: mark_done_def)
next
  case (Cons a as)
  then have a: "a < length (sv_streams s)" "\<not> st_Done (sv_streams s ! a)" by auto
  have "close_all as (mark_done [a] s) = Some (mark_done as (mark_done [a] s))"
    using Cons.prems by (intro Cons.IH) auto
  then show ?case using a by (simp add: close_done_open mark_done_Cons)
qed

definition core_inv :: "tunnel_server \<Rightarrow> bool" where
  "core_inv s \<longleftrightarrow> streams_inv s \<and> (\<forall>t\<in>set (sv_sessions s). ids_ok (sv_streams s) t) \<and> (\<forall>x\<in>set (sv_streams s). stream_ok x)"

lemma tunnel_inv_core: "tunnel_inv s \<longleftrightarrow> core_inv s \<and> mgr_inv s"
  by (auto simp: tunnel_inv_def core_inv_def)

lemma core_addrs:
  assumes "core_inv s" "i < length (sv_sessions s)"
  shows "distinct (addrs (sv_sessions s ! i))" "set (addrs (sv_sessions s ! i)) \<inter> set (others i s) = {}" "distinct (others i s)"
    "a \<in> set (addrs (sv_sessions s ! i)) \<or> a \<in> set (others i s) \<Longrightarrow> a < length (sv_streams s) \<and> \<not> st_Done (sv_streams s ! a)"
proof -
  note m = listed_split [OF assms(2)]
  have "distinct (others i s @ addrs (sv_sessions s ! i))"
    using assms(1) mset_eq_imp_distinct_iff [OF m] by (simp add: core_inv_def streams_inv_def)
  then show "distinct (addrs (sv_sessions s ! i))" "set (addrs (sv_sessions s ! i)) \<inter> set (others i s) = {}" "distinct (others i s)"
    by auto
  have "set (listed s) = set (others i s @ addrs (sv_sessions s ! i))" using m by (rule mset_eq_setD)
  then show "a \<in> set (addrs (sv_sessions s ! i)) \<or> a \<in> set (others i s) \<Longrightarrow> a < length (sv_streams s) \<and> \<not> st_Done (sv_streams s ! a)"
    using assms(1) by (auto simp: core_inv_def streams_inv_def)
qed

lemma ids_in:
  assumes "core_inv s" "t \<in> set (sv_sessions s)" "(sid, a) \<in> set (ts_Streams t)"
  shows "a < length (sv_streams s)" "st_ID (sv_streams s ! a) = sid"
proof -
  have "a \<in> set (listed s)" using assms(2,3) by (auto simp: listed_def addrs_def intro!: bexI [of _ t] image_eqI [of _ _ "(sid, a)"])
  then show "a < length (sv_streams s)" using assms(1) by (simp add: core_inv_def streams_inv_def)
  show "st_ID (sv_streams s ! a) = sid" using assms by (auto simp: core_inv_def ids_ok_def)
qed

text \<open>Replacing the streams of one session, while the store of streams grows or streams are closed.\<close>

lemma core_replace:
  assumes inv: "core_inv s" and i: "i < length (sv_sessions s)"
    and s': "sv_sessions s' = (sv_sessions s)[i := t']" "length (sv_streams s) \<le> length (sv_streams s')"
    and t': "distinct (addrs t')" "set (addrs t') \<inter> set (others i s) = {}" "ids_ok (sv_streams s') t'"
      "\<forall>a\<in>set (addrs t'). a < length (sv_streams s') \<and> \<not> st_Done (sv_streams s' ! a)"
    and keep: "\<forall>a\<in>set (others i s). st_Done (sv_streams s' ! a) = st_Done (sv_streams s ! a)"
      "\<forall>a<length (sv_streams s). st_ID (sv_streams s' ! a) = st_ID (sv_streams s ! a)"
    and ok: "\<forall>x\<in>set (sv_streams s'). stream_ok x"
  shows "core_inv s'"
proof -
  note m = listed_upd [OF i, of "\<lambda>_. t'"]
  have l: "listed s' = listed (upd_session i (\<lambda>_. t') s)" by (simp add: listed_def s' sv_sessions_upd)
  have "distinct (others i s @ addrs t')" using core_addrs(3) [OF inv i] t'(1,2) by auto
  then have d: "distinct (listed s')" unfolding l mset_eq_imp_distinct_iff [OF m] .
  have "set (listed s') = set (others i s @ addrs t')" unfolding l using m by (rule mset_eq_setD)
  moreover have "a < length (sv_streams s') \<and> \<not> st_Done (sv_streams s' ! a)" if "a \<in> set (others i s)" for a
    using core_addrs(4) [OF inv i, of a] that keep(1) s'(2) by simp
  ultimately have "\<forall>a\<in>set (listed s'). a < length (sv_streams s') \<and> \<not> st_Done (sv_streams s' ! a)"
    using t'(4) by auto
  then have "streams_inv s'" using d by (simp add: streams_inv_def)
  moreover have "ids_ok (sv_streams s') t" if "t \<in> set (sv_sessions s')" for t
  proof (cases "t = t'")
    case False
    then have t: "t \<in> set (sv_sessions s)" using that s'(1) set_update_subset_insert [of "sv_sessions s" i t'] by auto
    have "gm_wf (ts_Streams t)" using inv t by (simp add: core_inv_def ids_ok_def)
    moreover have "st_ID (sv_streams s' ! a) = sid" if "(sid, a) \<in> set (ts_Streams t)" for sid a
      using ids_in [OF inv t that] keep(2) by simp
    ultimately show ?thesis by (auto simp: ids_ok_def)
  qed (use t' in simp)
  ultimately show ?thesis using ok by (simp add: core_inv_def)
qed

lemma core_same:
  assumes "core_inv s" "map ts_Streams (sv_sessions s') = map ts_Streams (sv_sessions s)" "sv_streams s' = sv_streams s"
  shows "core_inv s'"
proof -
  have "map addrs (sv_sessions s') = map addrs (sv_sessions s)"
    using arg_cong [OF assms(2), of "map (map snd)"] unfolding addrs_def [abs_def] by (simp add: comp_def)
  then have l: "listed s' = listed s" by (simp only: listed_def)
  have e: "ts_Streams ` set (sv_sessions s') = ts_Streams ` set (sv_sessions s)"
    using arg_cong [OF assms(2), of set] by simp
  have "ids_ok (sv_streams s) t" if t: "t \<in> set (sv_sessions s')" for t
  proof -
    obtain t0 where "t0 \<in> set (sv_sessions s)" "ts_Streams t0 = ts_Streams t"
      using e imageI [OF t, of ts_Streams] by auto
    then show ?thesis using assms(1) by (auto simp: core_inv_def ids_ok_def)
  qed
  then show ?thesis using assms(1,3) l by (simp add: core_inv_def streams_inv_def)
qed

lemma core_upd_stream:
  assumes inv: "core_inv s" and a: "a < length (sv_streams s)"
    and f: "st_Done (f (sv_streams s ! a)) = st_Done (sv_streams s ! a)" "st_ID (f (sv_streams s ! a)) = st_ID (sv_streams s ! a)"
      "stream_ok (f (sv_streams s ! a))"
  shows "core_inv (upd_stream a f s)"
proof -
  let ?s = "upd_stream a f s"
  have s: "sv_sessions ?s = sv_sessions s" "listed ?s = listed s" "length (sv_streams ?s) = length (sv_streams s)"
    by (simp_all add: upd_stream_def listed_def)
  have e: "st_Done (sv_streams ?s ! b) = st_Done (sv_streams s ! b)" "st_ID (sv_streams ?s ! b) = st_ID (sv_streams s ! b)" for b
    using f a by (cases "b = a"; simp add: upd_stream_def)+
  have "\<forall>x\<in>set (sv_streams ?s). stream_ok x"
    using inv f(3) set_update_subset_insert [of "sv_streams s" a "f (sv_streams s ! a)"] by (auto simp: core_inv_def upd_stream_def)
  then show ?thesis using inv s e by (simp add: core_inv_def streams_inv_def ids_ok_def)
qed

lemma stream_ok_nth: "\<lbrakk>core_inv s; a < length (sv_streams s)\<rbrakk> \<Longrightarrow> stream_ok (sv_streams s ! a)"
  by (simp add: core_inv_def)

definition same_mgr :: "tunnel_server \<Rightarrow> tunnel_server \<Rightarrow> bool" where
  "same_mgr s s' \<longleftrightarrow> sv_tunnels s' = sv_tunnels s \<and>
    map (\<lambda>t. (ts_NodeID t, ts_closed t)) (sv_sessions s') = map (\<lambda>t. (ts_NodeID t, ts_closed t)) (sv_sessions s)"

lemma same_mgr_trans: "same_mgr s s' \<Longrightarrow> same_mgr s' s'' \<Longrightarrow> same_mgr s s''"
  by (simp add: same_mgr_def)

lemma same_mgr_length: "same_mgr s s' \<Longrightarrow> length (sv_sessions s') = length (sv_sessions s)"
  unfolding same_mgr_def using map_eq_imp_length_eq by blast

lemma mgr_same:
  assumes "mgr_inv s" "same_mgr s s'"
  shows "mgr_inv s'"
proof -
  note l = same_mgr_length [OF assms(2)]
  have "ts_NodeID (sv_sessions s' ! i) = ts_NodeID (sv_sessions s ! i) \<and> ts_closed (sv_sessions s' ! i) = ts_closed (sv_sessions s ! i)"
    if "i < length (sv_sessions s)" for i
    using arg_cong [of _ _ "\<lambda>xs. xs ! i", OF assms(2) [unfolded same_mgr_def, THEN conjunct2]] that l by simp
  then show ?thesis using assms l by (auto simp: mgr_inv_def same_mgr_def)
qed

lemma map_upd_same: "(\<And>t. g (f t) = g t) \<Longrightarrow> map g (xs[i := f (xs ! i)]) = map g xs"
  by (induction xs arbitrary: i) (auto split: nat.splits)

lemma same_mgr_upd:
  "(\<And>t. ts_NodeID (f t) = ts_NodeID t \<and> ts_closed (f t) = ts_closed t) \<Longrightarrow> same_mgr s (upd_session i f s)"
  by (simp add: same_mgr_def upd_session_def map_upd_same)

lemma same_mgr_stream: "same_mgr s (upd_stream a f s)" "same_mgr s (mark_done as s)" "same_mgr s (s\<lparr>sv_streams := xs\<rparr>)"
  by (simp_all add: same_mgr_def upd_stream_def)

lemma send_inv: "core_inv s \<Longrightarrow> core_inv (send i m s)" "same_mgr s (send i m s)"
proof -
  have "map ts_Streams (sv_sessions (send i m s)) = map ts_Streams (sv_sessions s)"
    by (simp add: send_def upd_session_def map_upd_same)
  then show "core_inv s \<Longrightarrow> core_inv (send i m s)" by (rule core_same [rotated]) (simp_all add: send_def upd_session_def)
  show "same_mgr s (send i m s)" unfolding send_def by (rule same_mgr_upd) simp
qed

lemma fold_send_inv: "core_inv s \<Longrightarrow> core_inv (fold (send i) ms s) \<and> same_mgr s (fold (send i) ms s)"
proof (induction ms arbitrary: s)
  case (Cons m ms)
  then have "core_inv (fold (send i) ms (send i m s)) \<and> same_mgr (send i m s) (fold (send i) ms (send i m s))"
    using send_inv(1) by blast
  then show ?case using same_mgr_trans [OF send_inv(2) [of s i m]] by simp
qed (simp add: same_mgr_def)

lemma CreateStream_inv:
  assumes inv: "core_inv s" and i: "i < length (sv_sessions s)"
  shows "core_inv (fst (CreateStream i sid s))" "same_mgr s (fst (CreateStream i sid s))"
proof -
  let ?t = "sv_sessions s ! i" and ?a = "length (sv_streams s)" and ?s = "fst (CreateStream i sid s)"
  let ?t' = "?t\<lparr>ts_Streams := gm_set sid ?a (ts_Streams ?t)\<rparr>"
  have s: "sv_sessions ?s = (sv_sessions s)[i := ?t']" "sv_streams ?s = sv_streams s @ [\<lparr>st_ID = sid, st_Response = [], st_Done = False\<rparr>]"
    by (simp_all add: CreateStream_def Let_def upd_session_def)
  have tin: "?t \<in> set (sv_sessions s)" using i by simp
  have new: "?a \<notin> set (addrs ?t)" "?a \<notin> set (others i s)" using core_addrs(4) [OF inv i, of ?a] by auto
  have sub: "set (ts_Streams ?t') \<subseteq> insert (sid, ?a) (set (ts_Streams ?t))" using gm_set_subset by simp
  then have sa: "set (addrs ?t') \<subseteq> insert ?a (set (addrs ?t))" using image_mono [OF sub, of snd] by (simp add: addrs_def)
  have ids: "ids_ok (sv_streams ?s) ?t'"
  proof -
    have "gm_wf (ts_Streams ?t)" using inv tin by (simp add: core_inv_def ids_ok_def)
    moreover have "st_ID (sv_streams ?s ! b) = k" if "(k, b) \<in> set (ts_Streams ?t)" for k b
      using ids_in [OF inv tin that] s(2) by (simp add: nth_append)
    ultimately show ?thesis using sub s(2) by (auto simp: ids_ok_def)
  qed
  have dist: "distinct (addrs ?t')" using core_addrs(1) [OF inv i] new(1) by (simp add: addrs_def distinct_snd_set)
  have disj: "set (addrs ?t') \<inter> set (others i s) = {}" using sa new(2) core_addrs(2) [OF inv i] by auto
  have opn: "\<forall>b\<in>set (addrs ?t'). b < length (sv_streams ?s) \<and> \<not> st_Done (sv_streams ?s ! b)"
  proof
    fix b assume "b \<in> set (addrs ?t')"
    then have "b = ?a \<or> b \<in> set (addrs ?t)" using sa by blast
    then show "b < length (sv_streams ?s) \<and> \<not> st_Done (sv_streams ?s ! b)"
      using core_addrs(4) [OF inv i, of b] s(2) by (auto simp: nth_append)
  qed
  have kp: "\<forall>b\<in>set (others i s). st_Done (sv_streams ?s ! b) = st_Done (sv_streams s ! b)"
  proof
    fix b assume "b \<in> set (others i s)"
    then show "st_Done (sv_streams ?s ! b) = st_Done (sv_streams s ! b)"
      using core_addrs(4) [OF inv i, of b] s(2) by (simp add: nth_append)
  qed
  have ok: "\<forall>x\<in>set (sv_streams ?s). stream_ok x" using inv s(2) by (simp add: core_inv_def stream_ok_def)
  show "core_inv ?s"
    by (rule core_replace [OF inv i s(1) _ dist disj ids opn kp _ ok]) (simp_all add: s(2) nth_append)
  show "same_mgr s ?s"
    using same_mgr_trans [OF same_mgr_stream(3) same_mgr_upd] by (simp add: CreateStream_def Let_def)
qed

lemma mark_done_open:
  assumes "core_inv s" "i < length (sv_sessions s)" "b \<in> set (addrs (sv_sessions s ! i)) \<or> b \<in> set (others i s)" "b \<notin> set as"
  shows "b < length (sv_streams s)" "\<not> st_Done (sv_streams (mark_done as s) ! b)" "\<not> st_Done (sv_streams s ! b)"
  using core_addrs(4) [OF assms(1-3)] assms(4) by simp_all

lemma mark_done_ok: "core_inv s \<Longrightarrow> \<forall>x\<in>set (sv_streams (mark_done as s)). stream_ok x"
  by (auto simp: core_inv_def stream_ok_def mark_done_def)

lemma RemoveStream_inv:
  assumes inv: "core_inv s" and i: "i < length (sv_sessions s)"
  shows "\<exists>s'. RemoveStream i sid s = Some s' \<and> core_inv s' \<and> same_mgr s s'"
proof (cases "GetStream i sid s")
  case (Some a)
  let ?t = "sv_sessions s ! i"
  let ?t' = "?t\<lparr>ts_Streams := gm_del sid (ts_Streams ?t)\<rparr>"
  let ?f = "\<lambda>t. t\<lparr>ts_Streams := gm_del sid (ts_Streams t)\<rparr>"
  let ?s = "upd_session i ?f (mark_done [a] s)"
  have tin: "?t \<in> set (sv_sessions s)" using i by simp
  have mem: "(sid, a) \<in> set (ts_Streams ?t)" using Some by (simp add: GetStream_def map_of_SomeD)
  then have a: "a \<in> set (addrs ?t)" by (force simp: addrs_def)
  note open_a = core_addrs(4) [OF inv i, of a]
  have d: "distinct (addrs ?t)" "gm_wf (ts_Streams ?t)" using core_addrs(1) [OF inv i] inv tin by (auto simp: core_inv_def ids_ok_def)
  have sub: "set (ts_Streams ?t') \<subseteq> set (ts_Streams ?t)" by (auto simp: gm_del_pairs)
  have notin: "a \<notin> set (addrs ?t')"
  proof
    assume "a \<in> set (addrs ?t')"
    then obtain k where k: "(k, a) \<in> set (ts_Streams ?t)" "k \<noteq> sid" by (auto simp: addrs_def gm_del_pairs)
    then show False using ids_in(2) [OF inv tin k(1)] ids_in(2) [OF inv tin mem] by simp
  qed
  have s: "sv_sessions ?s = (sv_sessions s)[i := ?t']" "sv_streams ?s = sv_streams (mark_done [a] s)"
    by (simp_all add: upd_session_def)
  have "set (addrs ?t') \<subseteq> set (addrs ?t)" using image_mono [OF sub, of snd] by (simp add: addrs_def)
  then have sa: "b \<in> set (addrs ?t') \<Longrightarrow> b \<in> set (addrs ?t)" for b by blast
  then have disj: "set (addrs ?t') \<inter> set (others i s) = {}" using core_addrs(2) [OF inv i] by blast
  have opn: "\<forall>b\<in>set (addrs ?t'). b < length (sv_streams ?s) \<and> \<not> st_Done (sv_streams ?s ! b)"
  proof
    fix b assume b: "b \<in> set (addrs ?t')"
    have na: "b \<notin> set [a]" using notin b by auto
    show "b < length (sv_streams ?s) \<and> \<not> st_Done (sv_streams ?s ! b)"
      using mark_done_open [OF inv i disjI1 [OF sa [OF b]] na] s(2) by simp
  qed
  have ids: "ids_ok (sv_streams ?s) ?t'"
  proof -
    have "st_ID (sv_streams ?s ! b) = k" if "(k, b) \<in> set (ts_Streams ?t')" for k b
      using ids_in [OF inv tin subsetD [OF sub that]] s(2) by auto
    then show ?thesis using d(2) by (auto simp: ids_ok_def)
  qed
  have dist: "distinct (addrs ?t')" using d(1) by (simp add: addrs_def distinct_snd_del)
  have ok: "\<forall>x\<in>set (sv_streams ?s). stream_ok x" using mark_done_ok [OF inv] s(2) by simp
  have kp: "\<forall>b\<in>set (others i s). st_Done (sv_streams ?s ! b) = st_Done (sv_streams s ! b)"
  proof
    fix b assume b: "b \<in> set (others i s)"
    have na: "b \<notin> set [a]" using a b core_addrs(2) [OF inv i] by auto
    show "st_Done (sv_streams ?s ! b) = st_Done (sv_streams s ! b)"
      using mark_done_open [OF inv i disjI2 [OF b] na] s(2) by simp
  qed
  have "core_inv ?s"
    by (rule core_replace [OF inv i s(1) _ dist disj ids opn kp _ ok]) (simp_all add: s(2))
  moreover have "same_mgr s ?s" using same_mgr_trans [OF same_mgr_stream(2) same_mgr_upd [of ?f]] by simp
  moreover have "RemoveStream i sid s = Some ?s" using Some open_a a by (simp add: RemoveStream_def close_done_open)
  ultimately show ?thesis by blast
qed (use inv in \<open>simp add: RemoveStream_def same_mgr_def\<close>)

lemma addrs_Nil: "ts_Streams t = [] \<Longrightarrow> addrs t = []"
  by (simp add: addrs_def)

lemma session_Close_inv:
  assumes inv: "core_inv s" and i: "i < length (sv_sessions s)"
  shows "\<exists>s' t'. session_Close i s = Some s' \<and> core_inv s' \<and> sv_tunnels s' = sv_tunnels s \<and> sv_sessions s' = (sv_sessions s)[i := t']"
proof (cases "ts_closed (sv_sessions s ! i)")
  case True
  then show ?thesis using inv by (auto simp: session_Close_def intro: exI [of _ "sv_sessions s ! i"])
next
  case False
  let ?t = "sv_sessions s ! i" and ?s1 = "upd_session i (\<lambda>t. t\<lparr>ts_closed := True\<rparr>) s"
  let ?t' = "?t\<lparr>ts_closed := True, ts_Streams := [], ts_conn_open := False\<rparr>"
  let ?s = "upd_session i (\<lambda>t. t\<lparr>ts_Streams := [], ts_conn_open := False\<rparr>) (mark_done (addrs ?t) ?s1)"
  have s1: "sv_streams ?s1 = sv_streams s" "sv_sessions ?s1 ! i = ?t\<lparr>ts_closed := True\<rparr>" using i by (simp_all add: upd_session_def)
  have s: "sv_sessions ?s = (sv_sessions s)[i := ?t']" "sv_streams ?s = sv_streams (mark_done (addrs ?t) s)" "sv_tunnels ?s = sv_tunnels s"
    using i by (simp_all add: upd_session_def mark_done_def)
  have "close_all (addrs ?t) ?s1 = Some (mark_done (addrs ?t) ?s1)"
    using core_addrs(1,4) [OF inv i] by (intro close_all_open) (simp_all add: s1)
  then have r: "session_Close i s = Some ?s" using False s1(2) by (simp add: session_Close_def Let_def addrs_def)
  have kp: "\<forall>b\<in>set (others i s). st_Done (sv_streams ?s ! b) = st_Done (sv_streams s ! b)"
  proof
    fix b assume b: "b \<in> set (others i s)"
    have na: "b \<notin> set (addrs ?t)" using b core_addrs(2) [OF inv i] by auto
    show "st_Done (sv_streams ?s ! b) = st_Done (sv_streams s ! b)"
      using mark_done_open [OF inv i disjI2 [OF b] na] s(2) by simp
  qed
  have "core_inv ?s"
    using mark_done_ok [OF inv, of "addrs ?t"]
    by (intro core_replace [OF inv i s(1) _ _ _ _ _ kp]) (simp_all only: s(2), simp_all add: addrs_Nil ids_ok_def)
  then show ?thesis using r s by blast
qed

lemma mgr_at:
  "mgr_inv s \<Longrightarrow> (n, i) \<in> set (sv_tunnels s) \<Longrightarrow>
    i < length (sv_sessions s) \<and> ts_NodeID (sv_sessions s ! i) = n \<and> \<not> ts_closed (sv_sessions s ! i)"
  by (auto simp: mgr_inv_def)

lemma Unregister_inv:
  assumes "tunnel_inv s"
  shows "\<exists>s'. Unregister n s = Some s' \<and> tunnel_inv s'"
proof (cases "gm_get (sv_tunnels s) n")
  case (Some i)
  note inv = assms [unfolded tunnel_inv_core]
  have m: "(n, i) \<in> set (sv_tunnels s)" using Some by (simp add: map_of_SomeD)
  have i: "i < length (sv_sessions s)" using inv m by (auto simp: mgr_inv_def)
  obtain s' t' where s': "session_Close i s = Some s'" "core_inv s'" "sv_tunnels s' = sv_tunnels s" "sv_sessions s' = (sv_sessions s)[i := t']"
    using session_Close_inv [OF conjunct1 [OF inv] i] by blast
  let ?s = "s'\<lparr>sv_tunnels := gm_del n (sv_tunnels s')\<rparr>"
  have "core_inv ?s" by (rule core_same [OF s'(2)]) simp_all
  moreover have "mgr_inv ?s"
  proof -
    have wf: "gm_wf (sv_tunnels s)" "distinct (map snd (sv_tunnels s))" using inv by (auto simp: mgr_inv_def)
    have "j < length (sv_sessions s') \<and> ts_NodeID (sv_sessions s' ! j) = k \<and> \<not> ts_closed (sv_sessions s' ! j)"
      if "(k, j) \<in> set (sv_tunnels s)" "k \<noteq> n" for k j
      using mgr_at [OF conjunct2 [OF inv] that(1)] mgr_at [OF conjunct2 [OF inv] m] that(2) s'(4)
      by (cases "j = i") auto
    then show ?thesis using wf s'(3) by (auto simp: mgr_inv_def gm_del_pairs distinct_snd_del)
  qed
  ultimately show ?thesis using Some s'(1) by (simp add: Unregister_def tunnel_inv_core)
qed (use assms in \<open>simp add: Unregister_def\<close>)

lemma close_sessions_inv:
  "\<lbrakk>core_inv s; \<forall>i\<in>set is. i < length (sv_sessions s)\<rbrakk> \<Longrightarrow> \<exists>s'. close_sessions is s = Some s' \<and> core_inv s'"
proof (induction "is" arbitrary: s)
  case (Cons i ms)
  then obtain s' t' where s': "session_Close i s = Some s'" "core_inv s'" "sv_sessions s' = (sv_sessions s)[i := t']"
    using session_Close_inv [of s i] by auto
  moreover have "\<exists>s''. close_sessions ms s' = Some s'' \<and> core_inv s''"
    using Cons s' by (intro Cons.IH) auto
  ultimately show ?case by simp
qed simp

lemma manager_Close_inv:
  assumes "tunnel_inv s"
  shows "\<exists>s'. manager_Close s = Some s' \<and> tunnel_inv s'"
proof -
  have "\<forall>i\<in>set (map snd (sv_tunnels s)). i < length (sv_sessions s)" using assms by (auto simp: tunnel_inv_def mgr_inv_def)
  then obtain s' where s': "close_sessions (map snd (sv_tunnels s)) s = Some s'" "core_inv s'"
    using close_sessions_inv [of s "map snd (sv_tunnels s)"] assms by (auto simp: tunnel_inv_core)
  have "core_inv (s'\<lparr>sv_tunnels := []\<rparr>)" by (rule core_same [OF s'(2)]) simp_all
  then show ?thesis using s'(1) by (simp add: manager_Close_def tunnel_inv_core mgr_inv_def)
qed

lemma tunnel_Register_inv:
  assumes inv: "tunnel_inv s" and t: "ts_Streams t = []" "\<not> ts_closed t"
  shows "tunnel_inv (fst (tunnel_Register t s))"
proof (cases "gm_get (sv_tunnels s) (ts_NodeID t)")
  case None
  let ?s = "s\<lparr>sv_sessions := sv_sessions s @ [t], sv_tunnels := gm_set (ts_NodeID t) (length (sv_sessions s)) (sv_tunnels s)\<rparr>"
  have "core_inv ?s" using inv t by (auto simp: tunnel_inv_core core_inv_def streams_inv_def listed_def addrs_def ids_ok_def)
  moreover have "mgr_inv ?s"
    using inv None t(2) by (auto simp: tunnel_inv_core mgr_inv_def gm_set_new gm_wf_def map_of_eq_None_iff nth_append)
  ultimately show ?thesis using None by (simp add: tunnel_Register_def Let_def tunnel_inv_core)
qed (use inv in \<open>simp add: tunnel_Register_def\<close>)

lemma tunnel_inv_step: "core_inv s' \<Longrightarrow> same_mgr s s' \<Longrightarrow> mgr_inv s \<Longrightarrow> tunnel_inv s'"
  by (simp add: tunnel_inv_core mgr_same)

lemma handshake_inv:
  assumes "tunnel_inv s"
  shows "tunnel_inv (fst (handshake auth mx tid remote r s))"
proof -
  have "tunnel_inv (send i m s')" if "tunnel_inv s'" for i m s'
    using that send_inv [of s'] by (auto simp: tunnel_inv_core intro: mgr_same)
  moreover have "tunnel_inv s'" if "tunnel_Register ((NewTunnelSession a b c)\<lparr>ts_ExternalAddr := d\<rparr>) s = (s', x)" for a b c d s' x
    using tunnel_Register_inv [OF assms, of "(NewTunnelSession a b c)\<lparr>ts_ExternalAddr := d\<rparr>"] that by (simp add: NewTunnelSession_def)
  ultimately show ?thesis using assms unfolding handshake_def
    by (auto simp: Let_def split: prod.splits sum.splits option.splits)
qed

fun good :: "tunnel_server blocking \<Rightarrow> bool" where
  "good Blocks = True"
| "good Panics = False"
| "good (Returns s) = tunnel_inv s"

lemma good_RemoveStream:
  assumes "tunnel_inv s" "i < length (sv_sessions s)"
  shows "\<exists>s'. RemoveStream i sid s = Some s' \<and> tunnel_inv s'"
  using RemoveStream_inv [of s i sid] assms by (auto simp: tunnel_inv_core intro: mgr_same)

lemma upd_stream_inv:
  assumes "tunnel_inv s" "a < length (sv_streams s)"
    "st_Done (f (sv_streams s ! a)) = st_Done (sv_streams s ! a)" "st_ID (f (sv_streams s ! a)) = st_ID (sv_streams s ! a)"
    "stream_ok (f (sv_streams s ! a))"
  shows "tunnel_inv (upd_stream a f s)"
proof -
  have "core_inv (upd_stream a f s)" using assms by (intro core_upd_stream) (simp_all add: tunnel_inv_core)
  then show ?thesis using assms(1) by (intro tunnel_inv_step [OF _ same_mgr_stream(1)]) (simp_all add: tunnel_inv_core)
qed

lemma take_response_inv:
  assumes inv: "tunnel_inv s" and a: "a < length (sv_streams s)" and r: "take_response a s = Some (m, s')"
  shows "tunnel_inv s'" "length (sv_sessions s') = length (sv_sessions s)"
proof -
  obtain ms where ms: "st_Response (sv_streams s ! a) = m # ms" "s' = upd_stream a (\<lambda>x. x\<lparr>st_Response := ms\<rparr>) s"
    using r by (auto simp: take_response_def split: list.splits)
  have "stream_ok (sv_streams s ! a)" using inv a by (simp add: tunnel_inv_core stream_ok_nth)
  then show "tunnel_inv s'" unfolding ms(2) using inv a ms(1) by (intro upd_stream_inv) (simp_all add: stream_ok_def)
  show "length (sv_sessions s') = length (sv_sessions s)" by (simp add: ms(2) upd_stream_def)
qed

lemma good_message:
  assumes inv: "tunnel_inv s" and i: "i < length (sv_sessions s)"
  shows "good (handle_message i m s)"
proof -
  have core: "core_inv s" using inv by (simp add: tunnel_inv_core)
  have snd: "tunnel_inv (send i x s)" for x
    using inv send_inv [of s] by (auto simp: tunnel_inv_core intro: mgr_same)
  have rm: "good (returns (RemoveStream i sid s))" for sid
    using good_RemoveStream [OF inv i, of sid] by auto
  have dl: "tunnel_inv (deliver a m s)"
    if g: "GetStream i (mh_StreamID (m_Header m)) s = Some a" and l: "length (st_Response (sv_streams s ! a)) < 1" for a
  proof -
    have mem: "(mh_StreamID (m_Header m), a) \<in> set (ts_Streams (sv_sessions s ! i))"
      using g by (simp add: GetStream_def map_of_SomeD)
    note x = ids_in [OF core nth_mem [OF i] mem]
    show ?thesis unfolding deliver_def
      using inv x l by (intro upd_stream_inv) (simp_all add: stream_ok_def)
  qed
  show ?thesis
    using inv snd rm dl by (auto simp: handle_message_def Let_def split: option.splits)
qed

lemma good_forward:
  assumes inv: "tunnel_inv s"
  shows "good (returns (map_option fst (forward_start n req body fail s)))"
proof (cases "tunnel_Get n s")
  case (Some i)
  have i: "i < length (sv_sessions s)"
    using inv Some map_of_SomeD [of "sv_tunnels s" n i] by (auto simp: tunnel_inv_core tunnel_Get_def dest: mgr_at)
  let ?n = "sv_nextID s + 1" and ?s0 = "s\<lparr>sv_nextID := sv_nextID s + 1\<rparr>"
  let ?sid = "ucast ?n :: 32 word"
  have c0: "core_inv ?s0" "same_mgr s ?s0" "i < length (sv_sessions ?s0)"
    using inv i core_same [of s ?s0] by (simp_all add: tunnel_inv_core same_mgr_def)
  note c1 = CreateStream_inv [OF c0(1,3), of ?sid]
  have f: "tunnel_inv (fold (send i) ms (fst (CreateStream i ?sid ?s0)))" "i < length (sv_sessions (fold (send i) ms (fst (CreateStream i ?sid ?s0))))" for ms
  proof -
    have c2: "core_inv (fold (send i) ms (fst (CreateStream i ?sid ?s0)))" "same_mgr s (fold (send i) ms (fst (CreateStream i ?sid ?s0)))"
      using fold_send_inv [OF c1(1)] same_mgr_trans [OF c0(2) same_mgr_trans [OF c1(2)]] by blast+
    then show "tunnel_inv (fold (send i) ms (fst (CreateStream i ?sid ?s0)))"
      using inv by (intro tunnel_inv_step [of _ s]) (simp_all add: tunnel_inv_core)
    show "i < length (sv_sessions (fold (send i) ms (fst (CreateStream i ?sid ?s0))))"
      using same_mgr_length [OF c2(2)] i by simp
  qed
  have r: "good (returns (map_option fst (map_option (\<lambda>s. (s, None)) (RemoveStream i ?sid (fold (send i) ms (fst (CreateStream i ?sid ?s0)))))))" for ms
    using good_RemoveStream [OF f, of ?sid ms] by auto
  obtain ms eof where b: "body_messages ?sid body = (ms, eof)" by fastforce
  obtain out ok where o: "(case fail of None \<Rightarrow> (NewControlMessage MsgTypeRequest ?sid req # ms, True)
      | Some k \<Rightarrow> (take k (NewControlMessage MsgTypeRequest ?sid req # ms), length (NewControlMessage MsgTypeRequest ?sid req # ms) \<le> k)) = (out, ok)"
    by fastforce
  obtain s1 a where cs: "CreateStream i ?sid ?s0 = (s1, a)" by fastforce
  show ?thesis
    using f [of out] r [of out] unfolding forward_start_def Some option.case Let_def cs b o prod.case fst_conv by auto
qed (use inv in \<open>simp add: forward_start_def\<close>)

lemma good_exec: "\<lbrakk>tunnel_inv s; op_ok s op\<rbrakk> \<Longrightarrow> good (tunnel_exec op s)"
proof (cases op)
  case (OpFinish i sid a t)
  assume inv: "tunnel_inv s" and ok: "op_ok s op"
  then have i: "i < length (sv_sessions s)" "a < length (sv_streams s)" using OpFinish by simp_all
  have rm: "good (map_blocking fst (returns (map_option (\<lambda>s. (s, x)) (RemoveStream i sid s'))))"
    if "tunnel_inv s'" "length (sv_sessions s') = length (sv_sessions s)" for s' and x :: "forward_error + http_response_header \<times> body_reader"
    using good_RemoveStream [of s' i sid] that i(1) by auto
  show ?thesis
    using rm [OF inv refl] rm take_response_inv [OF inv i(2)]
    by (auto simp: OpFinish forward_finish_def split: option.splits)
next
  case (OpDisconnect n)
  assume "tunnel_inv s"
  then show ?thesis using Unregister_inv [of s n] OpDisconnect by auto
next
  case (OpBody n c r)
  assume inv: "tunnel_inv s" and ok: "op_ok s op"
  then show ?thesis
    using take_response_inv(1) [OF inv, of "br_stream r"]
    by (auto simp: OpBody body_Read_def split: option.splits body_case.splits)
qed (auto simp: handshake_inv good_message good_forward dest: manager_Close_inv)

lemma reachable_inv: "tunnel_reachable s \<Longrightarrow> tunnel_inv s"
proof (induction rule: tunnel_reachable.induct)
  case start
  show ?case by (simp add: tunnel_inv_def NewServer_def streams_inv_def listed_def mgr_inv_def)
next
  case (step s op s')
  then show ?case using good_exec [of s op] by simp
qed

text \<open>C22: the tunnel server under every schedule of its goroutines.  No action closes a channel twice, so
  none panics; a session is found under the node that registered it and is open as long as it is found;
  and a response channel holds at most one message, which carries the identifier of its own stream: the
  answers to concurrent requests are never mixed up.\<close>

theorem tunnel_streams_safe:
  assumes "tunnel_reachable s" "op_ok s op"
  shows "tunnel_exec op s \<noteq> Panics \<and>
    (IsConnected n s \<longleftrightarrow> tunnel_Get n s \<noteq> None) \<and>
    (case tunnel_Get n s of None \<Rightarrow> True | Some i \<Rightarrow> ts_NodeID (sv_sessions s ! i) = n) \<and>
    list_all (\<lambda>x. length (st_Response x) \<le> 1 \<and> list_all (\<lambda>m. mh_StreamID (m_Header m) = st_ID x) (st_Response x)) (sv_streams s)"
proof -
  have inv: "tunnel_inv s" using assms(1) by (rule reachable_inv)
  have "tunnel_exec op s \<noteq> Panics" using good_exec [OF inv assms(2)] by auto
  moreover have "list_all (\<lambda>x. length (st_Response x) \<le> 1 \<and> list_all (\<lambda>m. mh_StreamID (m_Header m) = st_ID x) (st_Response x)) (sv_streams s)"
    using inv by (simp add: tunnel_inv_def stream_ok_def list_all_iff)
  moreover have "ts_NodeID (sv_sessions s ! i) = n \<and> \<not> ts_closed (sv_sessions s ! i)" if "tunnel_Get n s = Some i" for i
    using inv map_of_SomeD [of "sv_tunnels s" n i] that by (auto simp: tunnel_inv_core tunnel_Get_def dest: mgr_at)
  ultimately show ?thesis by (auto simp: IsConnected_def tunnel_Get_def split: option.splits)
qed

definition sample_registration :: "byte list" where
  "sample_registration = frame (NewControlMessage MsgTypeRegister 0 (register_json \<lparr>rp_NodeID = ''n1'', rp_NodeToken = ''t'', rp_ServiceAddr = ''a''\<rparr>))"

lemma sample_handshake:
  "\<exists>s'. handshake ''t'' 100 ''id'' ''r'' sample_registration NewServer = (s', Accepted 0 []) \<and> tunnel_Get ''n1'' s' = Some 0
    \<and> sv_streams s' = [] \<and> length (sv_sessions s') = 1"
proof -
  let ?p = "\<lparr>rp_NodeID = ''n1'', rp_NodeToken = ''t'', rp_ServiceAddr = ''a''\<rparr>"
  let ?m = "NewControlMessage MsgTypeRegister 0 (register_json ?p)"
  have "length (bytes_of (json_print (register_json ?p))) < 2 ^ 32"
    by (simp add: register_json_def bytes_of_def json_quote_def json_escape.simps utf8_len_def esc_ascii_def)
  then have "message_ok ?m" unfolding NewControlMessage_def by (rule NewMessage_ok)
  then have r: "ReadMessage (frame ?m) = ([], Inr ?m)" using ReadMessage_frame [of ?m "[]"] by simp
  have u: "read_register (m_Payload ?m) = Some ?p"
    by (rule read_register_print) (simp_all add: valid_utf8_ascii)
  have t: "mh_Type (m_Header ?m) = MsgTypeRegister" by (simp add: NewControlMessage_def NewMessage_def)
  show ?thesis
    unfolding sample_registration_def handshake_def r prod.case sum.case t u
    by (simp add: ActiveTunnels_def NewServer_def tunnel_Register_def Let_def NewTunnelSession_def tunnel_Get_def send_def upd_session_def)
qed

theorem tunnel_streams_safe_witness:
  "\<exists>s. tunnel_reachable s \<and> tunnel_Get ''n1'' s = Some 0 \<and> op_ok s (OpMessage 0 sample_message) \<and>
    tunnel_exec (OpMessage 0 sample_message) s \<noteq> Panics \<and> IsConnected ''n1'' s"
proof -
  obtain s' where h: "handshake ''t'' 100 ''id'' ''r'' sample_registration NewServer = (s', Accepted 0 [])"
    "tunnel_Get ''n1'' s' = Some 0" "length (sv_sessions s') = 1" using sample_handshake by blast
  have r: "tunnel_reachable s'"
    by (rule tunnel_reachable.step [OF tunnel_reachable.start, of "OpConnect ''t'' 100 ''id'' ''r'' sample_registration"]) (simp_all add: h)
  have ok: "op_ok s' (OpMessage 0 sample_message)" by (simp add: h)
  show ?thesis using tunnel_streams_safe [OF r ok, of "''n1''"] h r ok by auto
qed

end
