(* ===== verification/Edge_Fetch.thy ===== *)
theory Edge_Fetch
  imports Streaming_Keys Go_Binary
begin

text \<open>
  The origin fetcher of an edge, \<open>internal/edgeagent/fetcher.go\<close>: the circuit breaker, the fetch with its
  retries, and the deduplication of concurrent fetches of one object.  The clock and what the origin answers
  are arguments; the fetch also returns the requests it sent.  The origin's address is given parsed
  (\<open>url.Parse\<close>): what precedes the path, and the path; \<open>None\<close> when it does not parse.
\<close>

section \<open>The circuit breaker\<close>

text \<open>The states are 0 (closed), 1 (open) and 2 (half open).\<close>

record breaker =
  cb_state :: int
  cb_failures :: int
  cb_threshold :: int
  cb_recovery :: int
  cb_lastFailure :: int
  cb_successes :: int

definition newCircuitBreaker :: "int \<Rightarrow> int \<Rightarrow> breaker" where
  "newCircuitBreaker threshold recovery =
    \<lparr>cb_state = 0, cb_failures = 0, cb_threshold = threshold, cb_recovery = recovery, cb_lastFailure = 0, cb_successes = 0\<rparr>"

definition cb_Allow :: "int \<Rightarrow> breaker \<Rightarrow> breaker \<times> bool" where
  "cb_Allow now cb =
    (if cb_state cb = 0 then (cb, True)
     else if cb_state cb = 1 then
       (if now - cb_lastFailure cb \<ge> cb_recovery cb then (cb\<lparr>cb_state := 2, cb_successes := 0\<rparr>, True) else (cb, False))
     else (cb, True))"

definition RecordFailure :: "int \<Rightarrow> breaker \<Rightarrow> breaker" where
  "RecordFailure now cb =
    (let f = i32 (cb_failures cb + 1); cb = cb\<lparr>cb_failures := f, cb_lastFailure := now\<rparr> in
     if f \<ge> cb_threshold cb then cb\<lparr>cb_state := 1\<rparr> else cb)"

definition RecordSuccess :: "breaker \<Rightarrow> breaker" where
  "RecordSuccess cb =
    (if cb_state cb = 2 then
       (let n = i32 (cb_successes cb + 1); cb = cb\<lparr>cb_successes := n\<rparr> in
        if n \<ge> 3 then cb\<lparr>cb_state := 0, cb_failures := 0\<rparr> else cb)
     else if cb_state cb = 0 then cb\<lparr>cb_failures := 0\<rparr>
     else cb)"

section \<open>Addresses\<close>

definition sanitizeKey :: "string \<Rightarrow> string" where
  "sanitizeKey key =
    (let key = replace_char (CHR 0x5C) (CHR ''/'') (trim_space key)
     in join_with (CHR ''/'') (filter (\<lambda>p. \<not> bad_part p) (map trim_space (split_on (CHR ''/'') key))))"

lemma sanitizeKey_stream: "sanitizeKey = validateStreamKey"
  by (rule ext) (simp add: sanitizeKey_def validateStreamKey_def)

text \<open>\<open>path.Join\<close>: the components of a path, cleaned of empty ones, dots and what a double dot undoes; a path
  that starts at the root cannot leave it.\<close>

fun clean_parts :: "bool \<Rightarrow> string list \<Rightarrow> string list \<Rightarrow> string list" where
  "clean_parts rooted done [] = rev done"
| "clean_parts rooted done (p # ps) =
    (if p = [] \<or> p = ''.'' then clean_parts rooted done ps
     else if p = ''..'' then
       (case done of
          [] \<Rightarrow> clean_parts rooted (if rooted then [] else [''..'']) ps
        | q # qs \<Rightarrow> if q = ''..'' then clean_parts rooted (''..'' # done) ps else clean_parts rooted qs ps)
     else clean_parts rooted (p # done) ps)"

definition path_Join :: "string list \<Rightarrow> string" where
  "path_Join elems =
    (let es = filter (\<lambda>e. e \<noteq> []) elems; p = join_with (CHR ''/'') es; rooted = prefix ''/'' p;
         c = join_with (CHR ''/'') (clean_parts rooted [] (split_on (CHR ''/'') p))
     in if es = [] then [] else if rooted then CHR ''/'' # c else if c = [] then ''.'' else c)"

text \<open>The address as the request carries it: what precedes the path, and the path, which \<open>URL.String\<close> starts
  with a slash.\<close>

definition buildOriginURL :: "(string \<times> string) option \<Rightarrow> string \<Rightarrow> (string \<times> string) option" where
  "buildOriginURL origin key =
    map_option (\<lambda>(base, path). let p = path_Join [path, ''obj'', key] in (base, if prefix ''/'' p then p else CHR ''/'' # p)) origin"

definition validRangeHeader :: "string \<Rightarrow> bool" where
  "validRangeHeader rh \<longleftrightarrow> rh \<noteq> [] \<and> CHR 0x0A \<notin> set rh \<and> CHR 0x0D \<notin> set rh \<and> prefix ''bytes='' rh"

section \<open>Fetching\<close>

record fetch_result =
  fr_Body :: "byte list"
  fr_ContentLength :: int
  fr_ContentType :: string
  fr_ETag :: string
  fr_StatusCode :: int

datatype fetch_error = BreakerOpen | BadOrigin | BadRange | OriginUnreachable | OriginStatus int

record origin_request =
  or_url :: "string \<times> string"
  or_auth :: "string option"
  or_range :: "string option"

record fetcher =
  ft_originURL :: "(string \<times> string) option"
  ft_nodeToken :: string
  ft_cb :: breaker

text \<open>The clock at the admission and at the outcome of each attempt, and the outcome: \<open>None\<close> when the exchange
  fails.\<close>

record fetch_env =
  fe_now :: "nat \<Rightarrow> int"
  fe_after :: "nat \<Rightarrow> int"
  fe_do :: "nat \<Rightarrow> origin_request \<Rightarrow> fetch_result option"

definition origin_get :: "fetcher \<Rightarrow> string \<times> string \<Rightarrow> string \<Rightarrow> origin_request" where
  "origin_get f u rangeHeader =
    \<lparr>or_url = u, or_auth = (if ft_nodeToken f \<noteq> [] then Some (''Bearer '' @ ft_nodeToken f) else None),
     or_range = (if rangeHeader \<noteq> [] then Some rangeHeader else None)\<rparr>"

function executeFetchWithRetry ::
    "fetch_env \<Rightarrow> string \<Rightarrow> string \<Rightarrow> nat \<Rightarrow> fetcher \<Rightarrow> fetcher \<times> origin_request list \<times> (fetch_error + fetch_result)" where
  "executeFetchWithRetry env key rangeHeader retries f =
    (case cb_Allow (fe_now env retries) (ft_cb f) of
       (cb, False) \<Rightarrow> (f\<lparr>ft_cb := cb\<rparr>, [], Inl BreakerOpen)
     | (cb, True) \<Rightarrow>
        (let f = f\<lparr>ft_cb := cb\<rparr>; key = sanitizeKey key in
         case buildOriginURL (ft_originURL f) key of
           None \<Rightarrow> (f, [], Inl BadOrigin)
         | Some u \<Rightarrow>
            if rangeHeader \<noteq> [] \<and> \<not> validRangeHeader rangeHeader then (f, [], Inl BadRange)
            else
              (let req = origin_get f u rangeHeader in
               case fe_do env retries req of
                 None \<Rightarrow>
                   (let f = f\<lparr>ft_cb := RecordFailure (fe_after env retries) cb\<rparr> in
                    if retries < 2 then
                      (case executeFetchWithRetry env key rangeHeader (retries + 1) f of (f, sent, res) \<Rightarrow> (f, req # sent, res))
                    else (f, [req], Inl OriginUnreachable))
               | Some resp \<Rightarrow>
                   if fr_StatusCode resp \<ge> 400
                   then (f\<lparr>ft_cb := RecordFailure (fe_after env retries) cb\<rparr>, [req], Inl (OriginStatus (fr_StatusCode resp)))
                   else (f\<lparr>ft_cb := RecordSuccess cb\<rparr>, [req], Inr resp))))"
  by pat_completeness auto
termination
  by (relation "measure (\<lambda>(env, key, rangeHeader, retries, f). 2 - retries)") auto

declare executeFetchWithRetry.simps [simp del]

definition executeFetch :: "fetch_env \<Rightarrow> string \<Rightarrow> string \<Rightarrow> fetcher \<Rightarrow> fetcher \<times> origin_request list \<times> (fetch_error + fetch_result)" where
  "executeFetch env key rangeHeader f = executeFetchWithRetry env key rangeHeader 0 f"

text \<open>A peer that has the object is asked first; its answer is an argument.\<close>

definition FetchWithStrategy ::
    "bool \<Rightarrow> (string \<Rightarrow> (byte list \<times> int) option) option \<Rightarrow> fetch_env \<Rightarrow> string \<Rightarrow> string \<Rightarrow> fetcher \<Rightarrow>
     fetcher \<times> origin_request list \<times> (fetch_error + fetch_result)" where
  "FetchWithStrategy useP2P peer env key rangeHeader f =
    (case (if useP2P then (case peer of Some p \<Rightarrow> p key | None \<Rightarrow> None) else None) of
       Some (body, len) \<Rightarrow> (f, [], Inr \<lparr>fr_Body = body, fr_ContentLength = len, fr_ContentType = [], fr_ETag = [], fr_StatusCode = 200\<rparr>)
     | None \<Rightarrow> executeFetch env key rangeHeader f)"

section \<open>Deduplication\<close>

text \<open>
  Concurrent fetches of one object share an entry with two channels of one place each.  Every request runs
  \<open>doFetch\<close>; the relation steps through what it does between two points where another request can
  intervene: the lookup under the lock, the selection on the entry's channel, waiting for the result and for the
  error, fetching, the removal of the entry, and the two sends.  The result is \<open>None\<close> for a nil pointer, the
  error \<open>None\<close> for nil.
\<close>

datatype ('r, 'e) fetch_pc =
    Idle
  | Looked nat
  | Waiting nat
  | Received nat "'r option"
  | Fetching string nat
  | SendResult nat "'r option" "'e option"
  | SendError nat "'r option" "'e option"
  | Returned "'r option" "'e option"

record ('r, 'e) deduper =
  dd_pending :: "(string, nat) gomap"
  dd_next :: nat
  dd_resultCh :: "nat \<Rightarrow> 'r option option"
  dd_errCh :: "nat \<Rightarrow> 'e option option"
  dd_pc :: "nat \<Rightarrow> ('r, 'e) fetch_pc"

definition newDeduper :: "('r, 'e) deduper" where
  "newDeduper = \<lparr>dd_pending = [], dd_next = 0, dd_resultCh = (\<lambda>_. None), dd_errCh = (\<lambda>_. None), dd_pc = (\<lambda>_. Idle)\<rparr>"

abbreviation goto :: "nat \<Rightarrow> ('r, 'e) fetch_pc \<Rightarrow> ('r, 'e) deduper \<Rightarrow> ('r, 'e) deduper" where
  "goto i p s \<equiv> s\<lparr>dd_pc := (dd_pc s)(i := p)\<rparr>"

inductive dedup_step :: "('r, 'e) deduper \<Rightarrow> ('r, 'e) deduper \<Rightarrow> bool" where
  join: "\<lbrakk>dd_pc s i = Idle; gm_get (dd_pending s) key = Some e\<rbrakk> \<Longrightarrow> dedup_step s (goto i (Looked e) s)"
| lead: "\<lbrakk>dd_pc s i = Idle; gm_get (dd_pending s) key = None\<rbrakk> \<Longrightarrow>
    dedup_step s (goto i (Fetching key (dd_next s)) (s\<lparr>dd_pending := gm_set key (dd_next s) (dd_pending s), dd_next := Suc (dd_next s)\<rparr>))"
| taken: "\<lbrakk>dd_pc s i = Looked e; dd_resultCh s e = Some r\<rbrakk> \<Longrightarrow>
    dedup_step s (goto i (Returned None None) (s\<lparr>dd_resultCh := (dd_resultCh s)(e := None)\<rparr>))"
| cancelled_early: "dd_pc s i = Looked e \<Longrightarrow> dedup_step s (goto i (Returned None (Some x)) s)"
| wait: "\<lbrakk>dd_pc s i = Looked e; dd_resultCh s e = None\<rbrakk> \<Longrightarrow> dedup_step s (goto i (Waiting e) s)"
| recv: "\<lbrakk>dd_pc s i = Waiting e; dd_resultCh s e = Some r\<rbrakk> \<Longrightarrow>
    dedup_step s (goto i (Received e r) (s\<lparr>dd_resultCh := (dd_resultCh s)(e := None)\<rparr>))"
| cancelled: "dd_pc s i = Waiting e \<Longrightarrow> dedup_step s (goto i (Returned None (Some x)) s)"
| recv_err: "\<lbrakk>dd_pc s i = Received e r; dd_errCh s e = Some x\<rbrakk> \<Longrightarrow>
    dedup_step s (goto i (Returned r x) (s\<lparr>dd_errCh := (dd_errCh s)(e := None)\<rparr>))"
| fetched: "\<lbrakk>dd_pc s i = Fetching key e; gm_get (dd_pending s) key = Some e'\<rbrakk> \<Longrightarrow>
    dedup_step s (goto i (SendResult e' r x) (s\<lparr>dd_pending := gm_del key (dd_pending s)\<rparr>))"
| fetched_gone: "\<lbrakk>dd_pc s i = Fetching key e; gm_get (dd_pending s) key = None\<rbrakk> \<Longrightarrow> dedup_step s (goto i (Returned r x) s)"
| send: "\<lbrakk>dd_pc s i = SendResult e r x; dd_resultCh s e = None\<rbrakk> \<Longrightarrow>
    dedup_step s (goto i (SendError e r x) (s\<lparr>dd_resultCh := (dd_resultCh s)(e := Some r)\<rparr>))"
| send_err: "\<lbrakk>dd_pc s i = SendError e r x; dd_errCh s e = None\<rbrakk> \<Longrightarrow>
    dedup_step s (goto i (Returned r x) (s\<lparr>dd_errCh := (dd_errCh s)(e := Some x)\<rparr>))"

text \<open>Who fetches a key owns its entry; entries are numbered as they are made.\<close>

definition dedup_inv :: "('r, 'e) deduper \<Rightarrow> bool" where
  "dedup_inv s \<longleftrightarrow>
    (\<forall>i key e. dd_pc s i = Fetching key e \<longrightarrow> gm_get (dd_pending s) key = Some e) \<and>
    (\<forall>i j key e e'. dd_pc s i = Fetching key e \<and> dd_pc s j = Fetching key e' \<longrightarrow> i = j) \<and>
    (\<forall>key e. gm_get (dd_pending s) key = Some e \<longrightarrow> (\<exists>i. dd_pc s i = Fetching key e))"

lemma dedup_inv_new: "dedup_inv newDeduper"
  by (simp add: dedup_inv_def newDeduper_def)

lemma dedup_inv_move:
  assumes "dedup_inv s" "\<And>k e. p \<noteq> Fetching k e" "\<And>k e. dd_pc s i \<noteq> Fetching k e" "dd_pending t = dd_pending s" "dd_pc t = (dd_pc s)(i := p)"
  shows "dedup_inv t"
  using assms unfolding dedup_inv_def by (auto split: if_splits) metis

lemma dedup_step_inv: "dedup_step s t \<Longrightarrow> dedup_inv s \<Longrightarrow> dedup_inv t"
proof (induction rule: dedup_step.induct)
  case (lead s i key)
  then have no: "dd_pc s j \<noteq> Fetching key e" for j e by (auto simp: dedup_inv_def)
  show ?case using lead no unfolding dedup_inv_def by (auto split: if_splits) (metis fetch_pc.distinct(7))+
next
  case (fetched s i key e e')
  then have e: "e' = e" and only: "\<And>j k f. dd_pc s j = Fetching k f \<Longrightarrow> k = key \<Longrightarrow> j = i" by (auto simp: dedup_inv_def)
  show ?case using fetched only unfolding dedup_inv_def by (auto split: if_splits) (metis fetch_pc.inject(4))+
next
  case (fetched_gone s i key e)
  then show ?case by (auto simp: dedup_inv_def)
qed (erule dedup_inv_move; simp)+

inductive_set reachable_dedup :: "('r, 'e) deduper set" where
  start: "newDeduper \<in> reachable_dedup"
| step: "\<lbrakk>s \<in> reachable_dedup; dedup_step s t\<rbrakk> \<Longrightarrow> t \<in> reachable_dedup"

lemma reachable_dedup_inv: "s \<in> reachable_dedup \<Longrightarrow> dedup_inv s"
  by (induction rule: reachable_dedup.induct) (auto intro: dedup_inv_new dedup_step_inv)


definition first_leads :: "(nat, unit) deduper" where
  "first_leads = goto 0 (Fetching ''a'' 0) (newDeduper\<lparr>dd_pending := [(''a'', 0)], dd_next := 1\<rparr>)"

lemma first_leads_reachable: "first_leads \<in> reachable_dedup"
proof -
  have "dedup_step newDeduper first_leads"
    using dedup_step.lead [of newDeduper 0 "''a''"] by (simp add: newDeduper_def first_leads_def)
  then show ?thesis by (rule reachable_dedup.step [OF reachable_dedup.start])
qed


text \<open>A request that has found the entry just before the fetch ends takes the result from the channel and throws it
  away: it returns a nil result with a nil error although the fetch succeeded.\<close>

lemma dedup_loses_result:
  "\<exists>s \<in> reachable_dedup. dd_pc s 0 = Returned (Some 7) None \<and> dd_pc (s :: (nat, unit) deduper) 1 = Returned None None"
proof -
  let ?s1 = "goto 1 (Looked 0) first_leads"
  let ?s2 = "goto 0 (SendResult 0 (Some 7) None) (?s1\<lparr>dd_pending := []\<rparr>)"
  let ?s3 = "goto 0 (SendError 0 (Some 7) None) (?s2\<lparr>dd_resultCh := (dd_resultCh ?s2)(0 := Some (Some 7))\<rparr>)"
  let ?s4 = "goto 0 (Returned (Some 7) None) (?s3\<lparr>dd_errCh := (dd_errCh ?s3)(0 := Some None)\<rparr>)"
  let ?s5 = "goto 1 (Returned None None) (?s4\<lparr>dd_resultCh := (dd_resultCh ?s4)(0 := None)\<rparr>)"
  note go = reachable_dedup.step
  have 1: "dedup_step first_leads ?s1" by (rule dedup_step.join [of _ _ "''a''"]) (simp_all add: first_leads_def newDeduper_def)
  have 2: "dedup_step ?s1 ?s2"
    using dedup_step.fetched [of ?s1 0 "''a''" 0 0 "Some 7" None] by (simp add: first_leads_def newDeduper_def)
  have 3: "dedup_step ?s2 ?s3" by (rule dedup_step.send) (simp_all add: first_leads_def newDeduper_def)
  have 4: "dedup_step ?s3 ?s4" by (rule dedup_step.send_err) (simp_all add: first_leads_def newDeduper_def)
  have 5: "dedup_step ?s4 ?s5" by (rule dedup_step.taken [of _ _ _ "Some 7"]) simp_all
  have "?s5 \<in> reachable_dedup" by (rule go [OF go [OF go [OF go [OF go [OF first_leads_reachable 1] 2] 3] 4] 5])
  then show ?thesis by (rule bexI [rotated]) simp
qed

section \<open>A fetch ends\<close>

lemma sanitizeKey_idem: "sanitizeKey (sanitizeKey key) = sanitizeKey key"
  by (simp add: sanitizeKey_stream validateStreamKey_idem)

lemma origin_get_cb [simp]: "origin_get (f\<lparr>ft_cb := c\<rparr>) u h = origin_get f u h"
  by (simp add: origin_get_def)

lemma fetch_unfold:
  assumes "cb_Allow (fe_now env n) (ft_cb f) = (cb, ok)" "buildOriginURL (ft_originURL f) (sanitizeKey key) = Some u"
  shows "executeFetchWithRetry env key rh n f =
    (if \<not> ok then (f\<lparr>ft_cb := cb\<rparr>, [], Inl BreakerOpen)
     else if rh \<noteq> [] \<and> \<not> validRangeHeader rh then (f\<lparr>ft_cb := cb\<rparr>, [], Inl BadRange)
     else case fe_do env n (origin_get f u rh) of
       None \<Rightarrow>
         if n < 2 then
           (case executeFetchWithRetry env (sanitizeKey key) rh (n + 1) (f\<lparr>ft_cb := RecordFailure (fe_after env n) cb\<rparr>) of
              (f', sent, res) \<Rightarrow> (f', origin_get f u rh # sent, res))
         else (f\<lparr>ft_cb := RecordFailure (fe_after env n) cb\<rparr>, [origin_get f u rh], Inl OriginUnreachable)
     | Some resp \<Rightarrow>
         if fr_StatusCode resp \<ge> 400
         then (f\<lparr>ft_cb := RecordFailure (fe_after env n) cb\<rparr>, [origin_get f u rh], Inl (OriginStatus (fr_StatusCode resp)))
         else (f\<lparr>ft_cb := RecordSuccess cb\<rparr>, [origin_get f u rh], Inr resp))"
  using assms by (subst executeFetchWithRetry.simps)
    (cases ok; cases "fe_do env n (origin_get f u rh)"; cases "rh = []"; simp add: Let_def)

text \<open>The requests that attempts from the \<open>n\<close>-th on send, and where a result comes from.\<close>

definition attempts_ok :: "fetch_env \<Rightarrow> origin_request \<Rightarrow> nat \<Rightarrow> origin_request list \<Rightarrow> fetch_error + fetch_result \<Rightarrow> bool" where
  "attempts_ok env req n sent res \<longleftrightarrow>
    length sent \<le> 3 - n \<and> (\<forall>r\<in>set sent. r = req) \<and>
    (\<forall>resp. res = Inr resp \<longrightarrow> (\<exists>k\<le>2. n \<le> k \<and> length sent = k - n + 1 \<and> fe_do env k req = Some resp \<and> fr_StatusCode resp < 400 \<and>
      (\<forall>i. n \<le> i \<and> i < k \<longrightarrow> fe_do env i req = None)))"

lemma attempts_ok_error: "\<lbrakk>length sent \<le> 3 - n; \<forall>r\<in>set sent. r = req\<rbrakk> \<Longrightarrow> attempts_ok env req n sent (Inl e)"
  by (simp add: attempts_ok_def)

lemma attempts_ok_result: "\<lbrakk>n \<le> 2; fe_do env n req = Some resp; fr_StatusCode resp < 400\<rbrakk> \<Longrightarrow> attempts_ok env req n [req] (Inr resp)"
  by (auto simp: attempts_ok_def intro: exI [of _ n])

lemma attempts_ok_next:
  assumes "attempts_ok env req (Suc n) sent res" "fe_do env n req = None" "n < 2"
  shows "attempts_ok env req n (req # sent) res"
  unfolding attempts_ok_def
proof (intro conjI allI impI)
  fix resp
  assume "res = Inr resp"
  then obtain k where k: "k \<le> 2" "Suc n \<le> k" "length sent = k - Suc n + 1" "fe_do env k req = Some resp" "fr_StatusCode resp < 400"
    "\<forall>i. Suc n \<le> i \<and> i < k \<longrightarrow> fe_do env i req = None"
    using assms(1) by (auto simp: attempts_ok_def)
  have "\<forall>i. n \<le> i \<and> i < k \<longrightarrow> fe_do env i req = None" using k(6) assms(2) by (metis le_antisym not_less_eq_eq)
  with k show "\<exists>k\<le>2. n \<le> k \<and> length (req # sent) = k - n + 1 \<and> fe_do env k req = Some resp \<and> fr_StatusCode resp < 400 \<and>
      (\<forall>i. n \<le> i \<and> i < k \<longrightarrow> fe_do env i req = None)"
    by (intro exI [of _ k]) auto
qed (use assms in \<open>auto simp: attempts_ok_def\<close>)

lemma fetch_attempts:
  assumes "executeFetchWithRetry env key rh n f = (f', sent, res)" "n \<le> 2" "buildOriginURL (ft_originURL f) (sanitizeKey key) = Some u"
  shows "attempts_ok env (origin_get f u rh) n sent res"
  using assms
proof (induction "2 - n" arbitrary: n f key f' sent)
  case 0
  obtain cb ok where a: "cb_Allow (fe_now env n) (ft_cb f) = (cb, ok)" by fastforce
  from 0 have "n = 2" by simp
  then show ?case using fetch_unfold [OF a 0(4), of rh] 0(2)
    by (auto intro!: attempts_ok_error attempts_ok_result split: if_split_asm option.split_asm)
next
  case (Suc m)
  obtain cb ok where a: "cb_Allow (fe_now env n) (ft_cb f) = (cb, ok)" by fastforce
  let ?req = "origin_get f u rh" and ?f = "f\<lparr>ft_cb := RecordFailure (fe_after env n) cb\<rparr>"
  from Suc(2) have n: "n < 2" by simp
  show ?case
  proof (cases "ok \<and> (rh = [] \<or> validRangeHeader rh) \<and> fe_do env n ?req = None")
    case False
    then show ?thesis using fetch_unfold [OF a Suc(5), of rh] Suc(3) n
      by (auto intro!: attempts_ok_error attempts_ok_result split: if_split_asm option.split_asm)
  next
    case True
    obtain f2 sent2 where r: "executeFetchWithRetry env (sanitizeKey key) rh (n + 1) ?f = (f2, sent2, res)" "sent = ?req # sent2"
      using fetch_unfold [OF a Suc(5), of rh] Suc(3) n True by (auto split: prod.splits)
    have "attempts_ok env (origin_get ?f u rh) (n + 1) sent2 res"
      using Suc(1) [OF _ r(1)] Suc(2,5) n by (simp add: sanitizeKey_idem)
    then have "attempts_ok env ?req (Suc n) sent2 res" by simp
    then show ?thesis using attempts_ok_next True n r(2) by simp
  qed
qed

text \<open>C37: every fetch comes to an end after at most three requests, all of them the same request for the cleaned key.
  It succeeds with the answer to the last request it sent, the first that was answered at all, and only when
  that answer has a status below 400; every request before it failed to get an answer.\<close>

theorem fetch_terminates:
  assumes "buildOriginURL (ft_originURL f) (sanitizeKey key) = Some u"
  shows "\<exists>f' sent res. executeFetch env key rh f = (f', sent, res) \<and> length sent \<le> 3 \<and> (\<forall>r\<in>set sent. r = origin_get f u rh) \<and>
    (\<forall>resp. res = Inr resp \<longrightarrow> (\<exists>k\<le>2. length sent = k + 1 \<and> fe_do env k (origin_get f u rh) = Some resp \<and> fr_StatusCode resp < 400 \<and>
      (\<forall>i<k. fe_do env i (origin_get f u rh) = None)))"
proof -
  obtain f' sent res where e: "executeFetch env key rh f = (f', sent, res)" by (metis surj_pair)
  then have "attempts_ok env (origin_get f u rh) 0 sent res"
    using fetch_attempts [OF _ _ assms, of env rh 0 f' sent res] by (simp add: executeFetch_def)
  with e show ?thesis by (auto simp: attempts_ok_def)
qed

section \<open>The breaker spares a failing origin\<close>

datatype cb_event = Ask int | Fail int | Succ

fun cb_exec :: "cb_event \<Rightarrow> breaker \<Rightarrow> breaker" where
  "cb_exec (Ask now) cb = fst (cb_Allow now cb)"
| "cb_exec (Fail now) cb = RecordFailure now cb"
| "cb_exec Succ cb = RecordSuccess cb"

definition fail_event :: "cb_event \<Rightarrow> bool" where
  "fail_event ev \<longleftrightarrow> (case ev of Fail _ \<Rightarrow> True | _ \<Rightarrow> False)"

lemma cb_exec_settings: "cb_threshold (cb_exec ev cb) = cb_threshold cb" "cb_recovery (cb_exec ev cb) = cb_recovery cb"
  by (cases ev; simp add: cb_Allow_def RecordFailure_def RecordSuccess_def Let_def)+

lemma cb_run_settings: "cb_threshold (fold cb_exec evs cb) = cb_threshold cb \<and> cb_recovery (fold cb_exec evs cb) = cb_recovery cb"
  by (induction evs arbitrary: cb) (simp_all add: cb_exec_settings)

lemma cb_exec_failures:
  assumes "0 \<le> cb_failures cb" "cb_failures cb < 2 ^ 31 - 1"
  shows "0 \<le> cb_failures (cb_exec ev cb) \<and> cb_failures (cb_exec ev cb) \<le> cb_failures cb + 1 \<and>
    (ev \<noteq> Succ \<longrightarrow> cb_failures (cb_exec ev cb) = cb_failures cb + (if fail_event ev then 1 else 0))"
  using assms by (cases ev) (auto simp: cb_Allow_def RecordFailure_def RecordSuccess_def Let_def i32_def fail_event_def)

lemma cb_run_failures:
  assumes "0 \<le> cb_failures cb" "cb_failures cb + int (length evs) < 2 ^ 31"
  shows "0 \<le> cb_failures (fold cb_exec evs cb) \<and> cb_failures (fold cb_exec evs cb) \<le> cb_failures cb + int (length evs) \<and>
    (Succ \<notin> set evs \<longrightarrow> cb_failures (fold cb_exec evs cb) = cb_failures cb + int (length (filter fail_event evs)))"
  using assms
proof (induction evs arbitrary: cb)
  case (Cons ev evs)
  have f: "0 \<le> cb_failures (cb_exec ev cb)" "cb_failures (cb_exec ev cb) \<le> cb_failures cb + 1"
    "ev \<noteq> Succ \<Longrightarrow> cb_failures (cb_exec ev cb) = cb_failures cb + (if fail_event ev then 1 else 0)"
    using cb_exec_failures [of cb ev] Cons.prems by simp_all
  then have "cb_failures (cb_exec ev cb) + int (length evs) < 2 ^ 31" using Cons.prems(2) by simp
  note ih = Cons.IH [OF f(1) this]
  show ?case
  proof (intro conjI impI)
    assume "Succ \<notin> set (ev # evs)"
    then show "cb_failures (fold cb_exec (ev # evs) cb) = cb_failures cb + int (length (filter fail_event (ev # evs)))"
      using ih f(3) by (cases "ev = Succ") auto
  qed (use ih f in simp_all)
qed simp

text \<open>C38: the circuit breaker spares an origin that keeps failing.  Whatever happened before, once the last outcomes
  recorded are at least as many failures as the threshold, with no success among them, every fetch that starts
  before the recovery time has passed since the last of them is refused without a request; and the first one
  after it is admitted.  (In a run of less than two to the 31 events, so that the counter of failures does
  not wrap.)\<close>

theorem breaker_spares_origin:
  assumes "cb = fold cb_exec (before @ fails @ [Fail t]) (newCircuitBreaker threshold recovery)"
    and "Succ \<notin> set fails" "threshold \<le> int (length (filter fail_event fails)) + 1" "int (length before + length fails) + 1 < 2 ^ 31"
    and "ft_cb f = cb"
  shows "(fe_now env 0 < t + recovery \<longrightarrow> executeFetch env key rh f = (f, [], Inl BreakerOpen)) \<and>
    (\<forall>now\<ge>t + recovery. snd (cb_Allow now cb))"
proof -
  define b where "b = fold cb_exec before (newCircuitBreaker threshold recovery)"
  define c where "c = fold cb_exec fails b"
  have b: "0 \<le> cb_failures b" "cb_failures b \<le> int (length before)" "cb_threshold c = threshold" "cb_recovery c = recovery"
    using cb_run_failures [of "newCircuitBreaker threshold recovery" before] assms(4)
      cb_run_settings [of before "newCircuitBreaker threshold recovery"] cb_run_settings [of fails b]
    by (simp_all add: b_def c_def newCircuitBreaker_def)
  have "cb_failures c = cb_failures b + int (length (filter fail_event fails))"
    using cb_run_failures [of b fails] b(1,2) assms(2,4) by (simp add: c_def)
  moreover have "length (filter fail_event fails) \<le> length fails" by simp
  ultimately have c: "threshold \<le> cb_failures c + 1" "0 \<le> cb_failures c" "cb_failures c + 1 < 2 ^ 31" using b(1,2) assms(3,4) by linarith+
  have "cb = RecordFailure t c" by (simp add: assms(1) b_def c_def)
  then have s: "cb_state cb = 1" "cb_lastFailure cb = t" "cb_recovery cb = recovery"
    using c b(3,4) by (simp_all add: RecordFailure_def Let_def i32_def)
  then have "cb_Allow now cb = (cb, False)" if "now < t + recovery" for now using that by (simp add: cb_Allow_def)
  moreover have "snd (cb_Allow now cb)" if "t + recovery \<le> now" for now using that s by (simp add: cb_Allow_def)
  moreover have "f\<lparr>ft_cb := cb\<rparr> = f" using assms(5) by simp
  ultimately show ?thesis using assms(5) by (auto simp: executeFetch_def executeFetchWithRetry.simps)
qed

definition sample_fetcher :: "breaker \<Rightarrow> fetcher" where
  "sample_fetcher cb = \<lparr>ft_originURL = Some (''http://o'', ''/base''), ft_nodeToken = ''n'', ft_cb = cb\<rparr>"

definition sample_fetch_env :: "int \<Rightarrow> fetch_result option \<Rightarrow> fetch_env" where
  "sample_fetch_env now res = \<lparr>fe_now = (\<lambda>_. now), fe_after = (\<lambda>_. now), fe_do = (\<lambda>i _. if i = 0 then None else res)\<rparr>"

theorem breaker_spares_origin_witness:
  "let cb = fold cb_exec [Fail 1, Succ, Fail 2, Ask 3, Fail 4, Fail 5, Fail 6, Fail 7] (newCircuitBreaker 5 30)
   in executeFetch (sample_fetch_env 36 None) ''a'' [] (sample_fetcher cb) = (sample_fetcher cb, [], Inl BreakerOpen)"
proof -
  let ?cb = "fold cb_exec ([Fail 1, Succ] @ [Fail 2, Ask 3, Fail 4, Fail 5, Fail 6] @ [Fail 7]) (newCircuitBreaker 5 30)"
  have "ft_cb (sample_fetcher ?cb) = ?cb" by (simp add: sample_fetcher_def)
  from breaker_spares_origin [OF refl _ _ _ this, of "sample_fetch_env 36 None" "''a''" "[]"] show ?thesis
    by (simp add: fail_event_def sample_fetch_env_def)
qed

theorem fetch_terminates_witness:
  "\<exists>u f' sent res. buildOriginURL (ft_originURL (sample_fetcher (newCircuitBreaker 5 30))) (sanitizeKey ''../a'') = Some u \<and> u = (''http://o'', ''/base/obj/a'') \<and>
    executeFetch (sample_fetch_env 1 None) ''../a'' [] (sample_fetcher (newCircuitBreaker 5 30)) = (f', sent, res) \<and> length sent \<le> 3"
proof -
  have u: "buildOriginURL (ft_originURL (sample_fetcher (newCircuitBreaker 5 30))) (sanitizeKey ''../a'') = Some (''http://o'', ''/base/obj/a'')" by code_simp
  from fetch_terminates [OF u, of "sample_fetch_env 1 None" "[]"] u show ?thesis by blast
qed

end
