(* ===== verification/Edge_Server.thy ===== *)
theory Edge_Server
  imports Edge_Fetch Edge_Cache Token Go_Http Request_Json
begin

text \<open>
  The HTTP side of an edge, \<open>internal/edgeagent/server.go\<close>: objects served from the cache or the origin, ranges,
  and the internal endpoints that peers and the control plane use.  The name of a cache entry, the clock and the
  outcomes of the file system and of the network are arguments.  What a handler leaves to a goroutine (storing
  what was fetched, recording an access) is returned as a list of background steps.  Header values are compared as
  ASCII.  Not modelled: compression,
  the bandwidth meter, the export of the counters, and the body of the WebSocket, gRPC and streaming handlers, to
  which requests are handed over.
\<close>

section \<open>Requests\<close>

definition contains :: "string \<Rightarrow> string \<Rightarrow> bool" where
  "contains s sub \<longleftrightarrow> list_ex (prefix sub) (suffixes s)"

text \<open>\<open>net.SplitHostPort\<close>; \<open>None\<close> is the error.\<close>

definition SplitHostPort :: "string \<Rightarrow> (string \<times> string) option" where
  "SplitHostPort hp =
    (let i = last_index hp (CHR '':'') in
     if i < 0 then None
     else if prefix ''['' hp then
       (let e = index_byte hp (CHR '']'') in
        if e < 0 \<or> e + 1 \<noteq> i then None
        else
          (let host = take (nat e - 1) (drop 1 hp); port = drop (nat i + 1) hp in
           if CHR ''['' \<in> set (drop 1 hp) \<or> CHR '']'' \<in> set (drop (nat e + 1) hp) then None else Some (host, port)))
     else
       (let host = take (nat i) hp in
        if CHR '':'' \<in> set host \<or> CHR ''['' \<in> set hp \<or> CHR '']'' \<in> set hp then None else Some (host, drop (nat i + 1) hp)))"

definition extractClientIP :: "http_request \<Rightarrow> string" where
  "extractClientIP r =
    (let xff = header r ''X-Forwarded-For''; xri = header r ''X-Real-IP'' in
     if xff \<noteq> [] then
       (let idx = last_index xff (CHR '','') in if idx > 0 then trim_space (drop (nat idx + 1) xff) else trim_space xff)
     else if xri \<noteq> [] then trim_space xri
     else case SplitHostPort (rq_remote r) of None \<Rightarrow> rq_remote r | Some (host, _) \<Rightarrow> host)"

text \<open>The token of a request: a bearer token, else the parameter \<open>token\<close>.\<close>

definition object_token :: "http_request \<Rightarrow> string" where
  "object_token r =
    (let auth = header r ''Authorization'' in
     if auth \<noteq> [] \<and> prefix ''Bearer '' auth then trim_prefix ''Bearer '' auth else query_get r ''token'')"

definition object_key :: "string \<Rightarrow> http_request \<Rightarrow> string option" where
  "object_key base r =
    (let key = trim_space (trim_prefix base (rq_path r)) in
     if key = [] \<or> key = ''.'' \<or> contains key ''..'' then None else Some key)"

definition parseRangeHeader :: "string \<Rightarrow> int \<Rightarrow> (int \<times> int) option" where
  "parseRangeHeader rh contentLen =
    (if rh = [] \<or> \<not> prefix ''bytes='' rh then None
     else
       (let r = trim_prefix ''bytes='' rh; i = index_byte r (CHR ''-'') in
        if i < 0 then None
        else
          (let first = take (nat i) r; rest = drop (nat i + 1) r;
               bounds =
                 (if first = [] then
                    (case parse_int rest of None \<Rightarrow> None
                     | Some sfx \<Rightarrow> (let start = i64 (contentLen - sfx) in Some (if start < 0 then 0 else start, contentLen - 1)))
                  else case parse_int first of None \<Rightarrow> None
                    | Some start \<Rightarrow>
                        if rest = [] then Some (start, contentLen - 1)
                        else map_option (Pair start) (parse_int rest))
           in case bounds of None \<Rightarrow> None
              | Some (start, stop) \<Rightarrow>
                  if start < 0 \<or> start \<ge> contentLen \<or> stop < start then None
                  else Some (start, if stop \<ge> contentLen then contentLen - 1 else stop))))"

section \<open>Responses\<close>

text \<open>What a handler sets and writes; the server drops the body of the reply to a HEAD request.\<close>

record edge_response =
  er_status :: int
  er_type :: string
  er_length :: "int option"
  er_range :: "(int \<times> int \<times> int) option"
  er_etag :: string
  er_body :: "byte list"

definition http_Error :: "int \<Rightarrow> string \<Rightarrow> edge_response" where
  "http_Error status msg = \<lparr>er_status = status, er_type = ''text/plain; charset=utf-8'', er_length = None, er_range = None, er_etag = [],
     er_body = bytes_of (msg @ [CHR 0x0A])\<rparr>"

text \<open>\<open>Handed\<close>: the request goes on to the WebSocket or gRPC proxy or to the streaming handler.\<close>

datatype edge_outcome = Responded edge_response | Handed

datatype edge_later = PutLater string "byte list" | TouchLater string

record edge =
  ed_cache :: cache
  ed_fetcher :: fetcher
  ed_secret :: string
  ed_streaming :: bool
  ed_ws :: bool
  ed_grpc :: bool
  ed_requests :: int
  ed_cacheHits :: int
  ed_cacheMisses :: int
  ed_bytesSent :: int
  ed_errors :: int

text \<open>\<open>eh_cut\<close>: after how many bytes the transfer of a fetched body breaks off; \<open>None\<close> when it does not.\<close>

record edge_http_env =
  eh_now :: int
  eh_open :: bool
  eh_seek :: bool
  eh_fetch :: fetch_env
  eh_cut :: "nat option"
  eh_temp :: bool
  eh_reopen :: bool

record edge_turn =
  et_edge :: edge
  et_sent :: "origin_request list"
  et_later :: "edge_later list"
  et_out :: edge_outcome

definition received :: "nat option \<Rightarrow> byte list \<Rightarrow> byte list" where
  "received brk body = (case brk of None \<Rightarrow> body | Some k \<Rightarrow> take k body)"

definition fetched_head :: "fetch_result \<Rightarrow> edge_response" where
  "fetched_head fr = \<lparr>er_status = fr_StatusCode fr, er_type = (if fr_ContentType fr \<noteq> [] then fr_ContentType fr else ''application/octet-stream''),
     er_length = (if fr_ContentLength fr > 0 \<and> fr_StatusCode fr \<noteq> 206 then Some (fr_ContentLength fr) else None), er_range = None,
     er_etag = fr_ETag fr, er_body = []\<rparr>"

definition cached_head :: "int \<Rightarrow> edge_response" where
  "cached_head len = \<lparr>er_status = 200, er_type = ''application/octet-stream'', er_length = Some len, er_range = None, er_etag = [], er_body = []\<rparr>"

text \<open>The response and what was read of the body to write it.\<close>

definition serveFromFetchResult :: "string \<Rightarrow> nat option \<Rightarrow> fetch_result \<Rightarrow> edge_response \<times> byte list" where
  "serveFromFetchResult method brk fr =
    (let body = (if method = ''HEAD'' then [] else received brk (fr_Body fr)) in ((fetched_head fr)\<lparr>er_body := body\<rparr>, body))"

abbreviation add_sent :: "int \<Rightarrow> edge \<Rightarrow> edge" where
  "add_sent n e \<equiv> e\<lparr>ed_bytesSent := i64 (ed_bytesSent e + n)\<rparr>"

abbreviation add_error :: "edge \<Rightarrow> edge" where
  "add_error e \<equiv> e\<lparr>ed_errors := i64 (ed_errors e + 1)\<rparr>"

definition serveAndCacheLarge :: "edge_http_env \<Rightarrow> string \<Rightarrow> string \<Rightarrow> fetch_result \<Rightarrow> edge \<Rightarrow> edge \<times> edge_later list \<times> edge_response" where
  "serveAndCacheLarge env method key fr e =
    (let brk = eh_cut env in
     if \<not> eh_temp env then (e, [], fst (serveFromFetchResult method brk fr))
     else if method = ''HEAD'' then (e, [], fetched_head fr)
     else
       (let resp = (fetched_head fr)\<lparr>er_body := received brk (fr_Body fr)\<rparr> in
        if brk \<noteq> None then (add_error e, [], resp)
        else (add_sent (int (length (fr_Body fr))) e, if eh_reopen env then [PutLater key (fr_Body fr)] else [], resp)))"

definition serveRangeFromCache :: "bool \<Rightarrow> string \<Rightarrow> string \<Rightarrow> byte list \<Rightarrow> edge \<Rightarrow> edge \<times> edge_response" where
  "serveRangeFromCache seek_ok method rangeHeader data e =
    (let contentLen = int (length data) in
     case parseRangeHeader rangeHeader contentLen of
       None \<Rightarrow>
         (if method = ''HEAD'' then (e, cached_head contentLen)
          else (add_sent contentLen e, (cached_head contentLen)\<lparr>er_body := data\<rparr>))
     | Some (start, stop) \<Rightarrow>
         if \<not> seek_ok then (add_error e, http_Error 500 ''internal error'')
         else
         (let rangeLen = stop - start + 1;
              resp = \<lparr>er_status = 206, er_type = ''application/octet-stream'', er_length = Some rangeLen,
                er_range = Some (start, stop, contentLen), er_etag = [], er_body = []\<rparr>
          in if method = ''HEAD'' then (e, resp)
             else (add_sent rangeLen e, resp\<lparr>er_body := take (nat rangeLen) (drop (nat start) data)\<rparr>)))"

section \<open>Objects\<close>

definition IsWebSocket :: "edge \<Rightarrow> http_request \<Rightarrow> bool" where
  "IsWebSocket e r \<longleftrightarrow> ed_ws e \<and> to_lower (header r ''Upgrade'') = ''websocket'' \<and> contains (to_lower (header r ''Connection'')) ''upgrade''"

definition IsGRPC :: "edge \<Rightarrow> http_request \<Rightarrow> bool" where
  "IsGRPC e r \<longleftrightarrow> ed_grpc e \<and> prefix ''application/grpc'' (header r ''Content-Type'')"

definition refuse :: "edge \<Rightarrow> int \<Rightarrow> string \<Rightarrow> edge_turn" where
  "refuse e status msg = \<lparr>et_edge = add_error e, et_sent = [], et_later = [], et_out = Responded (http_Error status msg)\<rparr>"

text \<open>A cache miss, of a request that has to fetch itself: the origin is asked, and a full answer is stored in the background.\<close>

definition serve_miss :: "edge_http_env \<Rightarrow> string \<Rightarrow> string \<Rightarrow> string \<Rightarrow> edge \<Rightarrow> edge_turn" where
  "serve_miss env method rangeHeader key e =
    (let e = e\<lparr>ed_cacheMisses := i64 (ed_cacheMisses e + 1)\<rparr> in
     case executeFetch (eh_fetch env) key rangeHeader (ed_fetcher e) of
       (f, sent, Inl _) \<Rightarrow> (refuse (e\<lparr>ed_fetcher := f\<rparr>) 502 ''upstream error'')\<lparr>et_sent := sent\<rparr>
     | (f, sent, Inr fr) \<Rightarrow>
        (let e = e\<lparr>ed_fetcher := f\<rparr> in
         if rangeHeader = [] then
           (if fr_ContentLength fr > 10 * 1024 * 1024 \<or> fr_ContentLength fr < 0 then
              (case serveAndCacheLarge env method key fr e of (e, later, resp) \<Rightarrow> \<lparr>et_edge = e, et_sent = sent, et_later = later, et_out = Responded resp\<rparr>)
            else
              (case serveFromFetchResult method (eh_cut env) fr of (resp, buf) \<Rightarrow>
                \<lparr>et_edge = add_sent (int (length buf)) e, et_sent = sent, et_later = [PutLater key buf], et_out = Responded resp\<rparr>))
         else if fr_ContentLength fr > 0 then
           \<lparr>et_edge = add_sent (fr_ContentLength fr) e, et_sent = sent, et_later = [],
            et_out = Responded (fst (serveFromFetchResult method (eh_cut env) fr))\<rparr>
         else
           (let body = received (eh_cut env) (fr_Body fr) in
            \<lparr>et_edge = add_sent (int (length body)) e, et_sent = sent, et_later = [],
             et_out = Responded \<lparr>er_status = 200, er_type = [], er_length = None, er_range = None, er_etag = [], er_body = body\<rparr>\<rparr>)))"

definition serve_hit :: "bool \<Rightarrow> string \<Rightarrow> string \<Rightarrow> string \<Rightarrow> byte list \<Rightarrow> edge \<Rightarrow> edge_turn" where
  "serve_hit seek_ok method rangeHeader key data e =
    (let e = e\<lparr>ed_cacheHits := i64 (ed_cacheHits e + 1)\<rparr>; len = int (length data) in
     case (if rangeHeader \<noteq> [] then serveRangeFromCache seek_ok method rangeHeader data e
           else if method = ''HEAD'' then (e, cached_head len)
           else (add_sent len e, (cached_head len)\<lparr>er_body := data\<rparr>)) of
       (e, resp) \<Rightarrow> \<lparr>et_edge = e, et_sent = [], et_later = [TouchLater key], et_out = Responded resp\<rparr>)"

definition handleObject :: "(string \<Rightarrow> string) \<Rightarrow> edge_http_env \<Rightarrow> http_request \<Rightarrow> edge \<Rightarrow> edge_turn" where
  "handleObject name env r e =
    (let e = e\<lparr>ed_requests := i64 (ed_requests e + 1)\<rparr>; token = object_token r in
     if rq_method r \<noteq> ''GET'' \<and> rq_method r \<noteq> ''HEAD'' then refuse e 405 ''method not allowed''
     else if token = [] then refuse e 401 ''unauthorized''
     else case VerifyWithIP (ed_secret e) (eh_now env) token (extractClientIP r) of
       Inl _ \<Rightarrow> refuse e 403 ''forbidden''
     | Inr _ \<Rightarrow>
        (case object_key ''/obj/'' r of
           None \<Rightarrow> refuse e 400 ''invalid key''
         | Some key \<Rightarrow>
            if IsWebSocket e r \<or> IsGRPC e r \<or> ed_streaming e \<and> IsStreamingRequest key
            then \<lparr>et_edge = e, et_sent = [], et_later = [], et_out = Handed\<rparr>
            else case cache_Get name (eh_open env) key (ed_cache e) of
              (Inl _, c) \<Rightarrow> serve_miss env (rq_method r) (header r ''Range'') key (e\<lparr>ed_cache := c\<rparr>)
            | (Inr data, c) \<Rightarrow> serve_hit (eh_seek env) (rq_method r) (header r ''Range'') key data (e\<lparr>ed_cache := c\<rparr>)))"

text \<open>The background steps of a request.\<close>

fun edge_later_run :: "(string \<Rightarrow> string) \<Rightarrow> fs_outcome \<Rightarrow> (string \<Rightarrow> bool) \<Rightarrow> int \<Rightarrow> edge_later \<Rightarrow> edge \<Rightarrow> edge" where
  "edge_later_run name fs rm_ok now (PutLater key data) e = e\<lparr>ed_cache := snd (cache_Put name fs rm_ok now key data (ed_cache e))\<rparr>"
| "edge_later_run name fs rm_ok now (TouchLater key) e = e\<lparr>ed_cache := cache_touch name now key (ed_cache e)\<rparr>"

section \<open>Internal endpoints\<close>

definition handleP2PFetch :: "(string \<Rightarrow> string) \<Rightarrow> bool \<Rightarrow> http_request \<Rightarrow> edge \<Rightarrow> edge \<times> edge_response" where
  "handleP2PFetch name open_ok r e =
    (case object_key ''/internal/p2p/obj/'' r of
       None \<Rightarrow> (e, http_Error 400 ''invalid key'')
     | Some key \<Rightarrow>
        (case cache_Get name open_ok key (ed_cache e) of
           (Inl _, c) \<Rightarrow> (e\<lparr>ed_cache := c\<rparr>, http_Error 404 ''content not found'')
         | (Inr data, c) \<Rightarrow> (e\<lparr>ed_cache := c\<rparr>, (cached_head (int (length data)))\<lparr>er_body := (if rq_method r = ''HEAD'' then [] else data)\<rparr>)))"

definition keys_field :: "string list \<Rightarrow> string \<Rightarrow> json \<Rightarrow> string list \<times> bool" where
  "keys_field ks k v = (if field_is ''keys'' k then strs_field (\<lambda>x. x) ks ks v else (ks, True))"

definition push_keys :: "http_request \<Rightarrow> edge_response + string list" where
  "push_keys r =
    (if rq_method r \<noteq> ''POST'' then Inl (http_Error 405 ''method not allowed'')
     else case (case first_value (length (rq_body r)) (rq_body r) of None \<Rightarrow> None | Some (v, _) \<Rightarrow> read_value keys_field [] v) of
       None \<Rightarrow> Inl (http_Error 400 ''invalid request'')
     | Some ks \<Rightarrow> if ks = [] then Inl (http_Error 400 ''invalid request'') else Inr ks)"

text \<open>The results of a push: for every key its status and, for a stored object, its size.\<close>

definition handlePurge :: "(string \<Rightarrow> string) \<Rightarrow> (string \<Rightarrow> bool) \<Rightarrow> http_request \<Rightarrow> edge \<Rightarrow> edge \<times> (edge_response + int \<times> (string \<times> string) list)" where
  "handlePurge name rm_ok r e =
    (case push_keys r of
       Inl resp \<Rightarrow> (e, Inl resp)
     | Inr ks \<Rightarrow>
        (case DeleteKeys name rm_ok ks (ed_cache e) of (res, c) \<Rightarrow>
          (e\<lparr>ed_cache := c\<rparr>, Inr (int (length ks), map (\<lambda>(k, err). (k, if err = None then ''purged'' else ''failed'')) res))))"

record push_env =
  pe_fetch :: fetch_env
  pe_cut :: "nat option"
  pe_fs :: fs_outcome
  pe_rm :: "string \<Rightarrow> bool"
  pe_now :: int

fun prewarm_keys :: "(string \<Rightarrow> string) \<Rightarrow> (nat \<Rightarrow> push_env) \<Rightarrow> nat \<Rightarrow> string list \<Rightarrow> edge \<Rightarrow> edge \<times> (string \<times> string \<times> int) list" where
  "prewarm_keys name env i [] e = (e, [])"
| "prewarm_keys name env i (key # ks) e =
    (let (e, r) =
       (case executeFetch (pe_fetch (env i)) key [] (ed_fetcher e) of
          (f, _, Inl _) \<Rightarrow> (e\<lparr>ed_fetcher := f\<rparr>, (key, ''failed'', 0))
        | (f, _, Inr fr) \<Rightarrow>
           (let e = e\<lparr>ed_fetcher := f\<rparr> in
            if pe_cut (env i) \<noteq> None then (e, (key, ''failed'', 0))
            else case cache_Put name (pe_fs (env i)) (pe_rm (env i)) (pe_now (env i)) key (fr_Body fr) (ed_cache e) of
              (err, c) \<Rightarrow> (e\<lparr>ed_cache := c\<rparr>, (key, if err = None then ''cached'' else ''cached_partial'', int (length (fr_Body fr))))));
         (e, rs) = prewarm_keys name env (Suc i) ks e
     in (e, r # rs))"

definition edge_Prewarm :: "(string \<Rightarrow> string) \<Rightarrow> (nat \<Rightarrow> push_env) \<Rightarrow> http_request \<Rightarrow> edge \<Rightarrow> edge \<times> (edge_response + int \<times> (string \<times> string \<times> int) list)" where
  "edge_Prewarm name env r e =
    (case push_keys r of
       Inl resp \<Rightarrow> (e, Inl resp)
     | Inr ks \<Rightarrow> (case prewarm_keys name env 0 ks e of (e, rs) \<Rightarrow> (e, Inr (int (length ks), rs))))"

section \<open>No object without a token\<close>

text \<open>
  C6: an object request is served only on a valid dispatch token.  Either the token of the request verifies under
  the secret of the edge for the client's address, or the reply is 401, 403 or 405 and nothing else happens: the
  cache and the fetcher are as before, the origin is not contacted and no background step is left.
\<close>

theorem edge_requires_token:
  "(\<exists>p. VerifyWithIP (ed_secret e) (eh_now env) (object_token r) (extractClientIP r) = Inr p) \<or>
   (let t = handleObject name env r e in
     (\<exists>resp. et_out t = Responded resp \<and> er_status resp \<in> {401, 403, 405}) \<and> et_sent t = [] \<and> et_later t = [] \<and>
     ed_cache (et_edge t) = ed_cache e \<and> ed_fetcher (et_edge t) = ed_fetcher e)"
  by (cases "VerifyWithIP (ed_secret e) (eh_now env) (object_token r) (extractClientIP r)")
    (auto simp: handleObject_def Let_def refuse_def http_Error_def)

section \<open>Ranges\<close>

lemma parseRangeHeader_sound:
  "parseRangeHeader rh len = Some (a, b) \<Longrightarrow> 0 \<le> a \<and> a \<le> b \<and> b < len"
  by (auto simp: parseRangeHeader_def Let_def split: if_split_asm option.splits)

definition bytes_range :: "nat \<Rightarrow> nat \<Rightarrow> string" where
  "bytes_range a b = ''bytes='' @ dec_nat a @ ''-'' @ dec_nat b"

lemma dec_nat_no_minus: "CHR ''-'' \<notin> set (dec_nat n)"
  using dec_nat_digits [of n] by (auto simp: list_all_iff is_digit_def)

lemma parse_int_dec: "is_i64 (int n) \<Longrightarrow> parse_int (dec_nat n) = Some (int n)"
  using parse_format_int [of "int n"] by (simp add: format_int_def)

definition range_bounds :: "string \<Rightarrow> string \<Rightarrow> int \<Rightarrow> (int \<times> int) option" where
  "range_bounds first rest len =
    (if first = [] then map_option (\<lambda>sfx. (max 0 (i64 (len - sfx)), len - 1)) (parse_int rest)
     else case parse_int first of None \<Rightarrow> None
       | Some a \<Rightarrow> if rest = [] then Some (a, len - 1) else map_option (Pair a) (parse_int rest))"

lemma parseRangeHeader_split:
  assumes "CHR ''-'' \<notin> set first"
  shows "parseRangeHeader (''bytes='' @ first @ CHR ''-'' # rest) len =
    (case range_bounds first rest len of None \<Rightarrow> None
     | Some (a, b) \<Rightarrow> if a < 0 \<or> a \<ge> len \<or> b < a then None else Some (a, min b (len - 1)))"
proof -
  let ?r = "first @ CHR ''-'' # rest"
  have tp: "prefix ''bytes='' (''bytes='' @ ?r)" "trim_prefix ''bytes='' (''bytes='' @ ?r) = ?r" by (simp_all add: trim_prefix_def)
  show ?thesis
    unfolding parseRangeHeader_def tp Let_def index_byte_append [OF assms] range_bounds_def
    by (auto simp: min_def max_def Let_def split: option.splits)
qed

lemma parseRangeHeader_forms:
  assumes i64s: "is_i64 (int a)" "is_i64 (int b)"
  shows "parseRangeHeader (bytes_range a b) (int n) = (if a < n \<and> a \<le> b then Some (int a, int (min b (n - 1))) else None)"
    and "parseRangeHeader (''bytes='' @ dec_nat a @ ''-'') (int n) = (if a < n then Some (int a, int (n - 1)) else None)"
    and "is_i64 (int n) \<Longrightarrow> parseRangeHeader (''bytes=-'' @ dec_nat b) (int n) = (if 0 < b \<and> 0 < n then Some (int (n - b), int (n - 1)) else None)"
proof -
  note split = parseRangeHeader_split [OF dec_nat_no_minus, of a]
  show "parseRangeHeader (bytes_range a b) (int n) = (if a < n \<and> a \<le> b then Some (int a, int (min b (n - 1))) else None)"
    using split [of "dec_nat b" "int n"] i64s by (auto simp: bytes_range_def range_bounds_def parse_int_dec of_nat_diff)
  show "parseRangeHeader (''bytes='' @ dec_nat a @ ''-'') (int n) = (if a < n then Some (int a, int (n - 1)) else None)"
    using split [of "[]" "int n"] i64s by (auto simp: range_bounds_def parse_int_dec of_nat_diff)
  show "parseRangeHeader (''bytes=-'' @ dec_nat b) (int n) = (if 0 < b \<and> 0 < n then Some (int (n - b), int (n - 1)) else None)"
    if "is_i64 (int n)"
  proof -
    have "i64 (int n - int b) = int n - int b" "i64 (int n) = int n"
      using that i64s by (intro i64_id; simp add: is_i64_def)+
    then show ?thesis
      using parseRangeHeader_split [of "[]" "dec_nat b" "int n"] i64s by (auto simp: range_bounds_def parse_int_dec of_nat_diff max_def)
  qed
qed

text \<open>The requests for an object that get past the checks of \<open>handleObject\<close> and are not handed over.\<close>

definition edge_admits :: "edge_http_env \<Rightarrow> http_request \<Rightarrow> edge \<Rightarrow> string \<Rightarrow> bool" where
  "edge_admits env r e key \<longleftrightarrow>
    rq_method r \<in> {''GET'', ''HEAD''} \<and> object_token r \<noteq> [] \<and>
    (\<exists>p. VerifyWithIP (ed_secret e) (eh_now env) (object_token r) (extractClientIP r) = Inr p) \<and>
    object_key ''/obj/'' r = Some key \<and> \<not> IsWebSocket e r \<and> \<not> IsGRPC e r \<and> \<not> (ed_streaming e \<and> IsStreamingRequest key)"

lemma edge_admitted:
  assumes "edge_admits env r e key"
  shows "handleObject name env r e =
    (case cache_Get name (eh_open env) key (ed_cache e) of
       (Inl _, c) \<Rightarrow> serve_miss env (rq_method r) (header r ''Range'') key (e\<lparr>ed_requests := i64 (ed_requests e + 1), ed_cache := c\<rparr>)
     | (Inr data, c) \<Rightarrow> serve_hit (eh_seek env) (rq_method r) (header r ''Range'') key data
         (e\<lparr>ed_requests := i64 (ed_requests e + 1), ed_cache := c\<rparr>))"
proof -
  have "IsWebSocket (e\<lparr>ed_requests := n\<rparr>) r = IsWebSocket e r" "IsGRPC (e\<lparr>ed_requests := n\<rparr>) r = IsGRPC e r" for n
    by (simp_all add: IsWebSocket_def IsGRPC_def)
  with assms show ?thesis by (auto simp: edge_admits_def handleObject_def Let_def)
qed

lemma edge_hit:
  assumes "edge_admits env r e key" "entry_content (ed_cache e) (name key) = Some data" "eh_open env"
  obtains e' where "handleObject name env r e = serve_hit (eh_seek env) (rq_method r) (header r ''Range'') key data e'"
  using assms by (simp add: edge_admitted cache_Get_def)

lemma serve_hit_out:
  "et_sent (serve_hit seek_ok method rangeHeader key data e) = []"
  "rangeHeader = [] \<Longrightarrow> et_out (serve_hit seek_ok method rangeHeader key data e) =
    Responded ((cached_head (int (length data)))\<lparr>er_body := (if method = ''HEAD'' then [] else data)\<rparr>)"
  "rangeHeader \<noteq> [] \<Longrightarrow> et_out (serve_hit True ''GET'' rangeHeader key data e) =
    Responded (case parseRangeHeader rangeHeader (int (length data)) of
        None \<Rightarrow> (cached_head (int (length data)))\<lparr>er_body := data\<rparr>
      | Some (a, b) \<Rightarrow> \<lparr>er_status = 206, er_type = ''application/octet-stream'', er_length = Some (b - a + 1),
          er_range = Some (a, b, int (length data)), er_etag = [], er_body = take (nat (b - a + 1)) (drop (nat a) data)\<rparr>)"
  by (auto simp: serve_hit_def serveRangeFromCache_def cached_head_def Let_def split: option.splits)

text \<open>
  C8: a cached object is served exactly.  The reply to a GET has the whole object with status 200, or with status
  206 the bytes that its \<open>Content-Range\<close> names, which lie inside the object; the announced length is that of the
  body; the origin is not contacted.  A request for the bytes \<open>a\<close> to \<open>b\<close> gets those bytes, as many as there are.
\<close>

theorem edge_serves_range:
  assumes adm: "edge_admits env r e key" and get: "rq_method r = ''GET''"
    and data: "entry_content (ed_cache e) (name key) = Some data" and ok: "eh_open env" "eh_seek env"
  shows "\<exists>resp. et_out (handleObject name env r e) = Responded resp \<and> et_sent (handleObject name env r e) = [] \<and>
    er_length resp = Some (int (length (er_body resp))) \<and>
    (er_status resp = 200 \<and> er_body resp = data \<or>
     er_status resp = 206 \<and> (\<exists>a b. er_range resp = Some (a, b, int (length data)) \<and> 0 \<le> a \<and> a \<le> b \<and> b < int (length data) \<and>
       er_body resp = take (nat (b - a + 1)) (drop (nat a) data))) \<and>
    (\<forall>a b. header r ''Range'' = bytes_range a b \<and> a < length data \<and> a \<le> b \<and> is_i64 (int b) \<longrightarrow>
       er_status resp = 206 \<and> er_body resp = take (b + 1 - a) (drop a data))"
proof -
  obtain e' where h: "handleObject name env r e = serve_hit True ''GET'' (header r ''Range'') key data e'"
    using edge_hit [of env r e key name data, OF adm data ok(1)] get ok(2) by metis
  show ?thesis
  proof (cases "parseRangeHeader (header r ''Range'') (int (length data))")
    case None
    have "\<not> (header r ''Range'' = bytes_range a b \<and> a < length data \<and> a \<le> b \<and> is_i64 (int b))" for a b
      using None parseRangeHeader_forms(1) [of a b "length data"] by (auto simp: is_i64_def)
    moreover have "et_out (serve_hit True ''GET'' (header r ''Range'') key data e') = Responded ((cached_head (int (length data)))\<lparr>er_body := data\<rparr>)"
      using None serve_hit_out(2, 3) [where rangeHeader = "header r ''Range''"] by (cases "header r ''Range'' = []") auto
    ultimately show ?thesis unfolding h by (auto simp: serve_hit_out(1) cached_head_def)
  next
    case (Some ab)
    obtain a b where ab: "parseRangeHeader (header r ''Range'') (int (length data)) = Some (a, b)" using Some by (cases ab) simp
    note bounds = parseRangeHeader_sound [OF ab]
    have ne: "header r ''Range'' \<noteq> []" using ab by (auto simp: parseRangeHeader_def)
    have len: "int (length (take (nat (b - a + 1)) (drop (nat a) data))) = b - a + 1" using bounds by (simp add: min_def) linarith
    have span: "nat (int y - int x + 1) = y + 1 - x" if "x \<le> y" for x y using that by linarith
    have "take (nat (b - a + 1)) (drop (nat a) data) = take (y + 1 - x) (drop x data)"
      if "header r ''Range'' = bytes_range x y" "x < length data" "x \<le> y" "is_i64 (int y)" for x y
      using that ab parseRangeHeader_forms(1) [of x y "length data"] by (auto simp: is_i64_def min_def span split: if_split_asm)
    then show ?thesis unfolding h serve_hit_out(3) [OF ne] ab using bounds len by (auto simp: serve_hit_out(1))
  qed
qed

text \<open>A request for \<open>k\<close> with a token that \<open>Sign\<close> made, and the edge it goes to.\<close>

definition sample_object_request :: "string \<Rightarrow> (string, string) gomap \<Rightarrow> http_request" where
  "sample_object_request method hs = \<lparr>rq_method = method, rq_path = ''/obj/k'', rq_query = [],
     rq_headers = (''authorization'', ''Bearer '' @ Sign ''s'' 10 \<lparr>tp_Key = ''k'', tp_Exp = 50, tp_IPPrefix = []\<rparr>) # hs,
     rq_remote = ''10.0.0.7:55'', rq_body = []\<rparr>"

definition sample_edge :: edge where
  "sample_edge = \<lparr>ed_cache = sample_cache, ed_fetcher = sample_fetcher (newCircuitBreaker 5 30), ed_secret = ''s'', ed_streaming = True, ed_ws = True,
     ed_grpc = True, ed_requests = 0, ed_cacheHits = 0, ed_cacheMisses = 0, ed_bytesSent = 0, ed_errors = 0\<rparr>"

definition sample_http_env :: edge_http_env where
  "sample_http_env = \<lparr>eh_now = 20, eh_open = True, eh_seek = True,
     eh_fetch = sample_fetch_env 1 (Some \<lparr>fr_Body = [7, 8], fr_ContentLength = 2, fr_ContentType = [], fr_ETag = [], fr_StatusCode = 200\<rparr>),
     eh_cut = None, eh_temp = True, eh_reopen = True\<rparr>"

lemma edge_lower_names:
  "to_lower ''Authorization'' = ''authorization''" "to_lower ''Range'' = ''range''" "to_lower ''Upgrade'' = ''upgrade''"
  "to_lower ''Content-Type'' = ''content-type''"
  by code_simp+

lemma sample_request_headers:
  "header (sample_object_request method [(''range'', v)]) ''Range'' = v"
  "header (sample_object_request method []) ''Range'' = []"
  "rq_method (sample_object_request method hs) = method"
  by (simp_all add: header_def sample_object_request_def edge_lower_names)

lemma sample_request_admitted:
  assumes "method \<in> {''GET'', ''HEAD''}" "hs = [] \<or> hs = [(''range'', v)]"
  shows "edge_admits sample_http_env (sample_object_request method hs) sample_edge ''k''"
proof -
  let ?p = "\<lparr>tp_Key = ''k'', tp_Exp = 50, tp_IPPrefix = []\<rparr>" and ?r = "sample_object_request method hs"
  have h: "header ?r ''Upgrade'' = []" "header ?r ''Content-Type'' = []"
    "header ?r ''Authorization'' = ''Bearer '' @ Sign ''s'' 10 ?p"
    using assms(2) by (auto simp: header_def sample_object_request_def edge_lower_names)
  have tok: "object_token ?r = Sign ''s'' 10 ?p" by (simp add: object_token_def h trim_prefix_def)
  have "payload_ok ?p" by (simp add: payload_ok_def valid_utf8_ascii is_i64_def)
  then have "Verify ''s'' 20 (Sign ''s'' 10 ?p) = Inr ?p" by (simp add: Verify_Sign)
  then have "VerifyWithIP ''s'' 20 (Sign ''s'' 10 ?p) ip = Inr ?p" for ip by (simp add: VerifyWithIP_def MatchesIP_def)
  moreover have "Sign ''s'' 10 ?p \<noteq> []" by (simp add: Sign_def Let_def)
  moreover have "object_key ''/obj/'' ?r = Some ''k''"
  proof -
    have "rq_path ?r = ''/obj/k''" by (simp add: sample_object_request_def)
    moreover have "trim_space (trim_prefix ''/obj/'' ''/obj/k'') = ''k''" "\<not> contains ''k'' ''..''" by code_simp+
    ultimately show ?thesis by (simp add: object_key_def Let_def)
  qed
  moreover have "\<not> IsStreamingRequest ''k''" by code_simp
  ultimately show ?thesis
    using assms(1) by (auto simp: edge_admits_def tok IsWebSocket_def IsGRPC_def h to_lower_def sample_edge_def sample_http_env_def sample_request_headers)
qed

theorem edge_serves_range_witness:
  "\<exists>resp. et_out (handleObject (\<lambda>_. ''e1'') sample_http_env (sample_object_request ''GET'' [(''range'', bytes_range 1 9)]) sample_edge) = Responded resp \<and>
    er_status resp = 206 \<and> er_body resp = [2, 3] \<and> er_length resp = Some 2"
proof -
  let ?r = "sample_object_request ''GET'' [(''range'', bytes_range 1 9)]"
  have "edge_admits sample_http_env ?r sample_edge ''k''" by (rule sample_request_admitted) simp_all
  moreover have "entry_content (ed_cache sample_edge) ''e1'' = Some [1, 2, 3]"
    by (simp add: sample_edge_def sample_cache_def entry_content_def)
  moreover have "eh_open sample_http_env" "eh_seek sample_http_env" by (simp_all add: sample_http_env_def)
  ultimately obtain resp where resp:
    "et_out (handleObject (\<lambda>_. ''e1'') sample_http_env ?r sample_edge) = Responded resp"
    "er_length resp = Some (int (length (er_body resp)))"
    "\<And>a b. bytes_range 1 9 = bytes_range a b \<and> a < length [1, 2, 3 :: byte] \<and> a \<le> b \<and> is_i64 (int b) \<Longrightarrow>
       er_status resp = 206 \<and> er_body resp = take (b + 1 - a) (drop a [1, 2, 3])"
    using edge_serves_range [where name = "\<lambda>_. ''e1''" and env = sample_http_env and r = ?r and e = sample_edge and key = "''k''" and data = "[1, 2, 3]"]
    by (auto simp: sample_request_headers)
  from resp(3) [of 1 9] have "er_status resp = 206 \<and> er_body resp = [2, 3]" by (simp add: is_i64_def)
  with resp show ?thesis by auto
qed

section \<open>From the origin into the cache\<close>

lemma edge_admits_cong:
  "\<lbrakk>ed_secret e' = ed_secret e; ed_streaming e' = ed_streaming e; ed_ws e' = ed_ws e; ed_grpc e' = ed_grpc e\<rbrakk>
   \<Longrightarrow> edge_admits env r e' key = edge_admits env r e key"
  by (simp add: edge_admits_def IsWebSocket_def IsGRPC_def)

lemma edge_miss:
  assumes "edge_admits env r e key" "entry_content (ed_cache e) (name key) = None" "header r ''Range'' = []"
    "executeFetch (eh_fetch env) key [] (ed_fetcher e) = (f, sent, Inr fr)" "0 \<le> fr_ContentLength fr" "fr_ContentLength fr \<le> 10485760"
    "serveFromFetchResult (rq_method r) (eh_cut env) fr = (resp, buf)"
  shows "\<exists>e'. handleObject name env r e = \<lparr>et_edge = e', et_sent = sent, et_later = [PutLater key buf], et_out = Responded resp\<rparr> \<and>
    ed_cache e' = (ed_cache e)\<lparr>ca_misses := i64 (ca_misses (ed_cache e) + 1)\<rparr> \<and>
    ed_secret e' = ed_secret e \<and> ed_streaming e' = ed_streaming e \<and> ed_ws e' = ed_ws e \<and> ed_grpc e' = ed_grpc e"
  using assms by (simp add: edge_admitted cache_Get_def serve_miss_def Let_def)

lemma cache_inv_misses: "cache_inv c \<Longrightarrow> cache_inv (c\<lparr>ca_misses := n\<rparr>)"
  by (simp add: cache_inv_def disk_size_def entry_size_def entry_content_def entry_meta_def)

text \<open>What is left to the background is readable once it has run.\<close>

lemma later_put_reads:
  assumes inv: "cache_inv (ed_cache e)" and lim: "int (length buf) \<le> ca_maxBytes (ed_cache e)" "is_i64 (ca_maxBytes (ed_cache e))"
    and small: "is_i64 (gm_sum (ca_sizes (ed_cache e)) + int (length buf))" and rm: "\<And>n. rm_ok n"
    and clock: "\<And>k la. gm_get (ca_accessTimes (ed_cache e)) k = Some la \<Longrightarrow> la < now"
    and e': "ed_cache e' = (ed_cache e)\<lparr>ca_misses := n\<rparr>"
  shows "entry_content (ed_cache (edge_later_run name fs_fine rm_ok now (PutLater key buf) e')) (name key) = Some buf"
proof -
  obtain err c' where put: "cache_Put name fs_fine rm_ok now key buf (ed_cache e') = (err, c')" by fastforce
  have "fst (cache_Get name True key c') = Inr buf"
    using cache_Put_Get [OF _ _ _ _ _ _ put] cache_inv_misses [OF inv, of n] lim small rm clock unfolding e' by simp
  then show ?thesis using put by (simp add: cache_Get_def split: option.splits)
qed


text \<open>A HEAD request that misses stores an empty object, which later requests are served.\<close>

lemma head_miss_stores_empty:
  assumes "edge_admits env r e key" "rq_method r = ''HEAD''" "header r ''Range'' = []" "entry_content (ed_cache e) (name key) = None"
    "executeFetch (eh_fetch env) key [] (ed_fetcher e) = (f, sent, Inr fr)" "0 \<le> fr_ContentLength fr" "fr_ContentLength fr \<le> 10485760"
  shows "et_later (handleObject name env r e) = [PutLater key []]"
  using edge_miss [where name = name, OF assms(1, 4, 3, 5, 6, 7), of "(fetched_head fr)\<lparr>er_body := []\<rparr>" "[]"] assms(2)
  by (auto simp: serveFromFetchResult_def)

text \<open>A body that breaks off is stored as far as it came.\<close>

lemma broken_body_stored:
  assumes "edge_admits env r e key" "rq_method r = ''GET''" "header r ''Range'' = []" "entry_content (ed_cache e) (name key) = None"
    "executeFetch (eh_fetch env) key [] (ed_fetcher e) = (f, sent, Inr fr)" "0 \<le> fr_ContentLength fr" "fr_ContentLength fr \<le> 10485760"
    "eh_cut env = Some n"
  shows "et_later (handleObject name env r e) = [PutLater key (take n (fr_Body fr))]"
  using edge_miss [where name = name, OF assms(1, 4, 3, 5, 6, 7), of "(fetched_head fr)\<lparr>er_body := take n (fr_Body fr)\<rparr>" "take n (fr_Body fr)"] assms(2, 8)
  by (auto simp: serveFromFetchResult_def received_def Let_def)


section \<open>Purging\<close>

lemma DeleteKeys_content:
  "entry_content (snd (DeleteKeys name rm_ok ks c)) n = (if \<exists>k\<in>set ks. rm_ok k \<and> name k = n then None else entry_content c n)"
proof (induction ks arbitrary: c)
  case (Cons k ks)
  then show ?case
    using entry_content_Delete [of name "rm_ok k" k c n] by (auto simp: split_def Let_def)
qed simp

lemma DeleteKeys_results:
  "gm_wf (fst (DeleteKeys name rm_ok ks c)) \<and>
   gm_get (fst (DeleteKeys name rm_ok ks c)) k = (if k \<in> set ks then Some (if rm_ok k then None else Some DeleteEntry) else None)"
  by (induction ks arbitrary: c) (auto simp: split_def Let_def cache_Delete_def)

text \<open>
  C9: a purge that is reported is effective.  The result lists exactly the requested keys; a key listed as purged
  is gone from the cache, so that a peer that asks for it gets 404, and an admitted request for it goes to the
  origin (it is served as a miss); the entries of other keys are untouched.
\<close>

theorem edge_purge_forgets:
  assumes purge: "handlePurge name rm_ok r e = (e', Inr (n, results))"
  shows "(\<exists>ks. push_keys r = Inr ks \<and> fst ` set results = set ks \<and>
      (\<forall>k. name k \<notin> name ` set ks \<longrightarrow> fst (cache_Get name True k (ed_cache e')) = fst (cache_Get name True k (ed_cache e)))) \<and>
    (\<forall>key. (key, ''purged'') \<in> set results \<longrightarrow>
      (\<forall>q ok. object_key ''/internal/p2p/obj/'' q = Some key \<longrightarrow> snd (handleP2PFetch name ok q e') = http_Error 404 ''content not found'') \<and>
      (\<forall>env q. edge_admits env q e' key \<longrightarrow>
        (\<exists>e2. handleObject name env q e' = serve_miss env (rq_method q) (header q ''Range'') key e2)))"
proof -
  obtain ks where ks: "push_keys r = Inr ks" using purge by (auto simp: handlePurge_def split: sum.splits)
  define d where "d = DeleteKeys name rm_ok ks (ed_cache e)"
  have e': "ed_cache e' = snd d" and results: "results = map (\<lambda>(k, err). (k, if err = None then ''purged'' else ''failed'')) (fst d)"
    using purge ks by (auto simp: handlePurge_def d_def split: prod.splits)
  have content: "entry_content (snd d) m = (if \<exists>k\<in>set ks. rm_ok k \<and> name k = m then None else entry_content (ed_cache e) m)" for m
    by (simp add: d_def DeleteKeys_content)
  have get: "(k, err) \<in> set (fst d) \<longleftrightarrow> k \<in> set ks \<and> err = (if rm_ok k then None else Some DeleteEntry)" for k err
    using DeleteKeys_results [of name rm_ok ks "ed_cache e" k] gm_get_in [of "fst d" k err] by (auto simp: d_def split: if_split_asm)
  have keys: "fst ` set results = set ks"
  proof -
    have "fst ` set results = fst ` set (fst d)" by (force simp: results)
    also have "\<dots> = set ks" using get by (force simp: image_iff)
    finally show ?thesis .
  qed
  have gone: "entry_content (ed_cache e') (name key) = None" if "(key, ''purged'') \<in> set results" for key
    using that get content e' by (auto simp: results split: if_split_asm)
  have p2p: "snd (handleP2PFetch name ok q e') = http_Error 404 ''content not found''"
    if "(key, ''purged'') \<in> set results" "object_key ''/internal/p2p/obj/'' q = Some key" for key q ok
    using gone [OF that(1)] that(2) by (simp add: handleP2PFetch_def cache_Get_def)
  have miss: "\<exists>e2. handleObject name env q e' = serve_miss env (rq_method q) (header q ''Range'') key e2"
    if "(key, ''purged'') \<in> set results" "edge_admits env q e' key" for key env q
    using gone [OF that(1)] edge_admitted [OF that(2), of name] by (auto simp: cache_Get_def)
  have others: "fst (cache_Get name True k (ed_cache e')) = fst (cache_Get name True k (ed_cache e))" if "name k \<notin> name ` set ks" for k
  proof -
    have "\<not> (\<exists>k'\<in>set ks. rm_ok k' \<and> name k' = name k)" using that by (metis imageI)
    then have "entry_content (ed_cache e') (name k) = entry_content (ed_cache e) (name k)" using content [of "name k"] e' by presburger
    then show ?thesis by (simp add: cache_Get_def split: option.splits)
  qed
  show ?thesis using ks keys p2p miss others by blast
qed

definition push_request :: "string list \<Rightarrow> http_request" where
  "push_request ks = \<lparr>rq_method = ''POST'', rq_path = [], rq_query = [], rq_headers = [], rq_remote = [],
     rq_body = json_print (JObj [(''keys'', JArr (map JStr ks))])\<rparr>"

text \<open>The control plane's JSON for a list of keys is read back as that list.\<close>

lemma push_keys_request:
  assumes "ks \<noteq> []" "list_all valid_utf8 ks"
  shows "push_keys (push_request ks) = Inr ks"
proof -
  let ?v = "JObj [(''keys'', JArr (map JStr ks))]"
  have "json_ok 10000 ?v" using assms(2) by (simp add: valid_utf8_ascii list_all_iff)
  then have "parse_val (2 * length (json_print ?v) + 2) 10000 (json_print ?v @ []) = Some (?v, [])" by (intro parse_print(1)) simp_all
  then have "first_value (length (json_print ?v)) (json_print ?v) = Some (?v, [])"
    by (simp add: first_value_def Let_def del: parse_val.simps json_print.simps)
  moreover have "read_value keys_field [] ?v = Some ks"
  proof -
    have "map2 (str_elem []) [0..<length ks] (map JStr ks) = map (\<lambda>k. (k, True)) ks"
      by (rule nth_equalityI) (simp_all add: str_elem_def str_field_def)
    then show ?thesis by (simp add: read_value_def read_member_def keys_field_def strs_field_def field_is_def Let_def comp_def list_all_iff)
  qed
  ultimately show ?thesis using assms(1) by (simp add: push_keys_def push_request_def del: json_print.simps)
qed

theorem edge_purge_forgets_witness:
  "\<exists>e' results. handlePurge id (\<lambda>_. True) (push_request [''e1'']) sample_edge = (e', Inr (1, results)) \<and> (''e1'', ''purged'') \<in> set results \<and>
    snd (handleP2PFetch id True ((push_request [])\<lparr>rq_path := ''/internal/p2p/obj/e1''\<rparr>) e') = http_Error 404 ''content not found''"
proof -
  have "push_keys (push_request [''e1'']) = Inr [''e1'']" by (rule push_keys_request) (simp_all add: valid_utf8_ascii)
  then obtain e' where purge: "handlePurge id (\<lambda>_. True) (push_request [''e1'']) sample_edge = (e', Inr (1, [(''e1'', ''purged'')]))"
    by (simp add: handlePurge_def cache_Delete_def Let_def)
  have "trim_space (trim_prefix ''/internal/p2p/obj/'' ''/internal/p2p/obj/e1'') = ''e1''" "\<not> contains ''e1'' ''..''" by code_simp+
  then have "object_key ''/internal/p2p/obj/'' ((push_request [])\<lparr>rq_path := ''/internal/p2p/obj/e1''\<rparr>) = Some ''e1''"
    by (simp add: object_key_def push_request_def)
  with edge_purge_forgets [OF purge] purge show ?thesis by force
qed

end
