(* ===== verification/Dns.thy ===== *)
theory Dns
  imports Models Go_Net Go_Binary "HOL-Library.Monad_Syntax"
begin

text \<open>
  The DNS adapter, \<open>internal/dns/server.go\<close>: reading the question of a query, choosing the candidates and building
  the reply.  A packet is a list of bytes.  A slice is its backing array with a length, and \<open>None\<close> is a panic.  What
  the control plane and the GeoIP service answer, the clock, and the host that \<open>url.Parse\<close> finds in an address are
  arguments.  Names are ASCII.  Not modelled: the sockets and the refresh ticker.
\<close>

section \<open>Slices\<close>

record slice =
  sl_array :: "byte list"
  sl_len :: nat

definition slice_bytes :: "slice \<Rightarrow> byte list" where
  "slice_bytes s = take (sl_len s) (sl_array s)"

definition slice_put :: "nat \<Rightarrow> byte \<Rightarrow> slice \<Rightarrow> slice option" where
  "slice_put i v s = (if i < sl_len s then Some (s\<lparr>sl_array := (sl_array s)[i := v]\<rparr>) else None)"

text \<open>\<open>copy(s[:n], bs)\<close> for a slice \<open>s\<close>: slicing may go up to the capacity.\<close>

definition slice_copy :: "nat \<Rightarrow> byte list \<Rightarrow> slice \<Rightarrow> slice option" where
  "slice_copy n bs s =
    (if n > length (sl_array s) then None
     else (let m = min n (length bs) in Some (s\<lparr>sl_array := take m bs @ drop m (sl_array s)\<rparr>)))"

definition slice_append :: "byte list \<Rightarrow> slice \<Rightarrow> slice" where
  "slice_append bs s =
    (if sl_len s + length bs \<le> length (sl_array s)
     then \<lparr>sl_array = slice_bytes s @ bs @ drop (sl_len s + length bs) (sl_array s), sl_len = sl_len s + length bs\<rparr>
     else \<lparr>sl_array = slice_bytes s @ bs, sl_len = sl_len s + length bs\<rparr>)"

section \<open>The question\<close>

datatype question_error = TooShort | OffsetOverflow | LabelOverflow | NoType

text \<open>The loop over the labels: the labels and the offset after them.\<close>

function parse_labels :: "byte list \<Rightarrow> nat \<Rightarrow> string list \<Rightarrow> question_error + string list \<times> nat" where
  "parse_labels query offset parts =
    (if offset \<ge> length query then Inl OffsetOverflow
     else
       (let len = unat (query ! offset); offset = offset + 1 in
        if len = 0 then Inr (parts, offset)
        else if offset + len > length query then Inl LabelOverflow
        else parse_labels query (offset + len) (parts @ [string_of (take len (drop offset query))])))"
  by pat_completeness auto
termination
  by (relation "measure (\<lambda>(query, offset, parts). length query - offset)") auto

declare parse_labels.simps [simp del]

definition parseQuestion :: "byte list \<Rightarrow> question_error + string \<times> 16 word" where
  "parseQuestion query =
    (if length query < 16 then Inl TooShort
     else case parse_labels query 12 [] of
       Inl e \<Rightarrow> Inl e
     | Inr (parts, offset) \<Rightarrow>
         if offset + 4 > length query then Inl NoType
         else Inr (join_with (CHR ''.'') parts, word_of_nat (256 * unat (query ! offset) + unat (query ! (offset + 1)))))"

section \<open>Replies\<close>

definition newDNSBuffer :: "byte list \<Rightarrow> slice" where
  "newDNSBuffer pooled = \<lparr>sl_array = pooled, sl_len = 0\<rparr>"

definition copySection :: "byte list \<Rightarrow> slice \<Rightarrow> nat \<Rightarrow> int \<Rightarrow> slice" where
  "copySection src dst srcStart len =
    (let len = (if int srcStart + len > int (length src) then int (length src) - int srcStart else len) in
     if len \<le> 0 then dst else slice_append (take (nat len) (drop srcStart src)) dst)"

definition extractIP :: "(string \<Rightarrow> (string \<times> string) option) \<Rightarrow> string \<Rightarrow> byte list option" where
  "extractIP url_host addr =
    (case url_host addr of None \<Rightarrow> None
     | Some (host, hostname) \<Rightarrow> if host = [] then None else ParseIP (if hostname = [] then host else hostname))"

text \<open>\<open>To4\<close> of an address that is not IPv4 is nil, and nothing is appended.\<close>

definition answer_record :: "16 word \<Rightarrow> int \<Rightarrow> byte list \<Rightarrow> byte list" where
  "answer_record qtype ttl ip =
    [0xC0, 0x0C] @ (if qtype = 28 then [0, 28] else [0, 1]) @ [0x00, 0x01] @
    [word_of_int (ttl div 16777216), word_of_int (ttl div 65536), word_of_int (ttl div 256), word_of_int ttl] @
    (if qtype = 28 then [0x00, 0x10] @ ip else [0x00, 0x04] @ (case To4 ip of Some v4 \<Rightarrow> v4 | None \<Rightarrow> []))"

definition buildDNSResponse ::
    "(string \<Rightarrow> (string \<times> string) option) \<Rightarrow> byte list \<Rightarrow> byte list \<Rightarrow> byte list \<Rightarrow> candidate list \<Rightarrow> int \<Rightarrow> 16 word \<Rightarrow> byte list option" where
  "buildDNSResponse url_host pooled txID query candidates ttl qtype =
    do { buf \<leftarrow> slice_copy 2 txID (newDNSBuffer pooled);
         buf \<leftarrow> slice_put 2 0x81 buf;
         buf \<leftarrow> slice_put 3 0x80 buf;
         buf \<leftarrow> Some (copySection query buf 12 (int (length query) - 12));
         buf \<leftarrow> slice_put 4 0x00 buf;
         buf \<leftarrow> slice_put 5 0x01 buf;
         ips \<leftarrow> Some (concat (map (\<lambda>c. case extractIP url_host (cd_endpoint c) of None \<Rightarrow> [] | Some ip \<Rightarrow> [ip]) candidates));
         buf \<leftarrow> Some (fold (\<lambda>ip. slice_append (answer_record qtype ttl ip)) ips buf);
         ansCount \<leftarrow> Some (length ips mod 65536);
         buf \<leftarrow> slice_put 6 (word_of_nat (ansCount div 256)) buf;
         buf \<leftarrow> slice_put 7 (word_of_nat ansCount) buf;
         Some (slice_bytes buf) }"

definition buildNXDOMAIN :: "byte list \<Rightarrow> byte list \<Rightarrow> byte list \<Rightarrow> byte list option" where
  "buildNXDOMAIN pooled txID query =
    do { buf \<leftarrow> slice_copy 2 txID (newDNSBuffer pooled);
         buf \<leftarrow> slice_put 2 0x81 buf;
         buf \<leftarrow> slice_put 3 0x83 buf;
         buf \<leftarrow> Some (copySection query buf 12 (int (length query) - 12));
         buf \<leftarrow> slice_put 4 0x00 buf;
         buf \<leftarrow> slice_put 5 0x01 buf;
         buf \<leftarrow> slice_put 6 0x00 buf;
         buf \<leftarrow> slice_put 7 0x00 buf;
         Some (slice_bytes buf) }"

section \<open>Queries\<close>

record dns_server =
  ds_Domain :: string
  ds_TTLSeconds :: int
  ds_nodeCache :: "(string, candidate) gomap"
  ds_cacheExpires :: int
  ds_geoCache :: "(string, string) gomap"

record dns_env =
  de_now :: int
  de_pooled :: "byte list"
  de_dispatch :: "dispatch_request \<Rightarrow> dispatch_response option"
  de_geoip :: "string \<Rightarrow> (string \<times> string) option"
  de_url_host :: "string \<Rightarrow> (string \<times> string) option"

definition resolveRegion :: "(string \<Rightarrow> (string \<times> string) option) \<Rightarrow> string \<Rightarrow> dns_server \<Rightarrow> string \<times> dns_server" where
  "resolveRegion geoip ip s =
    (if ip = [] \<or> ip = ''127.0.0.1'' \<or> ip = ''::1'' then ([], s)
     else case gm_get (ds_geoCache s) ip of
       Some v \<Rightarrow> (v, s)
     | None \<Rightarrow>
        (case geoip ip of None \<Rightarrow> ([], s)
         | Some (region, status) \<Rightarrow>
            if status \<noteq> ''success'' then ([], s) else (region, s\<lparr>ds_geoCache := gm_set ip region (ds_geoCache s)\<rparr>)))"

definition dns_request :: "string \<Rightarrow> string \<Rightarrow> string \<Rightarrow> string \<Rightarrow> dispatch_request" where
  "dns_request ip region type key =
    \<lparr>dq_client = \<lparr>ci_ip = ip, ci_region = region, ci_isp = []\<rparr>, dq_resource = \<lparr>res_type = type, res_key = key, res_scheme = []\<rparr>, dq_need_range = False\<rparr>"

definition resp_candidates :: "dispatch_response \<Rightarrow> candidate list" where
  "resp_candidates resp = (case dr_candidates resp of None \<Rightarrow> [] | Some cs \<Rightarrow> cs)"

definition refreshCache :: "dns_env \<Rightarrow> dns_server \<Rightarrow> dns_server" where
  "refreshCache env s =
    (case de_dispatch env (dns_request ''0.0.0.0'' [] ''dns'' (ds_Domain s)) of
       None \<Rightarrow> s
     | Some resp \<Rightarrow> s\<lparr>ds_nodeCache := fold (\<lambda>c. gm_set (cd_id c) c) (resp_candidates resp) [],
         ds_cacheExpires := i64 (de_now env + i64 (ds_TTLSeconds s * 1000000000))\<rparr>)"

definition resource_key :: "string \<Rightarrow> string \<Rightarrow> string" where
  "resource_key own domain =
    (let k = trim_suffix (CHR ''.'' # own) domain in trim_suffix ''.'' (if k = own then [] else k))"

text \<open>A query is dropped (\<open>Some None\<close>), answered with a packet, or ends in a panic of its goroutine, and with it of
  the process (\<open>None\<close>).  The map's candidates come in the order of the map.\<close>

definition handleQuery :: "dns_env \<Rightarrow> string \<Rightarrow> byte list \<Rightarrow> dns_server \<Rightarrow> dns_server \<times> byte list option option" where
  "handleQuery env clientIP query s =
    (if length query < 12 then (s, Some None)
     else case parseQuestion query of
       Inl _ \<Rightarrow> (s, Some None)
     | Inr (domain, qtype) \<Rightarrow>
        (let domain = to_lower (trim_suffix ''.'' domain); txID = take 2 query;
             nx = map_option Some (buildNXDOMAIN (de_pooled env) txID query);
             answer = (\<lambda>cs. if cs = [] then nx
               else map_option Some (buildDNSResponse (de_url_host env) (de_pooled env) txID query cs (ds_TTLSeconds s) qtype))
         in if \<not> suffix (ds_Domain s) domain \<and> domain \<noteq> ds_Domain s then (s, nx)
            else
              (let key = resource_key (ds_Domain s) domain in
               if de_now env < ds_cacheExpires s \<and> key = [] then (s, answer (map snd (ds_nodeCache s)))
               else
                 (let (region, s) = resolveRegion (de_geoip env) clientIP s in
                  case de_dispatch env (dns_request clientIP region ''object'' key) of
                    None \<Rightarrow> (s, nx)
                  | Some resp \<Rightarrow> (s, answer (resp_candidates resp))))))"

section \<open>Reading a question\<close>

definition encode_label :: "byte list \<Rightarrow> byte list" where
  "encode_label l = word_of_nat (length l) # l"

definition label_ok :: "byte list \<Rightarrow> bool" where
  "label_ok l \<longleftrightarrow> 0 < length l \<and> length l < 256"

lemma unat_label: "label_ok l \<Longrightarrow> unat (word_of_nat (length l) :: byte) = length l"
  by (simp add: label_ok_def unat_of_nat)

lemma parse_labels_encode:
  assumes "list_all label_ok ls"
  shows "parse_labels (pre @ concat (map encode_label ls) @ 0 # rest) (length pre) parts =
    Inr (parts @ map string_of ls, length pre + length (concat (map encode_label ls)) + 1)"
  using assms
proof (induction ls arbitrary: pre parts)
  case Nil
  then show ?case by (subst parse_labels.simps) simp
next
  case (Cons l ls)
  let ?q = "pre @ concat (map encode_label (l # ls)) @ 0 # rest" and ?pre = "pre @ encode_label l"
  have l: "label_ok l" "unat (word_of_nat (length l) :: byte) = length l" using Cons.prems by (simp_all add: unat_label)
  have "?q ! length pre = word_of_nat (length l)" by (simp add: nth_append encode_label_def)
  moreover have "take (length l) (drop (length pre + 1) ?q) = l" by (simp add: encode_label_def)
  ultimately have "parse_labels ?q (length pre) parts = parse_labels ?q (length ?pre) (parts @ [string_of l])"
    using l by (subst parse_labels.simps) (simp add: Let_def label_ok_def, simp add: encode_label_def)
  also have "?q = ?pre @ concat (map encode_label ls) @ 0 # rest" by simp
  also have "parse_labels \<dots> (length ?pre) (parts @ [string_of l]) =
      Inr ((parts @ [string_of l]) @ map string_of ls, length ?pre + length (concat (map encode_label ls)) + 1)"
    using Cons.prems by (intro Cons.IH) simp
  finally show ?case by simp
qed

lemma parse_labels_append:
  "parse_labels q off parts = Inr (ps, off') \<Longrightarrow> off' \<le> length q \<and> parse_labels (q @ r) off parts = Inr (ps, off')"
proof (induction q off parts rule: parse_labels.induct)
  case (1 q off parts)
  have off: "off < length q" using "1.prems" by (subst (asm) parse_labels.simps) (simp split: if_split_asm)
  show ?case
  proof (cases "unat (q ! off) = 0")
    case True
    then show ?thesis using "1.prems" off
      by (subst (asm) parse_labels.simps, subst parse_labels.simps) (auto simp: Let_def nth_append)
  next
    case False
    have fits: "\<not> length q < off + 1 + unat (q ! off)"
      using "1.prems" off False by (subst (asm) parse_labels.simps) (simp add: Let_def split: if_split_asm)
    let ?parts = "parts @ [string_of (take (unat (q ! off)) (drop (off + 1) q))]"
    have rec: "parse_labels q (off + 1 + unat (q ! off)) ?parts = Inr (ps, off')"
      using "1.prems" off False fits by (subst (asm) parse_labels.simps) (simp add: Let_def)
    have "off' \<le> length q \<and> parse_labels (q @ r) (off + 1 + unat (q ! off)) ?parts = Inr (ps, off')"
      using "1.IH" [OF _ refl refl False fits rec] off by simp
    then show ?thesis using off False fits
      by (subst parse_labels.simps) (simp add: Let_def nth_append)
  qed
qed

lemma word16_of_bytes: "(word_of_nat (256 * unat (word_of_nat (n div 256) :: byte) + unat (word_of_nat n :: byte)) :: 16 word) = word_of_nat n"
proof -
  have "256 * ((n div 256) mod 256) + n mod 256 = n mod 65536"
    using mod_mult2_eq [of n 256 256] by simp
  then show ?thesis by (simp add: unat_of_nat word_of_nat_eq_iff take_bit_eq_mod)
qed

text \<open>
  C40: a question is read back as it was written.  From a packet with a 12 byte header, labels of 1 to 255 bytes each
  with its length before it, the empty label, a type and a class, \<open>parseQuestion\<close> returns the labels joined with dots
  and the type, whatever follows; a packet that ends before any of these is rejected, never read past its end.
\<close>

theorem dns_question_roundtrip:
  assumes "length hdr = 12" "list_all label_ok ls" "length cls = 2"
  shows "parseQuestion (hdr @ concat (map encode_label ls) @ 0 # [word_of_nat (n div 256), word_of_nat n] @ cls @ rest) =
      Inr (join_with (CHR ''.'') (map string_of ls), word_of_nat n)
    \<and> (\<forall>q. prefix q (hdr @ concat (map encode_label ls) @ 0 # [word_of_nat (n div 256), word_of_nat n] @ cls) \<and>
          q \<noteq> hdr @ concat (map encode_label ls) @ 0 # [word_of_nat (n div 256), word_of_nat n] @ cls \<longrightarrow> (\<exists>e. parseQuestion q = Inl e))"
proof -
  let ?q = "hdr @ concat (map encode_label ls) @ 0 # [word_of_nat (n div 256), word_of_nat n] @ cls"
  let ?off = "length hdr + length (concat (map encode_label ls)) + 1"
  have labels: "parse_labels (?q @ rest) 12 [] = Inr (map string_of ls, ?off)" for rest
    using parse_labels_encode [OF assms(2), of hdr "[word_of_nat (n div 256), word_of_nat n] @ cls @ rest" "[]"] assms(1) by simp
  have at: "(?q @ rest) ! ?off = word_of_nat (n div 256)" "(?q @ rest) ! (?off + 1) = word_of_nat n" for rest
    by (simp_all add: nth_append)
  have "parseQuestion (?q @ rest) = Inr (join_with (CHR ''.'') (map string_of ls), word_of_nat n)"
    unfolding parseQuestion_def labels sum.case prod.case at word16_of_bytes using assms(1, 3) by simp
  moreover have "\<exists>e. parseQuestion q = Inl e" if q: "prefix q ?q" "q \<noteq> ?q" for q
  proof (cases "parseQuestion q")
    case (Inr x)
    obtain r where r: "?q = q @ r" using q(1) by (auto elim: prefixE)
    obtain ps off where p: "parse_labels q 12 [] = Inr (ps, off)" "off + 4 \<le> length q"
      using Inr by (auto simp: parseQuestion_def split: if_split_asm sum.splits prod.splits)
    have "off = ?off" using parse_labels_append [OF p(1), of r] labels [of "[]"] r by simp
    then have "length ?q \<le> length q" using p(2) assms(3) by simp
    then have "length q + length r \<le> length q" by (simp only: r length_append)
    then show ?thesis using r q(2) by simp
  qed simp
  ultimately show ?thesis by simp
qed

theorem dns_question_roundtrip_witness:
  "parseQuestion (replicate 12 7 @ [2, 97, 98, 1, 99, 0, 0, 28, 0, 1, 5]) = Inr (''ab.c'', 28) \<and>
   (\<exists>e. parseQuestion (replicate 12 7 @ [2, 97, 98, 1, 99, 0, 0, 28, 0]) = Inl e)"
proof -
  have ok: "length (replicate 12 (7 :: byte)) = 12" "list_all label_ok [[97, 98], [99]]" "length [0, 1 :: byte] = 2"
    by (simp_all add: label_ok_def)
  have enc: "concat (map encode_label [[97, 98], [99]]) = [2, 97, 98, 1, 99]" by (simp add: encode_label_def)
  have str: "map string_of [[97, 98], [99]] = [''ab'', ''c'']" by code_simp
  have "prefix (replicate 12 7 @ [2, 97, 98, 1, 99, 0, 0, 28, 0]) (replicate 12 7 @ [2, 97, 98, 1, 99, 0, 0, 28, 0, 1 :: byte])" by simp
  with dns_question_roundtrip [OF ok, where n = 28 and rest = "[5]", unfolded enc str] show ?thesis by simp
qed

section \<open>Answering\<close>

text \<open>The buffer that the replies are built in has length 0, and its third byte is assigned: every query whose
  question is read ends in a panic.\<close>

lemma dns_query_panics:
  assumes "parseQuestion query = Inr (domain, qtype)"
  shows "snd (handleQuery env clientIP query s) = None"
proof -
  have "length query \<ge> 12" using assms by (simp add: parseQuestion_def split: if_split_asm)
  moreover have "buildNXDOMAIN pooled txID query = None" "buildDNSResponse url_host pooled txID query cs ttl qtype = None"
    for pooled txID url_host cs ttl
    by (simp_all add: buildNXDOMAIN_def buildDNSResponse_def newDNSBuffer_def slice_copy_def slice_put_def Let_def)
  ultimately show ?thesis
    using assms by (simp add: handleQuery_def Let_def split: prod.splits option.splits)
qed

end
