(* ===== verification/Task_Executor.thy ===== *)
theory Task_Executor
  imports Console_Resources
begin

text \<open>
  The executor of cache tasks, \<open>internal/controlplane/task_executor.go\<close>: the pending tasks are listed, and the keys
  of each are pushed to its target nodes.  The pushes to the nodes of one task run at the same time and only count
  the nodes that answered, so the count is that of a sequential run.  The body of the reply to a push is an argument
  (\<open>None\<close> when the exchange fails).  Not modelled: the ticker that polls every five seconds.
\<close>

record executor =
  te_store :: admin_store
  te_pg :: pg_store
  te_nodeCache :: node_cache

record task_env =
  xe_now :: int
  xe_db :: "nat \<Rightarrow> bool"
  xe_clock :: "nat \<Rightarrow> int"
  xe_listing :: "pg_error + node list"
  xe_jsonb :: "json \<Rightarrow> json option"
  xe_run :: bool
  xe_done :: bool
  xe_push :: "string \<Rightarrow> string \<Rightarrow> string option"

text \<open>\<open>GetNode\<close> for each listed node.\<close>

fun get_targets :: "task_env \<Rightarrow> nat \<Rightarrow> string list \<Rightarrow> pg_store \<Rightarrow> pg_store \<times> node list" where
  "get_targets env i [] p = (p, [])"
| "get_targets env i (nodeID # ids) p =
    (case GetNode (xe_db env i) (xe_now env) nodeID p of
       (p, Inl _) \<Rightarrow> get_targets env (Suc i) ids p
     | (p, Inr n) \<Rightarrow>
         (case get_targets env (Suc i) ids p of (p, ns) \<Rightarrow> (p, if active_status (n_status n) then n # ns else ns)))"

definition resolveTargetNodes :: "task_env \<Rightarrow> task_params \<Rightarrow> executor \<Rightarrow> executor \<times> node list" where
  "resolveTargetNodes env params te =
    (if tp_TargetNodes params \<noteq> [] then
       (case get_targets env 0 (tp_TargetNodes params) (te_pg te) of (p, ns) \<Rightarrow> (te\<lparr>te_pg := p\<rparr>, ns))
     else
       (case GetActiveNodes (xe_clock env 0) (xe_clock env 1) (xe_clock env 2) (xe_listing env) (te_nodeCache te) of
          (nc, Inl _) \<Rightarrow> (te\<lparr>te_nodeCache := nc\<rparr>, [])
        | (nc, Inr ns) \<Rightarrow> (te\<lparr>te_nodeCache := nc\<rparr>, ns)))"

definition task_update :: "bool \<Rightarrow> task_env \<Rightarrow> string \<Rightarrow> string \<Rightarrow> json \<Rightarrow> int \<Rightarrow> int \<Rightarrow> executor \<Rightarrow> executor" where
  "task_update db env taskID status result progress doneNodes te =
    te\<lparr>te_store := fst (UpdateTaskStatus db (xe_now env) (xe_jsonb env) taskID status (Some result) progress doneNodes (te_store te))\<rparr>"

definition markComplete :: "task_env \<Rightarrow> string \<Rightarrow> string \<Rightarrow> json option \<Rightarrow> int \<Rightarrow> int \<Rightarrow> executor \<Rightarrow> executor" where
  "markComplete env taskID status result progress doneNodes te =
    task_update (xe_done env) env taskID status (case result of None \<Rightarrow> JNull | Some v \<Rightarrow> v) progress doneNodes te"

text \<open>The reply of an edge; only whether it can be read matters.\<close>

record push_result =
  pr_Key :: string
  pr_Status :: string
  pr_Size :: int
  pr_Error :: string

definition result_member :: "bool \<Rightarrow> push_result \<Rightarrow> string \<Rightarrow> json \<Rightarrow> push_result \<times> bool" where
  "result_member sized q k v =
    (if field_is ''key'' k then str_field (\<lambda>x. q\<lparr>pr_Key := x\<rparr>) q v
     else if field_is ''status'' k then str_field (\<lambda>x. q\<lparr>pr_Status := x\<rparr>) q v
     else if sized \<and> field_is ''size'' k then int_field (\<lambda>x. q\<lparr>pr_Size := x\<rparr>) q v
     else if field_is ''error'' k then str_field (\<lambda>x. q\<lparr>pr_Error := x\<rparr>) q v
     else (q, True))"

definition reply_member :: "bool \<Rightarrow> int \<times> push_result list \<Rightarrow> string \<Rightarrow> json \<Rightarrow> (int \<times> push_result list) \<times> bool" where
  "reply_member sized q k v =
    (if field_is ''total'' k then int_field (\<lambda>x. (x, snd q)) q v
     else if field_is ''results'' k then
       slice_field (result_member sized) \<lparr>pr_Key = [], pr_Status = [], pr_Size = 0, pr_Error = []\<rparr> (\<lambda>x. (fst q, x)) (snd q) q v
     else (q, True))"

definition pushed :: "task_env \<Rightarrow> string \<Rightarrow> bool \<Rightarrow> string list \<Rightarrow> node \<Rightarrow> bool" where
  "pushed env path sized keys n \<longleftrightarrow>
    n_endpoints n \<noteq> [] \<and>
    (case xe_push env (endpoint_URL (hd (n_endpoints n)) @ path) (json_print (JObj [(''keys'', JArr (map JStr keys))])) of
       None \<Rightarrow> False
     | Some body \<Rightarrow> read_struct (reply_member sized) (0, []) (take 65536 body) \<noteq> None)"

text \<open>The part that the three kinds of task have in common; \<open>labels\<close> are the names in the result.\<close>

definition execute_push :: "string \<Rightarrow> bool \<Rightarrow> string \<times> string \<Rightarrow> task_env \<Rightarrow> task \<Rightarrow> executor \<Rightarrow> executor" where
  "execute_push path sized labels env task te =
    (let failed = markComplete env (tk_TaskID task) ''failed'' None 0 0 in
     case (case tk_Params task of None \<Rightarrow> None | Some v \<Rightarrow> read_value params_field zero_params v) of
       None \<Rightarrow> failed te
     | Some params \<Rightarrow>
        (let keys = (if tp_ObjectKey params \<noteq> [] then [tp_ObjectKey params] else []) in
         if keys = [] then failed te
         else
           (let (te, targets) = resolveTargetNodes env params te in
            if targets = [] then failed te
            else
              (let te = task_update (xe_run env) env (tk_TaskID task) ''running'' JNull 0 (int (length targets)) te;
                   doneNodes = int (length (filter (pushed env path sized keys) targets));
                   progress = doneNodes * 100 div int (length targets);
                   result = JObj [(fst labels, JInt (int (length keys))), (snd labels, JInt doneNodes), (''total_nodes'', JInt (int (length targets)))]
               in markComplete env (tk_TaskID task) ''completed'' (Some result) progress doneNodes te))))"

definition executePurge :: "task_env \<Rightarrow> task \<Rightarrow> executor \<Rightarrow> executor" where
  "executePurge = execute_push ''/internal/push/purge'' False (''keys_purged'', ''nodes_purged'')"

definition executePrewarm :: "task_env \<Rightarrow> task \<Rightarrow> executor \<Rightarrow> executor" where
  "executePrewarm = execute_push ''/internal/push/prewarm'' True (''keys_prewarmed'', ''nodes_prewarmed'')"

definition executeBlock :: "task_env \<Rightarrow> task \<Rightarrow> executor \<Rightarrow> executor" where
  "executeBlock = execute_push ''/internal/push/purge'' False (''keys_blocked'', ''nodes_blocked'')"

definition executeTask :: "task_env \<Rightarrow> task \<Rightarrow> executor \<Rightarrow> executor" where
  "executeTask env task te =
    (if tk_Type task = ''purge'' then executePurge env task te
     else if tk_Type task = ''prewarm'' then executePrewarm env task te
     else if tk_Type task = ''block'' then executeBlock env task te
     else te)"

fun execute_tasks :: "(nat \<Rightarrow> task_env) \<Rightarrow> nat \<Rightarrow> task list \<Rightarrow> executor \<Rightarrow> executor" where
  "execute_tasks env i [] te = te"
| "execute_tasks env i (t # ts) te = execute_tasks env (Suc i) ts (executeTask (env i) t te)"

definition processPending :: "bool \<Rightarrow> bool \<Rightarrow> (nat \<Rightarrow> task_env) \<Rightarrow> executor \<Rightarrow> executor" where
  "processPending db1 db2 env te =
    (case ListTasks db1 db2 [] ''pending'' [] 10 0 (te_store te) of
       Inl _ \<Rightarrow> te
     | Inr (tasks, _) \<Rightarrow> execute_tasks env 0 tasks te)"

section \<open>Tasks are settled\<close>

abbreviation tasks_of :: "executor \<Rightarrow> task table" where
  "tasks_of te \<equiv> tb_tasks (as_primary (te_store te))"

definition settled :: "task \<Rightarrow> bool" where
  "settled t \<longleftrightarrow> tk_Status t \<in> {''completed'', ''failed''} \<and> 0 \<le> tk_Progress t \<and> tk_Progress t \<le> 100 \<and> 0 \<le> tk_DoneNodes t"

text \<open>The statements and the database's reading of JSON succeed at the end of a task.\<close>

definition writes_ok :: "task_env \<Rightarrow> bool" where
  "writes_ok env \<longleftrightarrow> xe_done env \<and> (\<forall>v. xe_jsonb env v \<noteq> None)"

lemma task_update_get:
  "gm_get (tasks_of (task_update db env i status result progress n te)) j =
    (if j = i \<and> db then
       (case xe_jsonb env result of None \<Rightarrow> gm_get (tasks_of te) j
        | Some r \<Rightarrow> map_option (\<lambda>t. t\<lparr>tk_Status := status, tk_Result := Some r, tk_Progress := progress, tk_DoneNodes := n, tk_UpdatedAt := xe_now env\<rparr>)
            (gm_get (tasks_of te) j))
     else gm_get (tasks_of te) j)"
  by (simp add: task_update_def UpdateTaskStatus_def json_col_def tbl_update_def split: option.splits)

lemma markComplete_other: "j \<noteq> i \<Longrightarrow> gm_get (tasks_of (markComplete env i status result progress n te)) j = gm_get (tasks_of te) j"
  by (simp add: markComplete_def task_update_get)

lemma markComplete_settles:
  assumes "status \<in> {''completed'', ''failed''}" "0 \<le> progress" "progress \<le> 100" "0 \<le> n"
    and "writes_ok env" "gm_get (tasks_of te) i = Some t"
  shows "\<exists>t'. gm_get (tasks_of (markComplete env i status result progress n te)) i = Some t' \<and> settled t'"
proof -
  obtain r where "xe_jsonb env (case result of None \<Rightarrow> JNull | Some v \<Rightarrow> v) = Some r" using assms(5) by (auto simp: writes_ok_def)
  then show ?thesis using assms by (auto simp: markComplete_def task_update_get settled_def writes_ok_def)
qed

lemma resolveTargetNodes_store: "te_store (fst (resolveTargetNodes env params te)) = te_store te"
  by (simp add: resolveTargetNodes_def split: prod.splits sum.splits)

lemma share_bounds:
  assumes "ns \<noteq> []"
  shows "0 \<le> int (length (filter P ns)) * 100 div int (length ns)" "int (length (filter P ns)) * 100 div int (length ns) \<le> 100"
proof -
  have "int (length (filter P ns)) * 100 \<le> 100 * int (length ns)" by simp
  then have "int (length (filter P ns)) * 100 div int (length ns) \<le> 100 * int (length ns) div int (length ns)" by (rule zdiv_mono1) (simp add: assms)
  then show "int (length (filter P ns)) * 100 div int (length ns) \<le> 100" using assms by simp
  show "0 \<le> int (length (filter P ns)) * 100 div int (length ns)" by (simp add: pos_imp_zdiv_nonneg_iff assms)
qed

definition same_tasks :: "string \<Rightarrow> executor \<Rightarrow> executor \<Rightarrow> bool" where
  "same_tasks i te te' \<longleftrightarrow>
    (gm_get (tasks_of te') i = None \<longleftrightarrow> gm_get (tasks_of te) i = None) \<and> (\<forall>j. j \<noteq> i \<longrightarrow> gm_get (tasks_of te') j = gm_get (tasks_of te) j)"

lemma execute_push_form:
  "\<exists>te1 status result progress n. execute_push path sized labels env task te = markComplete env (tk_TaskID task) status result progress n te1 \<and>
    status \<in> {''completed'', ''failed''} \<and> 0 \<le> progress \<and> progress \<le> 100 \<and> 0 \<le> n \<and> same_tasks (tk_TaskID task) te te1"
  (is "\<exists>te1 status result progress n. ?form te1 status result progress n")
proof (cases "case tk_Params task of None \<Rightarrow> None | Some v \<Rightarrow> read_value params_field zero_params v")
  case None
  then have "?form te ''failed'' None 0 0" by (simp add: execute_push_def same_tasks_def)
  then show ?thesis by blast
next
  case (Some params)
  obtain te1 targets where res: "resolveTargetNodes env params te = (te1, targets)" by fastforce
  have store: "tasks_of te1 = tasks_of te" using resolveTargetNodes_store [of env params te] res by simp
  consider (no_key) "tp_ObjectKey params = []" | (no_target) "tp_ObjectKey params \<noteq> []" "targets = []" | (run) "tp_ObjectKey params \<noteq> []" "targets \<noteq> []" by blast
  then show ?thesis
  proof cases
    case no_key
    then have "?form te ''failed'' None 0 0" using Some by (simp add: execute_push_def same_tasks_def)
    then show ?thesis by blast
  next
    case no_target
    then have "?form te1 ''failed'' None 0 0" using Some by (simp add: execute_push_def same_tasks_def res store)
    then show ?thesis by blast
  next
    case run
    let ?te = "task_update (xe_run env) env (tk_TaskID task) ''running'' JNull 0 (int (length targets)) te1"
    let ?n = "int (length (filter (pushed env path sized [tp_ObjectKey params]) targets))"
    have form: "execute_push path sized labels env task te = markComplete env (tk_TaskID task) ''completed''
        (Some (JObj [(fst labels, JInt (int (length [tp_ObjectKey params]))), (snd labels, JInt ?n), (''total_nodes'', JInt (int (length targets)))]))
        (?n * 100 div int (length targets)) ?n ?te"
      using run Some by (simp add: execute_push_def res Let_def)
    have same: "same_tasks (tk_TaskID task) te ?te" by (simp add: same_tasks_def task_update_get store split: option.splits)
    show ?thesis
      by (intro exI conjI, rule form, simp, rule share_bounds(1) [OF run(2)], rule share_bounds(2) [OF run(2)], simp, rule same)
  qed
qed

lemma executeTask_form:
  "tk_Type task \<in> {''purge'', ''prewarm'', ''block''} \<Longrightarrow>
    \<exists>te1 status result progress n. executeTask env task te = markComplete env (tk_TaskID task) status result progress n te1 \<and>
      status \<in> {''completed'', ''failed''} \<and> 0 \<le> progress \<and> progress \<le> 100 \<and> 0 \<le> n \<and> same_tasks (tk_TaskID task) te te1"
  unfolding executeTask_def executePurge_def executePrewarm_def executeBlock_def
  using execute_push_form [of _ _ _ env task te] by auto

lemma executeTask_other: "j \<noteq> tk_TaskID task \<Longrightarrow> gm_get (tasks_of (executeTask env task te)) j = gm_get (tasks_of te) j"
proof (cases "tk_Type task \<in> {''purge'', ''prewarm'', ''block''}")
  case True
  assume j: "j \<noteq> tk_TaskID task"
  from executeTask_form [OF True, of env te] obtain te1 status result progress n
    where "executeTask env task te = markComplete env (tk_TaskID task) status result progress n te1" "same_tasks (tk_TaskID task) te te1" by blast
  then show ?thesis using markComplete_other [OF j] j by (simp add: same_tasks_def)
qed (simp add: executeTask_def)

lemma executeTask_settles:
  assumes "tk_Type task \<in> {''purge'', ''prewarm'', ''block''}" "writes_ok env" "gm_get (tasks_of te) (tk_TaskID task) = Some t"
  shows "\<exists>r. gm_get (tasks_of (executeTask env task te)) (tk_TaskID task) = Some r \<and> settled r"
proof -
  from executeTask_form [OF assms(1), of env te] obtain te1 status result progress n where
    f: "executeTask env task te = markComplete env (tk_TaskID task) status result progress n te1"
      "status \<in> {''completed'', ''failed''}" "0 \<le> progress" "progress \<le> 100" "0 \<le> n" "same_tasks (tk_TaskID task) te te1" by blast
  then obtain t1 where "gm_get (tasks_of te1) (tk_TaskID task) = Some t1" using assms(3) by (auto simp: same_tasks_def)
  from markComplete_settles [OF f(2-5) assms(2) this] show ?thesis using f(1) by simp
qed

lemma execute_tasks_other: "j \<notin> tk_TaskID ` set ts \<Longrightarrow> gm_get (tasks_of (execute_tasks env i ts te)) j = gm_get (tasks_of te) j"
  by (induction ts arbitrary: i te) (simp_all add: executeTask_other)

lemma execute_tasks_settles:
  assumes "distinct (map tk_TaskID ts)" "task \<in> set ts" "tk_Type task \<in> {''purge'', ''prewarm'', ''block''}" "\<And>n. writes_ok (env n)"
    "gm_get (tasks_of te) (tk_TaskID task) = Some t"
  shows "\<exists>r. gm_get (tasks_of (execute_tasks env i ts te)) (tk_TaskID task) = Some r \<and> settled r"
  using assms
proof (induction ts arbitrary: i te)
  case (Cons t' ts)
  show ?case
  proof (cases "task = t'")
    case True
    then show ?thesis
      using executeTask_settles [OF Cons.prems(3) Cons.prems(4) Cons.prems(5), of i] Cons.prems(1)
        execute_tasks_other [of "tk_TaskID task" ts env "Suc i" "executeTask (env i) t' te"] by simp
  next
    case False
    then have "tk_TaskID task \<noteq> tk_TaskID t'" using Cons.prems(1, 2) by (auto simp: image_iff)
    then show ?thesis
      using Cons.IH [of "executeTask (env i) t' te" "Suc i"] Cons.prems False by (simp add: executeTask_other)
  qed
qed simp

lemma listed_tasks:
  assumes "ListTasks db1 db2 [] ''pending'' [] 10 0 s = Inr (ts, n)" "keyed tk_TaskID (tb_tasks (as_primary s))" "as_replica s = None"
  shows "distinct (map tk_TaskID ts)" "t \<in> set ts \<Longrightarrow> gm_get (tb_tasks (as_primary s)) (tk_TaskID t) = Some t \<and> tk_Status t = ''pending''"
proof -
  let ?T = "tb_tasks (as_primary s)"
  let ?all = "sort_key (\<lambda>r. - tk_CreatedAt r) (filter (\<lambda>t. tk_Status t = ''pending'') (map snd ?T))"
  have ts: "ts = take 10 ?all"
    using assms by (auto simp: ListTasks_def Let_def tbl_list_def matches_def page_def reads_def split: if_split_asm)
  have wf: "gm_wf ?T" "\<And>k r. (k, r) \<in> set ?T \<Longrightarrow> tk_TaskID r = k" using assms(2) by (auto simp: keyed_def list_all_iff)
  have "map tk_TaskID (map snd ?T) = map fst ?T" using wf(2) by (auto simp: split_beta)
  moreover have "distinct (map fst ?T)" using wf(1) by (simp add: gm_wf_def)
  ultimately have "distinct (map tk_TaskID (map snd ?T))" by (simp only:)
  then have "distinct (map tk_TaskID (filter (\<lambda>t. tk_Status t = ''pending'') (map snd ?T)))" by (rule distinct_map_filter)
  then have "distinct (map tk_TaskID ?all)" by (simp add: distinct_map)
  then show "distinct (map tk_TaskID ts)" by (simp add: ts flip: take_map)
  show "gm_get ?T (tk_TaskID t) = Some t \<and> tk_Status t = ''pending''" if "t \<in> set ts"
  proof -
    have "t \<in> set ?all" using that ts by (metis in_set_takeD)
    then obtain k where "(k, t) \<in> set ?T" "tk_Status t = ''pending''" by auto
    then show ?thesis using wf gm_get_in [OF wf(1)] by auto
  qed
qed

text \<open>
  C39: a pass of the task executor settles every task it lists.  Where the pending tasks are listed from the primary
  and the final writes succeed, each listed purge, prewarm or block task is afterwards completed or failed, with a
  progress between 0 and 100, whatever its parameters say, whichever nodes are found and whatever they answer; it is
  not pending any more, so no later pass runs it again.  The rows of all other tasks are unchanged.
\<close>

theorem pending_tasks_settle:
  assumes "ListTasks db1 db2 [] ''pending'' [] 10 0 (te_store te) = Inr (tasks, number)" "as_replica (te_store te) = None"
    "keyed tk_TaskID (tasks_of te)" "\<And>n. writes_ok (env n)"
  shows "(\<forall>t\<in>set tasks. tk_Type t \<in> {''purge'', ''prewarm'', ''block''} \<longrightarrow>
      (\<exists>r. gm_get (tasks_of (processPending db1 db2 env te)) (tk_TaskID t) = Some r \<and>
        tk_Status r \<in> {''completed'', ''failed''} \<and> 0 \<le> tk_Progress r \<and> tk_Progress r \<le> 100)) \<and>
    (\<forall>i. i \<notin> tk_TaskID ` set tasks \<longrightarrow> gm_get (tasks_of (processPending db1 db2 env te)) i = gm_get (tasks_of te) i)"
proof -
  have p: "processPending db1 db2 env te = execute_tasks env 0 tasks te" by (simp add: processPending_def assms(1))
  note listed = listed_tasks [OF assms(1) assms(3) assms(2)]
  have "\<exists>r. gm_get (tasks_of (processPending db1 db2 env te)) (tk_TaskID t) = Some r \<and> settled r"
    if "t \<in> set tasks" "tk_Type t \<in> {''purge'', ''prewarm'', ''block''}" for t
    unfolding p using listed(2) [OF that(1)] by (intro execute_tasks_settles [OF listed(1) that, of env te t 0] assms(4)) simp
  moreover have "gm_get (tasks_of (processPending db1 db2 env te)) i = gm_get (tasks_of te) i" if "i \<notin> tk_TaskID ` set tasks" for i
    unfolding p by (rule execute_tasks_other [OF that])
  ultimately show ?thesis unfolding settled_def by blast
qed

definition sample_task :: task where
  "sample_task = \<lparr>tk_TaskID = ''task_1'', tk_TenantID = [], tk_ProjectID = [], tk_CreatorID = ''u_1'', tk_Type = ''purge'', tk_Status = ''pending'',
     tk_Params = Some (JObj [(''object_key'', JStr ''k'')]), tk_Result = None, tk_Progress = 0, tk_TotalNodes = 0, tk_DoneNodes = 0, tk_CreatedAt = 1, tk_UpdatedAt = 1\<rparr>"

definition sample_task_env :: task_env where
  "sample_task_env = \<lparr>xe_now = 9, xe_db = (\<lambda>_. True), xe_clock = (\<lambda>_. 9), xe_listing = Inl PgFail, xe_jsonb = Some, xe_run = True, xe_done = True,
     xe_push = (\<lambda>_ _. None)\<rparr>"

theorem pending_tasks_settle_witness:
  "\<exists>r. gm_get (tasks_of (processPending True True (\<lambda>_. sample_task_env)
       \<lparr>te_store = \<lparr>as_primary = no_tables\<lparr>tb_tasks := [(''task_1'', sample_task)]\<rparr>, as_replica = None\<rparr>, te_pg = pg_empty, te_nodeCache = NewNodeCache 5\<rparr>)) ''task_1'' = Some r \<and>
     tk_Status r \<in> {''completed'', ''failed''}"
proof -
  let ?te = "\<lparr>te_store = \<lparr>as_primary = no_tables\<lparr>tb_tasks := [(''task_1'', sample_task)]\<rparr>, as_replica = None\<rparr>, te_pg = pg_empty, te_nodeCache = NewNodeCache 5\<rparr>"
  have "ListTasks True True [] ''pending'' [] 10 0 (te_store ?te) = Inr ([sample_task], 1)"
    by (simp add: ListTasks_def Let_def tbl_list_def matches_def page_def reads_def sample_task_def)
  moreover have "keyed tk_TaskID (tasks_of ?te)" by (simp add: keyed_def gm_wf_def sample_task_def)
  moreover have ty: "tk_Type sample_task = ''purge''" "tk_TaskID sample_task = ''task_1''" by (simp_all add: sample_task_def)
  moreover have "writes_ok sample_task_env" by (simp add: writes_ok_def sample_task_env_def)
  ultimately show ?thesis
    using pending_tasks_settle [of True True ?te "[sample_task]" 1 "\<lambda>_. sample_task_env"] ty by auto
qed

end
