(* ===== verification/Gateway.thy ===== *)
theory Gateway
  imports Edge_Server "HOL-Library.List_Lexorder" "HOL-Library.Char_ord"
begin

text \<open>
  The gateway, \<open>internal/gateway/gateway.go\<close> and \<open>resolver.go\<close>: the resolver's cache of node addresses and tokens, and
  the routing of an object request to a public edge or into the tunnel of a node behind NAT.  The answers of the
  control plane, the clock and what \<open>url.Parse\<close> makes of an address are arguments.  Header names are in lower case.
  Not modelled: the exchange with the edge behind the routed request (the tunnel's is in \<open>Tunnel_Session\<close>), the web
  application firewall, HTTP/3, health and metrics.
\<close>

section \<open>The resolver\<close>

record node_info =
  ni_endpoint :: string
  ni_edgeToken :: string
  ni_isPublic :: bool
  ni_expireAt :: int

type_synonym resolver = "(string, node_info) gomap"

text \<open>What the control plane answers: a node's reachability and its addresses, and for a request the candidates
  (identifier and address) with the token.\<close>

record gateway_env =
  ge_now :: "nat \<Rightarrow> int"
  ge_node :: "string \<Rightarrow> (bool \<times> (string \<times> string \<times> int) list) option"
  ge_dispatch :: "string \<Rightarrow> string \<Rightarrow> ((string \<times> string) list \<times> string) option"
  ge_url :: "string \<Rightarrow> (string \<times> string) option"
  ge_addr :: string
  ge_tls :: bool
  ge_host :: string

definition GetNodeEndpoint :: "gateway_env \<Rightarrow> nat \<Rightarrow> string \<Rightarrow> resolver \<Rightarrow> resolver \<times> (string \<times> bool) option" where
  "GetNodeEndpoint env i nodeID c =
    (let fetch =
       (case ge_node env nodeID of
          None \<Rightarrow> (c, None)
        | Some (isPublic, eps) \<Rightarrow>
           (let addr = (case eps of (scheme, host, port) # _ \<Rightarrow> if isPublic then scheme @ ''://'' @ host @ '':'' @ format_int port else [] | [] \<Rightarrow> [])
            in (gm_set nodeID \<lparr>ni_endpoint = addr, ni_edgeToken = [], ni_isPublic = isPublic, ni_expireAt = ge_now env (Suc i) + 30000000000\<rparr> c,
                Some (addr, isPublic))))
     in case gm_get c nodeID of
          Some info \<Rightarrow> if ge_now env i < ni_expireAt info then (c, Some (ni_endpoint info, ni_isPublic info)) else fetch
        | None \<Rightarrow> fetch)"

definition GetEdgeToken :: "int \<Rightarrow> string \<Rightarrow> resolver \<Rightarrow> string option" where
  "GetEdgeToken now nodeID c =
    (case gm_get c nodeID of
       Some info \<Rightarrow> if now < ni_expireAt info \<and> ni_edgeToken info \<noteq> [] then Some (ni_edgeToken info) else None
     | None \<Rightarrow> None)"

definition GetBestNode :: "gateway_env \<Rightarrow> nat \<Rightarrow> string \<Rightarrow> string \<Rightarrow> resolver \<Rightarrow> resolver \<times> string option" where
  "GetBestNode env i key clientIP c =
    (case ge_dispatch env key clientIP of
       None \<Rightarrow> (c, None)
     | Some ([], _) \<Rightarrow> (c, None)
     | Some ((nodeID, addr) # _, token) \<Rightarrow>
        (if addr \<noteq> [] then gm_set nodeID \<lparr>ni_endpoint = addr, ni_edgeToken = token, ni_isPublic = True, ni_expireAt = ge_now env i + 30000000000\<rparr> c
         else c, Some nodeID))"

definition InvalidateCache :: "string \<Rightarrow> resolver \<Rightarrow> resolver" where
  "InvalidateCache nodeID c = gm_del nodeID c"

section \<open>Rewriting a request\<close>

definition gateway_client_ip :: "http_request \<Rightarrow> string" where
  "gateway_client_ip r =
    (let xff = header r ''X-Forwarded-For''; xri = header r ''X-Real-IP'' in
     if xff \<noteq> [] then trim_space (hd (split_on (CHR '','') xff))
     else if xri \<noteq> [] then xri
     else case SplitHostPort (rq_remote r) of None \<Rightarrow> rq_remote r | Some (host, _) \<Rightarrow> host)"

definition sanitizeGatewayKey :: "string \<Rightarrow> string" where
  "sanitizeGatewayKey key =
    join_with (CHR ''/'') (filter (\<lambda>p. p \<noteq> [] \<and> p \<noteq> ''.'' \<and> p \<noteq> ''..'')
      (map trim_space (split_on (CHR ''/'') (map (\<lambda>c. if c = CHR 0x5C then CHR ''/'' else c) (trim_space key)))))"

text \<open>\<open>url.ParseQuery\<close> and \<open>Values.Encode\<close>, of the parameters in their order; an error of the former is \<open>None\<close>.\<close>

definition ParseQuery :: "string \<Rightarrow> (string \<times> string) list option" where
  "ParseQuery s =
    (let ps = map query_pair (filter (\<lambda>p. p \<noteq> []) (split_on (CHR ''&'') s)) in
     if list_all (\<lambda>p. p \<noteq> []) ps then Some (concat ps) else None)"

definition encode_pair :: "string \<times> string \<Rightarrow> string" where
  "encode_pair p = QueryEscape (fst p) @ ''='' @ QueryEscape (snd p)"

definition query_Encode :: "(string \<times> string) list \<Rightarrow> string" where
  "query_Encode q = join_with (CHR ''&'') (map encode_pair (sort_key fst q))"

definition setTokenQuery :: "string \<Rightarrow> string \<Rightarrow> string" where
  "setTokenQuery rawQuery token =
    (let q = (case ParseQuery rawQuery of None \<Rightarrow> [] | Some q \<Rightarrow> q)
     in query_Encode (filter (\<lambda>p. fst p \<noteq> ''token'') q @ [(''token'', token)]))"

text \<open>The map of hop-by-hop headers has the name \<open>TE\<close>, which is not how Go spells the header's name (\<open>Te\<close>): that
  one stays in the map of a tunnelled request.  The list of the public path is given to \<open>Header.Del\<close>, which does not
  mind.\<close>

definition hop_headers :: "string list" where
  "hop_headers = [''connection'', ''keep-alive'', ''proxy-authenticate'', ''proxy-authorization'', ''trailer'', ''transfer-encoding'', ''upgrade'']"

definition del_headers :: "string list \<Rightarrow> (string, string) gomap \<Rightarrow> (string, string) gomap" where
  "del_headers hs m = fold gm_del hs m"

datatype route =
    Refused int string
  | ToPublic string string http_request
  | ToTunnel string string string "(string, string) gomap"

text \<open>The request that a public edge gets; the reverse proxy of the library adds the address of its client to
  \<open>X-Forwarded-For\<close>.\<close>

definition public_request :: "gateway_env \<Rightarrow> string option \<Rightarrow> string \<Rightarrow> http_request \<Rightarrow> http_request" where
  "public_request env token key r =
    (let r1 = r\<lparr>rq_path := path_Join [''/obj/'', key], rq_headers := del_headers (''te'' # hop_headers) (rq_headers r)\<rparr>;
         ip = gateway_client_ip r1;
         r2 = set_header ''X-Forwarded-Proto'' (if ge_tls env then ''https'' else ''http'')
           (set_header ''X-Forwarded-Host'' (ge_host env) (set_header ''X-Forwarded-For'' ip r1));
         r3 = (case token of None \<Rightarrow> r2 | Some t \<Rightarrow> r2\<lparr>rq_query := setTokenQuery (rq_query r2) t\<rparr>);
         r4 = (case SplitHostPort (rq_remote r) of None \<Rightarrow> r3 | Some (peer, _) \<Rightarrow> set_header ''X-Forwarded-For'' (ip @ '', '' @ peer) r3)
     in r4\<lparr>rq_remote := ge_addr env\<rparr>)"

definition proxyToPublic :: "gateway_env \<Rightarrow> nat \<Rightarrow> http_request \<Rightarrow> string \<Rightarrow> string \<Rightarrow> string \<Rightarrow> resolver \<Rightarrow> route" where
  "proxyToPublic env i r addr nodeID key c =
    (case ge_url env addr of
       None \<Rightarrow> Refused 500 ''invalid endpoint''
     | Some (scheme, host) \<Rightarrow>
        if scheme \<noteq> ''http'' \<and> scheme \<noteq> ''https'' then Refused 500 ''invalid endpoint''
        else ToPublic scheme host (public_request env (GetEdgeToken (ge_now env i) nodeID c) (sanitizeGatewayKey key) r))"

definition proxyToTunnel :: "gateway_env \<Rightarrow> nat \<Rightarrow> http_request \<Rightarrow> string \<Rightarrow> string \<Rightarrow> resolver \<Rightarrow> route" where
  "proxyToTunnel env i r nodeID key c =
    (let hs = gm_set ''x-forwarded-host'' (ge_host env) (gm_set ''x-forwarded-for'' (gateway_client_ip r) (del_headers hop_headers (rq_headers r)));
         hs = (case GetEdgeToken (ge_now env i) nodeID c of None \<Rightarrow> hs | Some t \<Rightarrow> gm_set ''authorization'' (''Bearer '' @ t) hs)
     in ToTunnel nodeID (rq_method r) (''/obj/'' @ sanitizeGatewayKey key) hs)"

definition handleObjectRequest :: "gateway_env \<Rightarrow> http_request \<Rightarrow> resolver \<Rightarrow> resolver \<times> route" where
  "handleObjectRequest env r c =
    (let key = trim_space (trim_prefix ''/obj/'' (rq_path r)) in
     if key = [] \<or> contains key ''..'' \<or> CHR 0x0A \<in> set key \<or> CHR 0x0D \<in> set key then (c, Refused 400 ''invalid key'')
     else case GetBestNode env 0 key (gateway_client_ip r) c of
       (c, None) \<Rightarrow> (c, Refused 503 ''no available node'')
     | (c, Some nodeID) \<Rightarrow>
        (case GetNodeEndpoint env 1 nodeID c of
           (c, None) \<Rightarrow> (c, Refused 500 ''node resolution error'')
         | (c, Some (addr, isPublic)) \<Rightarrow>
            (c, if isPublic \<and> addr \<noteq> [] then proxyToPublic env 3 r addr nodeID key c else proxyToTunnel env 3 r nodeID key c)))"

section \<open>The token reaches the edge\<close>

lemma encode_pair_reads: "query_pair (encode_pair p) = [p]" "CHR ''&'' \<notin> set (encode_pair p)"
proof -
  show "query_pair (encode_pair p) = [p]"
    unfolding encode_pair_def
    by (subst query_pair_name [of _ "fst p"]) (auto intro!: QueryEscape_no simp: query_unescape_QueryEscape)
  show "CHR ''&'' \<notin> set (encode_pair p)" by (simp add: encode_pair_def QueryEscape_no)
qed

lemma query_get_Encode:
  assumes "q \<noteq> []"
  shows "map_of (concat (map query_pair (split_on (CHR ''&'') (query_Encode q)))) = map_of (sort_key fst q)"
proof -
  have "sort_key fst q \<noteq> []" using assms by (metis length_0_conv length_sort)
  then have "split_on (CHR ''&'') (query_Encode q) = map encode_pair (sort_key fst q)"
    unfolding query_Encode_def by (intro split_join) (auto simp: encode_pair_reads(2))
  moreover have "concat (map query_pair (map encode_pair ps)) = ps" for ps by (induction ps) (simp_all add: encode_pair_reads(1))
  ultimately show ?thesis by simp
qed

lemma map_of_only:
  assumes "(k, v) \<in> set ps" "\<And>v'. (k, v') \<in> set ps \<Longrightarrow> v' = v"
  shows "map_of ps k = Some v"
proof (cases "map_of ps k")
  case None
  then show ?thesis using assms(1) by (force simp: map_of_eq_None_iff)
next
  case (Some v')
  then show ?thesis using assms(2) [OF map_of_SomeD [OF Some]] by simp
qed

lemma setTokenQuery_get: "query_get (r\<lparr>rq_query := setTokenQuery raw token\<rparr>) ''token'' = token"
proof -
  let ?q = "filter (\<lambda>p. fst p \<noteq> ''token'') (case ParseQuery raw of None \<Rightarrow> [] | Some q \<Rightarrow> q) @ [(''token'', token)]"
  have "map_of (sort_key fst ?q) ''token'' = Some token"
    by (rule map_of_only) (auto split: option.splits)
  then show ?thesis by (simp add: query_get_def setTokenQuery_def Let_def query_get_Encode)
qed

lemma del_headers_get: "gm_get (del_headers hs m) k = (if k \<in> set hs then None else gm_get m k)"
  unfolding del_headers_def by (induction hs arbitrary: m) auto

lemma gateway_names:
  "to_lower ''X-Forwarded-For'' = ''x-forwarded-for''" "to_lower ''X-Real-IP'' = ''x-real-ip''" "to_lower ''X-Forwarded-Host'' = ''x-forwarded-host''"
  "to_lower ''X-Forwarded-Proto'' = ''x-forwarded-proto''"
  by code_simp+

lemma public_request_headers:
  assumes "SplitHostPort (rq_remote r) = Some (peer, port)"
  shows "header (public_request env token key r) ''X-Forwarded-For'' = gateway_client_ip r @ '', '' @ peer"
    and "header (public_request env token key r) ''Authorization'' = header r ''Authorization''"
    and "header (public_request env token key r) ''Range'' = header r ''Range''"
    and "rq_query (public_request env (Some t) key r) = setTokenQuery (rq_query r) t"
    and "rq_method (public_request env token key r) = rq_method r"
proof -
  let ?r1 = "r\<lparr>rq_path := path_Join [''/obj/'', key], rq_headers := del_headers (''te'' # hop_headers) (rq_headers r)\<rparr>"
  have h1: "header ?r1 ''X-Forwarded-For'' = header r ''X-Forwarded-For''" "header ?r1 ''X-Real-IP'' = header r ''X-Real-IP''"
    "header ?r1 ''Authorization'' = header r ''Authorization''" "header ?r1 ''Range'' = header r ''Range''"
    by (simp_all add: header_def del_headers_get hop_headers_def gateway_names edge_lower_names)
  have "rq_remote ?r1 = rq_remote r" by simp
  then have ip: "gateway_client_ip ?r1 = gateway_client_ip r" unfolding gateway_client_ip_def h1 by (simp only:)
  have upd: "header (q\<lparr>rq_remote := a\<rparr>) n = header q n" "header (q\<lparr>rq_query := a\<rparr>) n = header q n" for q a n by (simp_all add: header_def)
  note defs = public_request_def Let_def ip assms option.case prod.case
  show "header (public_request env token key r) ''X-Forwarded-For'' = gateway_client_ip r @ '', '' @ peer"
    unfolding defs by (simp add: upd header_set)
  show "header (public_request env token key r) ''Authorization'' = header r ''Authorization''"
    unfolding defs by (cases token) (simp_all add: upd header_set gateway_names edge_lower_names h1)
  show "header (public_request env token key r) ''Range'' = header r ''Range''"
    unfolding defs by (cases token) (simp_all add: upd header_set gateway_names edge_lower_names h1)
  show "rq_query (public_request env (Some t) key r) = setTokenQuery (rq_query r) t"
    unfolding defs by (simp add: set_header_def)
  show "rq_method (public_request env token key r) = rq_method r"
    unfolding defs by (cases token) (simp_all add: set_header_def)
qed

lemma public_request_path: "rq_path (public_request env token key r) = path_Join [''/obj/'', key]"
  by (simp add: public_request_def Let_def set_header_def split: option.splits prod.splits)

text \<open>The edge takes the last address of \<open>X-Forwarded-For\<close>, which the reverse proxy put there.\<close>

lemma edge_sees_peer:
  assumes "SplitHostPort (rq_remote r) = Some (peer, port)" "CHR '','' \<notin> set peer" "gateway_client_ip r \<noteq> []"
  shows "extractClientIP (public_request env token key r) = trim_space (CHR '' '' # peer)"
proof -
  have "last_index (gateway_client_ip r @ '', '' @ peer) (CHR '','') = int (length (gateway_client_ip r))"
    using last_index_append [of "CHR '',''" "CHR '' '' # peer" "gateway_client_ip r"] assms(2) by simp
  then show ?thesis using assms(3) by (simp add: extractClientIP_def public_request_headers(1) [OF assms(1)] Let_def)
qed

lemma trim_space_blank: "trim_space (CHR '' '' # s) = trim_space s"
proof -
  have "lead_space space_seqs (CHR '' '' # s) = 1" by (simp add: lead_space_def space_seqs_def)
  then have "trim_left space_seqs (CHR '' '' # s) = trim_left space_seqs s" by (subst trim_left.simps) simp
  then show ?thesis by (simp add: trim_space_def)
qed

definition direct_client :: "http_request \<Rightarrow> string \<Rightarrow> bool" where
  "direct_client r peer \<longleftrightarrow> header r ''X-Forwarded-For'' = [] \<and> header r ''X-Real-IP'' = [] \<and>
    (\<exists>port. SplitHostPort (rq_remote r) = Some (peer, port)) \<and> peer \<noteq> [] \<and> CHR '','' \<notin> set peer \<and> trim_space peer = peer"

lemma GetNodeEndpoint_cached:
  "\<lbrakk>gm_get c nodeID = Some info; ge_now env i < ni_expireAt info\<rbrakk> \<Longrightarrow> GetNodeEndpoint env i nodeID c = (c, Some (ni_endpoint info, ni_isPublic info))"
  by (simp add: GetNodeEndpoint_def Let_def)

lemma gateway_public_route:
  assumes key: "key = trim_space (trim_prefix ''/obj/'' (rq_path r))"
    and valid: "key \<noteq> []" "\<not> contains key ''..''" "CHR 0x0A \<notin> set key" "CHR 0x0D \<notin> set key"
    and dispatch: "ge_dispatch env key (gateway_client_ip r) = Some ((nodeID, addr) # cs, token)" "addr \<noteq> []" "token \<noteq> []"
    and url: "ge_url env addr = Some (scheme, host)" "scheme = ''http'' \<or> scheme = ''https''"
    and clock: "ge_now env 1 < ge_now env 0 + 30000000000" "ge_now env 3 < ge_now env 0 + 30000000000"
  shows "snd (handleObjectRequest env r c) = ToPublic scheme host (public_request env (Some token) (sanitizeGatewayKey key) r)"
proof -
  let ?info = "\<lparr>ni_endpoint = addr, ni_edgeToken = token, ni_isPublic = True, ni_expireAt = ge_now env 0 + 30000000000\<rparr>"
  let ?c = "gm_set nodeID ?info c"
  have best: "GetBestNode env 0 key (gateway_client_ip r) c = (?c, Some nodeID)"
    using dispatch by (simp add: GetBestNode_def)
  have addr: "GetNodeEndpoint env 1 nodeID ?c = (?c, Some (addr, True))"
    using GetNodeEndpoint_cached [of ?c nodeID ?info env 1] clock by simp
  have tok: "GetEdgeToken (ge_now env 3) nodeID ?c = Some token" using clock dispatch by (simp add: GetEdgeToken_def)
  show ?thesis
    using valid dispatch(2) url unfolding handleObjectRequest_def Let_def key [symmetric]
    by (auto simp: best addr proxyToPublic_def tok simp del: One_nat_def)
qed

lemma direct_client_ip: "direct_client r peer \<Longrightarrow> gateway_client_ip r = peer"
  by (auto simp: direct_client_def gateway_client_ip_def)

lemma public_request_edge:
  assumes "direct_client r peer" "\<not> prefix ''Bearer '' (header r ''Authorization'')"
  shows "object_token (public_request env (Some token) key r) = token" "extractClientIP (public_request env (Some token) key r) = peer"
    "rq_method (public_request env (Some token) key r) = rq_method r" "header (public_request env (Some token) key r) ''Range'' = header r ''Range''"
proof -
  obtain port where remote: "SplitHostPort (rq_remote r) = Some (peer, port)" using assms(1) by (auto simp: direct_client_def)
  let ?out = "public_request env (Some token) key r"
  have "query_get ?out ''token'' = token"
    using setTokenQuery_get [where r = ?out and raw = "rq_query r" and token = token] public_request_headers(4) [OF remote] by (simp add: query_get_def)
  then show "object_token ?out = token"
    using assms(2) by (simp add: object_token_def public_request_headers(2) [OF remote])
  show "extractClientIP ?out = peer"
    using edge_sees_peer [OF remote] direct_client_ip [OF assms(1)] assms(1) by (simp add: direct_client_def trim_space_blank)
  show "rq_method ?out = rq_method r" "header ?out ''Range'' = header r ''Range''" by (simp_all add: public_request_headers(3, 5) [OF remote])
qed

text \<open>A client behind another proxy: the token is issued for the first address of \<open>X-Forwarded-For\<close>, the edge
  checks it against the address of the proxy.\<close>

lemma gateway_addresses_differ:
  assumes "header r ''X-Forwarded-For'' = ip" "ip \<noteq> []" "CHR '','' \<notin> set ip" "trim_space ip = ip"
    and "SplitHostPort (rq_remote r) = Some (peer, port)" "CHR '','' \<notin> set peer" "trim_space peer = peer"
  shows "gateway_client_ip r = ip \<and> extractClientIP (public_request env token key r) = peer"
proof -
  have "split_on (CHR '','') ip = [ip]" using assms(3) split_join [of "[ip]" "CHR '',''"] by simp
  then have "gateway_client_ip r = ip" using assms(1, 2, 4) by (simp add: gateway_client_ip_def)
  then show ?thesis using edge_sees_peer [OF assms(5, 6)] assms(2, 7) by (simp add: trim_space_blank)
qed

text \<open>A node that is reached through its tunnel: the candidate has no address, the token of the dispatch is not
  kept, and the edge gets a request without it.\<close>

lemma tunnel_request_lacks_token:
  assumes "key = trim_space (trim_prefix ''/obj/'' (rq_path r))" "key \<noteq> []" "\<not> contains key ''..''" "CHR 0x0A \<notin> set key" "CHR 0x0D \<notin> set key"
    and "ge_dispatch env key (gateway_client_ip r) = Some ((nodeID, []) # cs, token)"
    and "gm_get c nodeID = None" "ge_node env nodeID = Some (False, eps)"
  shows "\<exists>c' hs. handleObjectRequest env r c = (c', ToTunnel nodeID (rq_method r) (''/obj/'' @ sanitizeGatewayKey key) hs) \<and>
    gm_get hs ''authorization'' = gm_get (rq_headers r) ''authorization''"
proof -
  have "GetBestNode env 0 key (gateway_client_ip r) c = (c, Some nodeID)" using assms(6) by (simp add: GetBestNode_def)
  moreover obtain c' where c': "GetNodeEndpoint env 1 nodeID c = (c', Some ([], False))" "gm_get c' nodeID =
      Some \<lparr>ni_endpoint = [], ni_edgeToken = [], ni_isPublic = False, ni_expireAt = ge_now env 2 + 30000000000\<rparr>"
    using assms(7, 8) by (simp add: GetNodeEndpoint_def Let_def numeral_2_eq_2 split: list.splits)
  moreover have "GetEdgeToken (ge_now env 3) nodeID c' = None" using c'(2) by (simp add: GetEdgeToken_def)
  ultimately show ?thesis
    using assms(2-5) unfolding handleObjectRequest_def Let_def assms(1) [symmetric]
    by (simp add: proxyToTunnel_def del_headers_get hop_headers_def)
qed

end
